(* ===== verification/Prelude.thy ===== *)
theory Prelude
  imports
    Main
    "HOL-Library.Word"
    "HOL-Library.Monad_Syntax"
    "HOL-Library.Multiset"
    "HOL-Library.Product_Lexorder"
    "HOL-Library.Option_ord"
    "HOL-Library.Char_ord"
    "HOL-Library.List_Lexorder"
begin

unbundle bit_operations_syntax

text \<open>
  Shared vocabulary of the development: machine integers and byte strings, the
  results and errors of \<open>std::io\<close>, the slice and iterator operations of the Rust
  standard library that the modules of \<open>src/src\<close> use, and the arithmetic of
  four-byte alignment.

  Conventions. Integers are words of their Rust width; \<open>i32\<close> is a 32-bit word read
  with \<open>sint\<close>. Lengths and offsets (\<open>usize\<close>) are natural numbers: they index
  buffers that exist in memory, so they never overflow, and truncated subtraction is
  exactly \<open>saturating_sub\<close>. The host is little-endian, so \<open>from_ne_bytes\<close> and
  \<open>read_unaligned\<close> read the least significant byte first. Arithmetic wraps, as in
  the release build.
\<close>

section \<open>Collections of facts\<close>

named_theorems wire_simps \<open>reading and writing fixed-width fields\<close>
named_theorems label_simps \<open>tables of kernel constants and their labels\<close>

section \<open>Machine types\<close>

type_synonym byte = "8 word"
type_synonym u8 = "8 word"
type_synonym u16 = "16 word"
type_synonym u32 = "32 word"
type_synonym u64 = "64 word"
type_synonym i32 = "32 word"
type_synonym bytes = "8 word list"

lemma unat_bound: "unat (w :: 'a::len word) < 2 ^ LENGTH('a)"
  by (rule unsigned_less)

lemma unat_bounds:
  "unat (a :: u8) < 256" "unat (b :: u16) < 65536" "unat (c :: u32) < 4294967296"
  "unat (d :: u64) < 18446744073709551616"
  using unat_bound [of a] unat_bound [of b] unat_bound [of c] unat_bound [of d] by simp_all

section \<open>Results and errors\<close>

text \<open>
  \<open>std::io::Error\<close> is either an operating-system error number or an error kind with a
  message. \<open>ErrorKind\<close> lists the kinds the sources construct.
\<close>

datatype error_kind =
  InvalidData | InvalidInput | Interrupted | UnexpectedEof | NotFound | WriteZero
  | AddrNotAvailable | NotConnected | Other

datatype io_error = Os i32 | Custom error_kind string

datatype 'a result = Ok (ok_value: 'a) | Err (err_value: io_error)

text \<open>\<open>io::Error::raw_os_error\<close>.\<close>

fun raw_os_error :: "io_error \<Rightarrow> i32 option" where
  "raw_os_error (Os code) = Some code"
| "raw_os_error (Custom _ _) = None"

text \<open>The kind of an operating-system error, as far as the sources ask for it: Linux
  \<open>EINTR\<close> is 4 and \<open>ENOENT\<close> is 2.\<close>

fun kind_of :: "io_error \<Rightarrow> error_kind" where
  "kind_of (Os code) = (if code = 4 then Interrupted else if code = 2 then NotFound else Other)"
| "kind_of (Custom kind _) = kind"

fun ok_or_else :: "io_error \<Rightarrow> 'a option \<Rightarrow> 'a result" where
  "ok_or_else e None = Err e"
| "ok_or_else e (Some x) = Ok x"

fun is_ok :: "'a result \<Rightarrow> bool" where
  "is_ok (Ok _) = True"
| "is_ok (Err _) = False"

fun result_option :: "'a result \<Rightarrow> 'a option" where
  "result_option (Ok x) = Some x"
| "result_option (Err _) = None"

section \<open>Slices and iterators\<close>

text \<open>\<open>slice.get(offset..)\<close>, \<open>slice.get(..n)\<close> and \<open>slice.get(a..b)\<close>.\<close>

definition get_from :: "nat \<Rightarrow> 'a list \<Rightarrow> 'a list option" where
  "get_from offset xs = (if offset \<le> length xs then Some (drop offset xs) else None)"

definition get_to :: "nat \<Rightarrow> 'a list \<Rightarrow> 'a list option" where
  "get_to n xs = (if n \<le> length xs then Some (take n xs) else None)"

definition get_range :: "nat \<Rightarrow> nat \<Rightarrow> 'a list \<Rightarrow> 'a list option" where
  "get_range a b xs = (if a \<le> b \<and> b \<le> length xs then Some (take (b - a) (drop a xs)) else None)"

definition get_at :: "nat \<Rightarrow> 'a list \<Rightarrow> 'a option" where
  "get_at i xs = (if i < length xs then Some (xs ! i) else None)"

text \<open>\<open>slice.first()\<close> and \<open>slice.last()\<close>.\<close>

fun first_opt :: "'a list \<Rightarrow> 'a option" where
  "first_opt [] = None"
| "first_opt (x # _) = Some x"

fun last_opt :: "'a list \<Rightarrow> 'a option" where
  "last_opt [] = None"
| "last_opt (x # xs) = Some (last (x # xs))"

text \<open>\<open>Iterator::find_map\<close> stops at the first item that is mapped to a value;
  \<open>Iterator::filter_map\<close> keeps every value.\<close>

fun find_map :: "('a \<Rightarrow> 'b option) \<Rightarrow> 'a list \<Rightarrow> 'b option" where
  "find_map f [] = None"
| "find_map f (x # xs) = (case f x of Some y \<Rightarrow> Some y | None \<Rightarrow> find_map f xs)"

fun filter_map :: "('a \<Rightarrow> 'b option) \<Rightarrow> 'a list \<Rightarrow> 'b list" where
  "filter_map f [] = []"
| "filter_map f (x # xs) = (case f x of Some y \<Rightarrow> y # filter_map f xs | None \<Rightarrow> filter_map f xs)"

fun option_filter :: "('a \<Rightarrow> bool) \<Rightarrow> 'a option \<Rightarrow> 'a option" where
  "option_filter p None = None"
| "option_filter p (Some x) = (if p x then Some x else None)"

fun option_or :: "'a option \<Rightarrow> 'a option \<Rightarrow> 'a option" where
  "option_or None y = y"
| "option_or (Some x) y = Some x"

fun unwrap_or :: "'a \<Rightarrow> 'a option \<Rightarrow> 'a" where
  "unwrap_or d None = d"
| "unwrap_or d (Some x) = x"

text \<open>\<open>Vec::dedup\<close> removes consecutive repetitions.\<close>

fun dedup :: "'a list \<Rightarrow> 'a list" where
  "dedup [] = []"
| "dedup [x] = [x]"
| "dedup (x # y # zs) = (if x = y then dedup (y # zs) else x # dedup (y # zs))"

text \<open>\<open>slice.join\<close> on strings.\<close>

fun join :: "'a list \<Rightarrow> 'a list list \<Rightarrow> 'a list" where
  "join sep [] = []"
| "join sep [x] = x"
| "join sep (x # y # zs) = x @ sep @ join sep (y # zs)"

lemma find_map_None: "find_map f xs = None \<longleftrightarrow> (\<forall>x \<in> set xs. f x = None)"
  by (induction xs) (auto split: option.splits)

lemma find_map_Some: "find_map f xs = Some y \<Longrightarrow> \<exists>x \<in> set xs. f x = Some y"
  by (induction xs) (auto split: option.splits)

lemma find_map_append: "find_map f (xs @ ys) = option_or (find_map f xs) (find_map f ys)"
  by (induction xs) (auto split: option.splits)

lemma filter_map_append [simp]: "filter_map f (xs @ ys) = filter_map f xs @ filter_map f ys"
  by (induction xs) (auto split: option.splits)

lemma set_filter_map: "set (filter_map f xs) = {y. \<exists>x \<in> set xs. f x = Some y}"
  by (induction xs) (auto split: option.splits)

lemma filter_map_Some [simp]: "filter_map (\<lambda>x. Some (f x)) xs = map f xs"
  by (induction xs) auto

lemma set_dedup [simp]: "set (dedup xs) = set xs"
  by (induction xs rule: dedup.induct) auto

lemma sorted_dedup: "sorted xs \<Longrightarrow> sorted (dedup xs)"
  by (induction xs rule: dedup.induct) auto

lemma distinct_dedup: "sorted xs \<Longrightarrow> distinct (dedup xs)"
  by (induction xs rule: dedup.induct) (auto dest: antisym)

lemma option_or_eq_Some:
  "option_or a b = Some x \<longleftrightarrow> a = Some x \<or> (a = None \<and> b = Some x)"
  by (cases a) auto

lemma length_4_conv: "length xs = 4 \<longleftrightarrow> (\<exists>a b c d. xs = [a, b, c, d])"
  by (auto simp: numeral_eq_Suc length_Suc_conv)

section \<open>Saturating arithmetic\<close>

definition saturating_sub :: "'a::len word \<Rightarrow> 'a word \<Rightarrow> 'a word" where
  "saturating_sub a b = (if b \<le> a then a - b else 0)"

definition saturating_mul :: "'a::len word \<Rightarrow> 'a word \<Rightarrow> 'a word" where
  "saturating_mul a b = (if unat a * unat b < 2 ^ LENGTH('a) then a * b else -1)"

lemma unat_saturating_sub: "unat (saturating_sub a b) = unat a - unat b"
  by (auto simp: saturating_sub_def unat_sub word_le_nat_alt)

lemma unat_saturating_mul:
  "unat (saturating_mul a b) = min (unat a * unat b) (2 ^ LENGTH('a) - 1)"
  for a b :: "'a::len word"
proof (cases "unat a * unat b < 2 ^ LENGTH('a)")
  case True
  then have "unat (a * b) = unat a * unat b"
    by (simp add: unat_word_ariths)
  moreover from True have "unat a * unat b \<le> 2 ^ LENGTH('a) - 1"
    by linarith
  ultimately show ?thesis
    using True by (simp add: saturating_mul_def min_absorb1)
next
  case False
  then have "2 ^ LENGTH('a) - 1 \<le> unat a * unat b"
    by linarith
  with False show ?thesis
    by (simp add: saturating_mul_def unsigned_minus_1_eq_mask mask_eq_exp_minus_1 min_absorb2)
qed

lemma unat_and_mask: "unat (a AND mask k) = unat a mod 2 ^ k" for a :: u32
proof -
  have "unat (take_bit k a) = take_bit k (unat a)"
    by (rule unsigned_take_bit_eq)
  then show ?thesis
    by (simp only: take_bit_eq_mask [of k a] take_bit_eq_mod [of k "unat a"])
qed

section \<open>Four-byte alignment\<close>

text \<open>\<open>align_to_4\<close> rounds a length up to the next multiple of four. The source masks the
  two low bits; on the lengths of buffers that is rounding, as \<open>align_to_4_word\<close> shows.\<close>

definition align_to_4 :: "nat \<Rightarrow> nat" where
  "align_to_4 n = (n + 3) div 4 * 4"

lemma align_to_4_ge: "n \<le> align_to_4 n"
  unfolding align_to_4_def by presburger

lemma align_to_4_less: "align_to_4 n < n + 4"
  unfolding align_to_4_def by presburger

lemma align_to_4_dvd: "4 dvd align_to_4 n"
  by (simp add: align_to_4_def)

lemma align_to_4_id: "4 dvd n \<Longrightarrow> align_to_4 n = n"
  by (auto simp: align_to_4_def dvd_def)

lemma align_to_4_add: "4 dvd m \<Longrightarrow> align_to_4 (m + n) = m + align_to_4 n"
  unfolding align_to_4_def by (auto simp: dvd_def) presburger

lemma align_to_4_pos: "0 < n \<Longrightarrow> 0 < align_to_4 n"
  using align_to_4_ge [of n] by linarith

lemma align_to_4_word:
  fixes n :: u64
  assumes "unat n + 3 < 2 ^ 64"
  shows "unat ((n + 3) AND NOT 3) = align_to_4 (unat n)"
proof -
  have "unat (n + 3) = unat n + 3"
    using assms by (simp add: unat_word_ariths)
  moreover have "(n + 3) AND NOT 3 = push_bit 2 (drop_bit 2 (n + 3))"
    by (rule bit_word_eqI)
      (auto simp: bit_simps bit_not_iff numeral_3_eq_3 less_Suc_eq bit_numeral_rec(2)
        split: nat.splits)
  moreover have "unat (push_bit 2 (drop_bit 2 w)) = unat w div 4 * 4" for w :: u64
  proof -
    have "unat w < 2 ^ 64"
      using unsigned_less [of w] by simp
    then have "unat w div 4 * 4 < 2 ^ 64"
      by linarith
    then show ?thesis
      by (simp add: push_bit_eq_mult drop_bit_eq_div unat_word_ariths unat_div_distrib)
  qed
  ultimately show ?thesis
    by (simp add: align_to_4_def)
qed

end
