(* ===== verification/Bytes.thy ===== *)
theory Bytes
  imports Prelude
begin

text \<open>
  Fixed-width integers in byte buffers: \<open>to_ne_bytes\<close>/\<open>from_ne_bytes\<close> (little-endian
  host), \<open>to_be_bytes\<close>/\<open>from_be_bytes\<close>, \<open>read_unaligned\<close> and the
  \<open>native_u16\<close>/\<open>native_u32\<close>/\<open>native_u64\<close> readers of \<open>netlink.rs\<close>,
  \<open>generic_netlink.rs\<close> and \<open>sock_diag.rs\<close>, with both round trips.
\<close>

section \<open>Integers as bytes\<close>

primrec of_le_bytes :: "bytes \<Rightarrow> 'a::len word" where
  "of_le_bytes [] = 0"
| "of_le_bytes (b # bs) = ucast b OR push_bit 8 (of_le_bytes bs)"

primrec to_le_bytes :: "nat \<Rightarrow> 'a::len word \<Rightarrow> bytes" where
  "to_le_bytes 0 w = []"
| "to_le_bytes (Suc n) w = ucast w # to_le_bytes n (drop_bit 8 w)"

definition of_be_bytes :: "bytes \<Rightarrow> 'a::len word" where
  "of_be_bytes bs = of_le_bytes (rev bs)"

definition to_be_bytes :: "nat \<Rightarrow> 'a::len word \<Rightarrow> bytes" where
  "to_be_bytes n w = rev (to_le_bytes n w)"

lemma length_to_le_bytes [simp]: "length (to_le_bytes n w) = n"
  by (induction n arbitrary: w) simp_all

lemma length_to_be_bytes [simp]: "length (to_be_bytes n w) = n"
  by (simp add: to_be_bytes_def)

lemma to_le_bytes_numeral:
  "to_le_bytes (numeral k) w = ucast w # to_le_bytes (pred_numeral k) (drop_bit 8 w)"
  by (simp add: numeral_eq_Suc)

lemma of_to_le_bytes: "of_le_bytes (to_le_bytes n w) = take_bit (8 * n) w"
proof (induction n arbitrary: w)
  case 0
  then show ?case by simp
next
  case (Suc n)
  show ?case
    by (rule bit_word_eqI) (auto simp: Suc bit_simps)
qed

lemma of_to_le_bytes_full [simp, wire_simps]:
  fixes w :: "'a::len word"
  assumes "LENGTH('a) \<le> 8 * n"
  shows "of_le_bytes (to_le_bytes n w) = w"
  using assms by (simp add: of_to_le_bytes take_bit_word_eq_self)

lemma bit_of_le_bytes: "bit (of_le_bytes bs :: 'a::len word) n \<Longrightarrow> n < 8 * length bs"
proof (induction bs arbitrary: n)
  case (Cons b bs)
  show ?case
  proof (cases "n < 8")
    case False
    with Cons.prems have "bit (of_le_bytes bs :: 'a word) (n - 8)"
      by (auto simp: bit_simps dest: bit_imp_le_length)
    then have "n - 8 < 8 * length bs"
      by (rule Cons.IH)
    then show ?thesis by simp
  qed simp
qed simp

lemma to_of_le_bytes [wire_simps]:
  assumes "8 * length bs \<le> LENGTH('a::len)"
  shows "to_le_bytes (length bs) (of_le_bytes bs :: 'a word) = bs"
  using assms
proof (induction bs)
  case Nil
  then show ?case by simp
next
  case (Cons b bs)
  let ?w = "of_le_bytes bs :: 'a word"
  have "ucast (ucast b OR push_bit 8 ?w) = b"
    using Cons.prems by (intro bit_word_eqI) (auto simp: bit_simps)
  moreover have "to_le_bytes (length bs) (drop_bit 8 (ucast b OR push_bit 8 ?w)) =
      to_le_bytes (length bs) ?w"
  proof -
    have "drop_bit 8 (ucast b OR push_bit 8 ?w) = ?w"
      using Cons.prems
      by (intro bit_word_eqI)
        (auto simp: bit_simps dest: bit_of_le_bytes bit_imp_le_length)
    then show ?thesis by simp
  qed
  ultimately show ?case
    using Cons by simp
qed

lemma of_to_be_bytes [simp, wire_simps]:
  fixes w :: "'a::len word"
  assumes "LENGTH('a) \<le> 8 * n"
  shows "of_be_bytes (to_be_bytes n w) = w"
  using assms by (simp add: of_be_bytes_def to_be_bytes_def)

lemma to_of_be_bytes [wire_simps]:
  assumes "8 * length bs \<le> LENGTH('a::len)"
  shows "to_be_bytes (length bs) (of_be_bytes bs :: 'a word) = bs"
  using to_of_le_bytes [of "rev bs", where 'a = 'a] assms
  by (simp add: of_be_bytes_def to_be_bytes_def)

section \<open>Reading fields\<close>

text \<open>\<open>field width offset bytes\<close> is the field of a C-layout structure at a byte offset;
  \<open>read_unaligned size decode bytes\<close> checks that the whole structure is there and decodes
  its fields.\<close>

definition field :: "nat \<Rightarrow> nat \<Rightarrow> bytes \<Rightarrow> 'a::len word" where
  "field width offset bs = of_le_bytes (take width (drop offset bs))"

definition read_unaligned :: "nat \<Rightarrow> (bytes \<Rightarrow> 't) \<Rightarrow> bytes \<Rightarrow> 't option" where
  "read_unaligned size_of decode bs = (if length bs < size_of then None else Some (decode bs))"

definition native_u16 :: "bytes \<Rightarrow> u16 option" where
  "native_u16 value = map_option of_le_bytes (get_to 2 value)"

definition native_u32 :: "bytes \<Rightarrow> u32 option" where
  "native_u32 value = map_option of_le_bytes (get_to 4 value)"

definition native_u64 :: "bytes \<Rightarrow> u64 option" where
  "native_u64 value = map_option of_le_bytes (get_to 8 value)"

lemma field_0_append [wire_simps]:
  "length xs = width \<Longrightarrow> field width 0 (xs @ ys) = of_le_bytes xs"
  by (simp add: field_def)

lemma field_skip [wire_simps]:
  "length xs \<le> offset \<Longrightarrow> field width offset (xs @ ys) = field width (offset - length xs) ys"
  by (simp add: field_def)

lemma read_unaligned_Some:
  "read_unaligned n d bs = Some x \<longleftrightarrow> n \<le> length bs \<and> x = d bs"
  by (auto simp: read_unaligned_def)

lemma native_exact [simp, wire_simps]:
  "native_u16 (to_le_bytes 2 a) = Some a" "native_u32 (to_le_bytes 4 b) = Some b"
  "native_u64 (to_le_bytes 8 c) = Some c"
  by (simp_all add: native_u16_def native_u32_def native_u64_def get_to_def)

lemma native_u16_le [simp, wire_simps]: "native_u16 (to_le_bytes 2 w @ rest) = Some w"
  by (simp add: native_u16_def get_to_def)

lemma native_u32_le [simp, wire_simps]: "native_u32 (to_le_bytes 4 w @ rest) = Some w"
  by (simp add: native_u32_def get_to_def)

lemma native_u64_le [simp, wire_simps]: "native_u64 (to_le_bytes 8 w @ rest) = Some w"
  by (simp add: native_u64_def get_to_def)

lemma native_u32_short: "length v < 4 \<Longrightarrow> native_u32 v = None"
  by (simp add: native_u32_def get_to_def)

end
