(* ===== verification/Text.thy ===== *)
theory Text
  imports Bytes "HOL-Library.Sublist"
begin

text \<open>
  The text operations of the Rust standard library that the sources use. A Rust
  \<open>String\<close> is modelled as the list of its UTF-8 bytes, written as characters
  (\<open>string\<close>): comparison, \<open>len\<close> and slicing are then those of Rust. Operations on
  Unicode scalar values (\<open>trim\<close>, \<open>split_whitespace\<close>) first cut the bytes into the
  chunks of the individual scalars. Patterns and digits are ASCII, whose bytes never
  occur inside a multi-byte scalar.
\<close>

section \<open>Bytes and UTF-8\<close>

definition byte_of_char :: "char \<Rightarrow> byte" where
  "byte_of_char c = of_nat (of_char c)"

definition char_of_byte :: "byte \<Rightarrow> char" where
  "char_of_byte b = char_of (unat b)"

definition as_bytes :: "string \<Rightarrow> bytes" where
  "as_bytes = map byte_of_char"

definition continuation :: "byte \<Rightarrow> bool" where
  "continuation b \<longleftrightarrow> 0x80 \<le> b \<and> b \<le> 0xBF"

text \<open>\<open>std::str::from_utf8\<close> accepts exactly the well-formed sequences of the Unicode
  standard: no overlong forms, no surrogates, nothing above U+10FFFF.\<close>

fun utf8_valid :: "bytes \<Rightarrow> bool" where
  "utf8_valid [] = True"
| "utf8_valid (b # bs) =
    (if b < 0x80 then utf8_valid bs
     else if 0xC2 \<le> b \<and> b \<le> 0xDF then
       (case bs of c # rest \<Rightarrow> continuation c \<and> utf8_valid rest | _ \<Rightarrow> False)
     else if 0xE0 \<le> b \<and> b \<le> 0xEF then
       (case bs of c # d # rest \<Rightarrow>
          continuation c \<and> continuation d \<and> (b = 0xE0 \<longrightarrow> 0xA0 \<le> c) \<and> (b = 0xED \<longrightarrow> c \<le> 0x9F)
          \<and> utf8_valid rest
        | _ \<Rightarrow> False)
     else if 0xF0 \<le> b \<and> b \<le> 0xF4 then
       (case bs of c # d # e # rest \<Rightarrow>
          continuation c \<and> continuation d \<and> continuation e
          \<and> (b = 0xF0 \<longrightarrow> 0x90 \<le> c) \<and> (b = 0xF4 \<longrightarrow> c \<le> 0x8F) \<and> utf8_valid rest
        | _ \<Rightarrow> False)
     else False)"

definition from_utf8 :: "bytes \<Rightarrow> string option" where
  "from_utf8 bs = (if utf8_valid bs then Some (map char_of_byte bs) else None)"

lemma unat_byte_less: "unat (b :: byte) < 256"
  by (rule unat_bounds)

lemma unat_byte_mod [simp]: "unat (b :: byte) mod 256 = unat b"
  by (simp add: unat_byte_less)

lemma byte_of_char_of_byte [simp]: "byte_of_char (char_of_byte b) = b"
  by (simp add: byte_of_char_def char_of_byte_def)

lemma char_of_byte_of_char [simp]: "char_of_byte (byte_of_char c) = c"
  by (simp add: byte_of_char_def char_of_byte_def unat_of_nat)

lemma as_bytes_char_of_byte [simp]: "as_bytes (map char_of_byte bs) = bs"
  by (simp add: as_bytes_def comp_def)

lemma from_utf8_as_bytes: "from_utf8 bs = Some s \<Longrightarrow> as_bytes s = bs"
  by (auto simp: from_utf8_def split: if_splits)

lemma utf8_valid_ascii: "\<forall>b \<in> set bs. b < 0x80 \<Longrightarrow> utf8_valid bs"
  by (induction bs) auto

lemma from_utf8_ascii: "\<forall>c \<in> set s. byte_of_char c < 0x80 \<Longrightarrow> from_utf8 (as_bytes s) = Some s"
  by (simp add: from_utf8_def utf8_valid_ascii as_bytes_def comp_def)

text \<open>The text up to the first NUL byte, as in \<open>nul_terminated_string\<close> of \<open>netlink.rs\<close> and
  \<open>sock_diag.rs\<close> and \<open>string\<close> of \<open>generic_netlink.rs\<close>.\<close>

definition nul_terminated_string :: "bytes \<Rightarrow> string option" where
  "nul_terminated_string value = from_utf8 (takeWhile (\<lambda>b. b \<noteq> 0) value)"

lemma nul_terminated_string_ascii:
  assumes "\<forall>c \<in> set s. byte_of_char c < 0x80 \<and> byte_of_char c \<noteq> 0"
  shows "nul_terminated_string (as_bytes s @ 0 # rest) = Some s"
proof -
  have "takeWhile (\<lambda>b. b \<noteq> 0) (as_bytes s @ 0 # rest) = as_bytes s"
    using assms by (auto simp: as_bytes_def takeWhile_append)
  with assms show ?thesis
    by (simp add: nul_terminated_string_def from_utf8_ascii)
qed

section \<open>Numbers in text\<close>

fun hex_digit :: "nat \<Rightarrow> char" where
  "hex_digit n = (if n < 10 then char_of (48 + n) else char_of (87 + n))"

text \<open>\<open>{}\<close> and \<open>{:x}\<close> of an unsigned integer.\<close>

fun to_radix :: "nat \<Rightarrow> nat \<Rightarrow> string" where
  "to_radix radix n =
    (if radix < 2 \<or> n < radix then [hex_digit n]
     else to_radix radix (n div radix) @ [hex_digit (n mod radix)])"

declare to_radix.simps [simp del]

definition decimal :: "nat \<Rightarrow> string" where
  "decimal n = to_radix 10 n"

definition hexadecimal :: "nat \<Rightarrow> string" where
  "hexadecimal n = to_radix 16 n"

text \<open>\<open>{}\<close> of a signed integer.\<close>

definition signed_decimal :: "int \<Rightarrow> string" where
  "signed_decimal i = (if i < 0 then CHR ''-'' # decimal (nat (- i)) else decimal (nat i))"

text \<open>\<open>{byte:02x}\<close>.\<close>

definition hex_byte :: "byte \<Rightarrow> string" where
  "hex_byte b = [hex_digit (unat b div 16), hex_digit (unat b mod 16)]"

text \<open>\<open>char::to_digit\<close>.\<close>

definition to_digit :: "nat \<Rightarrow> char \<Rightarrow> nat option" where
  "to_digit radix c =
    (let n = of_char c :: nat;
         d = (if 48 \<le> n \<and> n \<le> 57 then n - 48
              else if 97 \<le> n \<and> n \<le> 122 then n - 87
              else if 65 \<le> n \<and> n \<le> 90 then n - 55
              else 36)
     in if d < radix then Some d else None)"

fun digits_value :: "nat \<Rightarrow> nat \<Rightarrow> string \<Rightarrow> nat option" where
  "digits_value radix acc [] = Some acc"
| "digits_value radix acc (c # cs) =
    (case to_digit radix c of
       None \<Rightarrow> None
     | Some d \<Rightarrow> digits_value radix (radix * acc + d) cs)"

text \<open>\<open>from_str_radix\<close> of an unsigned type with values below \<open>bound\<close>: a leading \<open>+\<close> is
  accepted, a lone sign and the empty string are not, and a value that does not fit is an
  error.\<close>

definition from_str_radix :: "nat \<Rightarrow> nat \<Rightarrow> string \<Rightarrow> nat option" where
  "from_str_radix radix bound s =
    (case s of
       [] \<Rightarrow> None
     | c # cs \<Rightarrow>
         if (c = CHR ''+'' \<or> c = CHR ''-'') \<and> cs = [] then None
         else
           (case digits_value radix 0 (if c = CHR ''+'' then cs else s) of
              None \<Rightarrow> None
            | Some n \<Rightarrow> if n < bound then Some n else None))"

definition parse_u8_hex :: "string \<Rightarrow> u8 option" where
  "parse_u8_hex s = map_option of_nat (from_str_radix 16 (2 ^ 8) s)"

definition parse_u16_hex :: "string \<Rightarrow> u16 option" where
  "parse_u16_hex s = map_option of_nat (from_str_radix 16 (2 ^ 16) s)"

definition parse_u32_hex :: "string \<Rightarrow> u32 option" where
  "parse_u32_hex s = map_option of_nat (from_str_radix 16 (2 ^ 32) s)"

definition parse_u16 :: "string \<Rightarrow> u16 option" where
  "parse_u16 s = map_option of_nat (from_str_radix 10 (2 ^ 16) s)"

definition parse_u32 :: "string \<Rightarrow> u32 option" where
  "parse_u32 s = map_option of_nat (from_str_radix 10 (2 ^ 32) s)"

definition parse_u64 :: "string \<Rightarrow> u64 option" where
  "parse_u64 s = map_option of_nat (from_str_radix 10 (2 ^ 64) s)"

end
