(* ===== verification/Text_Ops.thy ===== *)
theory Text_Ops
  imports Text
begin

text \<open>
  Cutting text into pieces, as \<open>str::split\<close>, \<open>split_once\<close>, \<open>lines\<close>,
  \<open>trim\<close> and \<open>split_whitespace\<close> do, and the two round trips the parsers rest on:
  printing and reading a number, joining and splitting a list of pieces.
\<close>

section \<open>Splitting and joining\<close>

fun split_on :: "('a \<Rightarrow> bool) \<Rightarrow> 'a list \<Rightarrow> 'a list list" where
  "split_on p [] = [[]]"
| "split_on p (x # xs) =
    (if p x then [] # split_on p xs
     else case split_on p xs of [] \<Rightarrow> [[x]] | y # ys \<Rightarrow> (x # y) # ys)"

definition split_char :: "char \<Rightarrow> string \<Rightarrow> string list" where
  "split_char c s = split_on (\<lambda>x. x = c) s"

fun split_once_char :: "char \<Rightarrow> string \<Rightarrow> (string \<times> string) option" where
  "split_once_char c [] = None"
| "split_once_char c (x # xs) =
    (if x = c then Some ([], xs)
     else map_option (\<lambda>(a, b). (x # a, b)) (split_once_char c xs))"

definition strip_prefix :: "string \<Rightarrow> string \<Rightarrow> string option" where
  "strip_prefix pre s = (if prefix pre s then Some (drop (length pre) s) else None)"

definition strip_suffix :: "string \<Rightarrow> string \<Rightarrow> string option" where
  "strip_suffix suf s = (if suffix suf s then Some (take (length s - length suf) s) else None)"

fun split_once_str :: "string \<Rightarrow> string \<Rightarrow> (string \<times> string) option" where
  "split_once_str pat [] = (if pat = [] then Some ([], []) else None)"
| "split_once_str pat (x # xs) =
    (if prefix pat (x # xs) then Some ([], drop (length pat) (x # xs))
     else map_option (\<lambda>(a, b). (x # a, b)) (split_once_str pat xs))"

lemma split_on_not_Nil [simp]: "split_on p xs \<noteq> []"
  by (cases xs) (auto split: list.splits)

lemma split_on_none: "\<forall>x \<in> set xs. \<not> p x \<Longrightarrow> split_on p xs = [xs]"
  by (induction xs) auto

lemma split_on_piece:
  "\<forall>x \<in> set xs. \<not> p x \<Longrightarrow> p c \<Longrightarrow> split_on p (xs @ c # ys) = xs # split_on p ys"
  by (induction xs) auto

lemma split_on_pieces:
  "piece \<in> set (split_on p xs) \<Longrightarrow> x \<in> set piece \<Longrightarrow> \<not> p x \<and> x \<in> set xs"
proof (induction xs arbitrary: piece)
  case (Cons y ys)
  obtain q qs where split: "split_on p ys = q # qs"
    by (cases "split_on p ys") auto
  show ?case
    using Cons.prems Cons.IH [of piece] Cons.IH [of q]
    by (auto simp: split split: if_splits)
qed simp

lemma split_char_join:
  assumes "pieces \<noteq> []" and "\<forall>piece \<in> set pieces. c \<notin> set piece"
  shows "split_char c (join [c] pieces) = pieces"
  using assms
proof (induction pieces)
  case (Cons x zs)
  have x: "\<forall>y \<in> set x. \<not> y = c"
    using Cons.prems by auto
  show ?case
  proof (cases zs)
    case Nil
    with x show ?thesis
      by (simp add: split_char_def split_on_none)
  next
    case (Cons y ys)
    then have "split_char c (join [c] zs) = zs"
      using Cons.IH Cons.prems by simp
    with Cons split_on_piece [OF x, of c "join [c] zs"] show ?thesis
      by (simp add: split_char_def)
  qed
qed simp

lemma split_once_char_append:
  "c \<notin> set a \<Longrightarrow> split_once_char c (a @ c # b) = Some (a, b)"
  by (induction a) auto

lemma split_once_char_None: "split_once_char c s = None \<longleftrightarrow> c \<notin> set s"
  by (induction s) auto

lemma split_once_char_Some:
  "split_once_char c s = Some (a, b) \<Longrightarrow> s = a @ c # b \<and> c \<notin> set a"
  by (induction s arbitrary: a) (auto split: if_splits)

section \<open>Lines\<close>

text \<open>\<open>str::lines\<close>: a line ends with \<open>\n\<close> or \<open>\r\n\<close>; the end of the last line is
  optional, and only a line that ends with \<open>\n\<close> loses a carriage return.\<close>

definition newline :: char where
  "newline = char_of (10 :: nat)"

definition carriage_return :: char where
  "carriage_return = char_of (13 :: nat)"

fun strip_cr :: "string \<Rightarrow> string" where
  "strip_cr s = (if s \<noteq> [] \<and> last s = carriage_return then butlast s else s)"

fun lines :: "string \<Rightarrow> string list" where
  "lines s =
    (let pieces = split_char newline s
     in map strip_cr (butlast pieces) @ (if last pieces = [] then [] else [last pieces]))"

section \<open>Scalars and white space\<close>

definition utf8_width :: "char \<Rightarrow> nat" where
  "utf8_width c =
    (let b = byte_of_char c
     in if b < 0x80 then 1 else if b < 0xE0 then 2 else if b < 0xF0 then 3 else 4)"

function utf8_chars :: "string \<Rightarrow> string list" where
  "utf8_chars s =
    (case s of
       [] \<Rightarrow> []
     | c # cs \<Rightarrow> (c # take (utf8_width c - 1) cs) # utf8_chars (drop (utf8_width c - 1) cs))"
  by pat_completeness auto
termination
  by (relation "measure length") auto

declare utf8_chars.simps [simp del]

text \<open>\<open>char::is_whitespace\<close>: the Unicode property White_Space.\<close>

definition whitespace :: "string \<Rightarrow> bool" where
  "whitespace scalar \<longleftrightarrow>
    as_bytes scalar \<in>
      set ([[9], [10], [11], [12], [13], [32], [0xC2, 0x85], [0xC2, 0xA0], [0xE1, 0x9A, 0x80],
        [0xE2, 0x80, 0xA8], [0xE2, 0x80, 0xA9], [0xE2, 0x80, 0xAF], [0xE2, 0x81, 0x9F],
        [0xE3, 0x80, 0x80]]
        @ map (\<lambda>i. [0xE2, 0x80, 0x80 + of_nat i]) [0..<11])"

definition trim :: "string \<Rightarrow> string" where
  "trim s =
    concat (rev (dropWhile whitespace (rev (dropWhile whitespace (utf8_chars s)))))"

definition split_whitespace :: "string \<Rightarrow> string list" where
  "split_whitespace s =
    map concat (filter (\<lambda>piece. piece \<noteq> []) (split_on whitespace (utf8_chars s)))"

lemma utf8_chars_ascii: "\<forall>c \<in> set s. byte_of_char c < 0x80 \<Longrightarrow> utf8_chars s = map (\<lambda>c. [c]) s"
  by (induction s) (auto simp: utf8_chars.simps utf8_width_def)

lemma concat_utf8_chars [simp]: "concat (utf8_chars s) = s"
  by (induction s rule: utf8_chars.induct)
    (subst utf8_chars.simps, simp split: list.splits)

lemma utf8_chars_Nil [simp]: "utf8_chars [] = []"
  by (simp add: utf8_chars.simps)

section \<open>Numbers\<close>

lemma to_digit_hex_digit: "d < radix \<Longrightarrow> radix \<le> 16 \<Longrightarrow> to_digit radix (hex_digit d) = Some d"
  by (auto simp: to_digit_def Let_def)

lemma digits_value_append:
  "digits_value radix acc (xs @ ys) =
    Option.bind (digits_value radix acc xs) (\<lambda>v. digits_value radix v ys)"
  by (induction xs arbitrary: acc) (auto split: option.splits)

lemma to_radix_not_Nil [simp]: "to_radix radix n \<noteq> []"
  by (subst to_radix.simps) simp

lemma digits_value_to_radix:
  assumes "2 \<le> radix" and "radix \<le> 16"
  shows "digits_value radix 0 (to_radix radix n) = Some n"
  using assms
proof (induction radix n rule: to_radix.induct)
  case (1 radix n)
  show ?case
  proof (cases "n < radix")
    case True
    with "1.prems" show ?thesis
      by (subst to_radix.simps) (simp add: to_digit_hex_digit del: hex_digit.simps)
  next
    case False
    with 1 have "digits_value radix 0 (to_radix radix (n div radix)) = Some (n div radix)"
      by simp
    with False "1.prems" show ?thesis
      by (subst to_radix.simps)
        (simp add: digits_value_append to_digit_hex_digit del: hex_digit.simps)
  qed
qed

lemma set_to_radix: "2 \<le> radix \<Longrightarrow> radix \<le> 16 \<Longrightarrow> c \<in> set (to_radix radix n) \<Longrightarrow> \<exists>d<radix. c = hex_digit d"
proof (induction radix n rule: to_radix.induct)
  case (1 radix n)
  show ?case
  proof (cases "n < radix")
    case True
    with "1.prems" show ?thesis
      by (subst (asm) to_radix.simps) (auto simp del: hex_digit.simps)
  next
    case False
    with "1.prems" have "c \<in> set (to_radix radix (n div radix)) \<or> c = hex_digit (n mod radix)"
      by (subst (asm) to_radix.simps) (auto simp del: hex_digit.simps)
    moreover have "n mod radix < radix"
      using "1.prems"(1) by simp
    ultimately show ?thesis
      using False 1 by fastforce
  qed
qed

lemma hex_digit_code: "d < 16 \<Longrightarrow> of_char (hex_digit d) = (if d < 10 then 48 + d else 87 + d)"
  by auto

lemma from_str_radix_to_radix:
  assumes "2 \<le> radix" and "radix \<le> 16" and "n < bound"
  shows "from_str_radix radix bound (to_radix radix n) = Some n"
proof -
  obtain c cs where s: "to_radix radix n = c # cs"
    by (cases "to_radix radix n") auto
  then obtain d where "d < 16" and c: "c = hex_digit d"
    using set_to_radix [of radix c n] assms by (auto dest: less_le_trans)
  then have "of_char c \<noteq> (43 :: nat)" and "of_char c \<noteq> (45 :: nat)"
    using hex_digit_code [of d] by (auto simp del: hex_digit.simps)
  then have "c \<noteq> CHR ''+''" and "c \<noteq> CHR ''-''"
    by (auto simp del: hex_digit.simps)
  with digits_value_to_radix [OF assms(1,2), of n] assms(3) s show ?thesis
    by (simp add: from_str_radix_def)
qed

lemma from_str_radix_bound: "from_str_radix radix bound s = Some n \<Longrightarrow> n < bound"
  by (auto simp: from_str_radix_def split: list.splits if_splits option.splits)

lemma parse_u32_decimal [simp]: "parse_u32 (decimal (unat w)) = Some w"
  using unat_bounds(3) [of w]
  by (simp add: parse_u32_def decimal_def from_str_radix_to_radix)

lemma parse_u64_decimal [simp]: "parse_u64 (decimal (unat w)) = Some w"
  using unat_bounds(4) [of w]
  by (simp add: parse_u64_def decimal_def from_str_radix_to_radix)

lemma parse_u16_decimal [simp]: "parse_u16 (decimal (unat w)) = Some w"
  using unat_bounds(2) [of w]
  by (simp add: parse_u16_def decimal_def from_str_radix_to_radix)

lemma hex_byte_roundtrip: "parse_u8_hex (hex_byte b) = Some b"
proof -
  let ?h = "hex_digit (unat b div 16)" and ?l = "hex_digit (unat b mod 16)"
  have small: "unat b div 16 < 16"
    using unat_byte_less [of b] by linarith
  then have "of_char ?h \<noteq> (43 :: nat)" and "of_char ?h \<noteq> (45 :: nat)"
    using hex_digit_code [of "unat b div 16"] by (auto simp del: hex_digit.simps)
  then have sign: "?h \<noteq> CHR ''+''" "?h \<noteq> CHR ''-''"
    by (auto simp del: hex_digit.simps)
  have "digits_value 16 0 [?h, ?l] = Some (unat b)"
    using small by (simp add: to_digit_hex_digit del: hex_digit.simps)
  with sign unat_byte_less [of b] show ?thesis
    by (simp add: parse_u8_hex_def hex_byte_def from_str_radix_def del: hex_digit.simps)
qed

end
