(* ===== verification/Net_Types.thy ===== *)
theory Net_Types
  imports Text_Ops
begin

text \<open>
  The address types of \<open>std::net\<close>. An \<open>Ipv4Addr\<close> is the 32-bit integer
  \<open>u32::from(address)\<close>, an \<open>Ipv6Addr\<close> the 128-bit one: the comparison of octets from
  the most significant one on is the comparison of these integers. \<open>IpAddr\<close> and
  \<open>SocketAddr\<close> are ordered as Rust derives it, IPv4 before IPv6, which gives the sort
  keys of every dump.
\<close>

type_synonym ipv4_addr = "32 word"
type_synonym ipv6_addr = "128 word"

datatype ip_addr = V4 ipv4_addr | V6 ipv6_addr

record socket_addr =
  sa_ip :: ip_addr
  sa_port :: u16

text \<open>\<open>Ipv4Addr::new\<close>, \<open>Ipv4Addr::from([u8; 4])\<close>, \<open>Ipv6Addr::from([u8; 16])\<close> and
  \<open>octets\<close>.\<close>

definition ipv4_new :: "u8 \<Rightarrow> u8 \<Rightarrow> u8 \<Rightarrow> u8 \<Rightarrow> ipv4_addr" where
  "ipv4_new a b c d = of_be_bytes [a, b, c, d]"

definition ipv4_from_octets :: "bytes \<Rightarrow> ipv4_addr" where
  "ipv4_from_octets octets = of_be_bytes octets"

definition ipv6_from_octets :: "bytes \<Rightarrow> ipv6_addr" where
  "ipv6_from_octets octets = of_be_bytes octets"

definition ipv4_octets :: "ipv4_addr \<Rightarrow> bytes" where
  "ipv4_octets address = to_be_bytes 4 address"

definition ipv6_octets :: "ipv6_addr \<Rightarrow> bytes" where
  "ipv6_octets address = to_be_bytes 16 address"

lemma length_octets [simp]:
  "length (ipv4_octets a) = 4" "length (ipv6_octets b) = 16"
  by (simp_all add: ipv4_octets_def ipv6_octets_def)

lemma octets_roundtrip [simp]:
  "ipv4_from_octets (ipv4_octets a) = a" "ipv6_from_octets (ipv6_octets b) = b"
  by (simp_all add: ipv4_octets_def ipv6_octets_def ipv4_from_octets_def ipv6_from_octets_def)

text \<open>\<open>is_unspecified\<close>.\<close>

fun is_unspecified :: "ip_addr \<Rightarrow> bool" where
  "is_unspecified (V4 a) = (a = 0)"
| "is_unspecified (V6 a) = (a = 0)"

section \<open>Orderings\<close>

instantiation ip_addr :: linorder
begin

fun less_eq_ip_addr :: "ip_addr \<Rightarrow> ip_addr \<Rightarrow> bool" where
  "less_eq_ip_addr (V4 a) (V4 b) = (a \<le> b)"
| "less_eq_ip_addr (V4 a) (V6 b) = True"
| "less_eq_ip_addr (V6 a) (V4 b) = False"
| "less_eq_ip_addr (V6 a) (V6 b) = (a \<le> b)"

definition less_ip_addr :: "ip_addr \<Rightarrow> ip_addr \<Rightarrow> bool" where
  "less_ip_addr a b = (a \<le> b \<and> \<not> b \<le> a)"

instance
proof
  fix x y z :: ip_addr
  show "(x < y) = (x \<le> y \<and> \<not> y \<le> x)"
    by (simp add: less_ip_addr_def)
  show "x \<le> x"
    by (cases x) auto
  show "x \<le> z" if "x \<le> y" and "y \<le> z"
    using that by (cases x; cases y; cases z) auto
  show "x = y" if "x \<le> y" and "y \<le> x"
    using that by (cases x; cases y) auto
  show "x \<le> y \<or> y \<le> x"
    by (cases x; cases y) auto
qed

end

section \<open>Textual IPv4 addresses\<close>

text \<open>\<open>Ipv4Addr::from_str\<close>: four decimal octets of at most three digits, without a leading
  zero, separated by dots; and its display form.\<close>

definition parse_octet :: "string \<Rightarrow> u8 option" where
  "parse_octet s =
    (if s = [] \<or> 3 < length s \<or> (1 < length s \<and> hd s = CHR ''0'') then None
     else case digits_value 10 0 s of
       None \<Rightarrow> None
     | Some n \<Rightarrow> if n < 256 then Some (of_nat n) else None)"

definition parse_ipv4 :: "string \<Rightarrow> ipv4_addr option" where
  "parse_ipv4 s =
    (case map parse_octet (split_char (CHR ''.'') s) of
       [Some a, Some b, Some c, Some d] \<Rightarrow> Some (ipv4_new a b c d)
     | _ \<Rightarrow> None)"

definition show_ipv4 :: "ipv4_addr \<Rightarrow> string" where
  "show_ipv4 a = join ''.'' (map (\<lambda>b. decimal (unat b)) (ipv4_octets a))"

lemma length_to_radix_10: "length (to_radix 10 n) \<le> 3 \<longleftrightarrow> n < 1000"
proof -
  have one: "n < 10 \<Longrightarrow> length (to_radix 10 n) = 1" for n
    by (subst to_radix.simps) simp
  have step: "10 \<le> n \<Longrightarrow> length (to_radix 10 n) = length (to_radix 10 (n div 10)) + 1" for n
    by (subst to_radix.simps) simp
  have pos: "0 < length (to_radix 10 n)" for n
    by simp
  consider "n < 10" | "10 \<le> n" "n < 100" | "100 \<le> n" "n < 1000" | "1000 \<le> n"
    by linarith
  then show ?thesis
  proof cases
    case 4
    then have "length (to_radix 10 n) = length (to_radix 10 (n div 10 div 10 div 10)) + 3"
      using step [of n] step [of "n div 10"] step [of "n div 10 div 10"] by simp
    with 4 pos [of "n div 10 div 10 div 10"] show ?thesis by linarith
  qed (use one step [of n] step [of "n div 10"] one [of "n div 10"] one [of "n div 10 div 10"]
      in auto)
qed

lemma hd_to_radix_10: "10 \<le> n \<Longrightarrow> hd (to_radix 10 n) \<noteq> CHR ''0''"
proof (induction n rule: less_induct)
  case (less n)
  have split: "to_radix 10 n = to_radix 10 (n div 10) @ [hex_digit (n mod 10)]"
    using less.prems by (subst to_radix.simps) simp
  show ?case
  proof (cases "10 \<le> n div 10")
    case True
    with less.IH [of "n div 10"] less.prems split show ?thesis by simp
  next
    case False
    with less.prems have "to_radix 10 (n div 10) = [hex_digit (n div 10)]" and "0 < n div 10"
      by (subst to_radix.simps, simp, linarith)
    moreover from this False have "of_char (hex_digit (n div 10)) \<noteq> (48 :: nat)"
      using hex_digit_code [of "n div 10"] by (auto simp del: hex_digit.simps)
    ultimately show ?thesis
      using split by (auto simp del: hex_digit.simps)
  qed
qed

lemma parse_octet_decimal: "parse_octet (decimal (unat b)) = Some b"
proof -
  have less: "unat b < 256"
    by (rule unat_byte_less)
  then have "length (decimal (unat b)) \<le> 3"
    by (simp add: decimal_def length_to_radix_10)
  moreover have "1 < length (decimal (unat b)) \<Longrightarrow> 10 \<le> unat b"
    by (rule ccontr) (simp add: decimal_def to_radix.simps [of 10 "unat b"])
  ultimately show ?thesis
    using less hd_to_radix_10 [of "unat b"] digits_value_to_radix [of 10 "unat b"]
    by (auto simp: parse_octet_def decimal_def)
qed

lemma dot_not_in_decimal: "CHR ''.'' \<notin> set (decimal n)"
proof
  assume "CHR ''.'' \<in> set (decimal n)"
  then obtain d where "d < 10" and "CHR ''.'' = hex_digit d"
    using set_to_radix [of 10 "CHR ''.''" n] by (auto simp: decimal_def)
  then have "of_char (CHR ''.'') = (if d < 10 then 48 + d else 87 + d)"
    using hex_digit_code [of d] by (simp del: hex_digit.simps)
  with \<open>d < 10\<close> show False by simp
qed

lemma parse_show_ipv4 [simp]: "parse_ipv4 (show_ipv4 a) = Some a"
proof -
  obtain p q r s where o4: "ipv4_octets a = [p, q, r, s]"
    using length_octets(1) [of a] unfolding length_4_conv by blast
  have "split_char (CHR ''.'') (show_ipv4 a) = map (\<lambda>b. decimal (unat b)) (ipv4_octets a)"
    unfolding show_ipv4_def using dot_not_in_decimal
    by (intro split_char_join) (auto simp: o4)
  moreover have "ipv4_new p q r s = a"
    using octets_roundtrip(1) [of a] o4 by (simp add: ipv4_new_def ipv4_from_octets_def)
  ultimately show ?thesis
    by (simp add: parse_ipv4_def o4 parse_octet_decimal)
qed

end
