(* ===== verification/Netlink_Const.thy ===== *)
theory Netlink_Const
  imports Net_Types
begin

text \<open>
  The constants of \<open>netlink.rs\<close>, in its order: socket and framing constants, route-netlink
  message types, multicast groups, attribute identifiers, neighbor states, request sequence
  numbers and address flags. They unfold in the simplifier, so a comparison of a received
  kind with a constant is decided by the numerals.
\<close>

definition AF_INET :: u8 where [simp]: "AF_INET = 2"
definition AF_INET6 :: u8 where [simp]: "AF_INET6 = 10"
definition AF_NETLINK :: i32 where [simp]: "AF_NETLINK = 16"
definition SOCK_RAW :: i32 where [simp]: "SOCK_RAW = 3"
definition NETLINK_ROUTE :: i32 where [simp]: "NETLINK_ROUTE = 0"
definition NLM_F_REQUEST :: u16 where [simp]: "NLM_F_REQUEST = 0x01"
definition NLM_F_DUMP :: u16 where [simp]: "NLM_F_DUMP = 0x100 OR 0x200"
definition NLM_F_DUMP_INTR :: u16 where [simp]: "NLM_F_DUMP_INTR = 0x10"
definition NLMSG_ERROR :: u16 where [simp]: "NLMSG_ERROR = 0x02"
definition NLMSG_DONE :: u16 where [simp]: "NLMSG_DONE = 0x03"
definition NLMSG_OVERRUN :: u16 where [simp]: "NLMSG_OVERRUN = 0x04"
definition RTM_NEWLINK :: u16 where [simp]: "RTM_NEWLINK = 16"
definition RTM_DELLINK :: u16 where [simp]: "RTM_DELLINK = 17"
definition RTM_GETLINK :: u16 where [simp]: "RTM_GETLINK = 18"
definition RTM_NEWADDR :: u16 where [simp]: "RTM_NEWADDR = 20"
definition RTM_DELADDR :: u16 where [simp]: "RTM_DELADDR = 21"
definition RTM_GETADDR :: u16 where [simp]: "RTM_GETADDR = 22"
definition RTM_NEWROUTE :: u16 where [simp]: "RTM_NEWROUTE = 24"
definition RTM_DELROUTE :: u16 where [simp]: "RTM_DELROUTE = 25"
definition RTM_GETROUTE :: u16 where [simp]: "RTM_GETROUTE = 26"
definition RTM_NEWNEIGH :: u16 where [simp]: "RTM_NEWNEIGH = 28"
definition RTM_DELNEIGH :: u16 where [simp]: "RTM_DELNEIGH = 29"
definition RTM_GETNEIGH :: u16 where [simp]: "RTM_GETNEIGH = 30"
definition RTM_NEWRULE :: u16 where [simp]: "RTM_NEWRULE = 32"
definition RTM_GETRULE :: u16 where [simp]: "RTM_GETRULE = 34"
definition RTMGRP_LINK :: u32 where [simp]: "RTMGRP_LINK = 0x01"
definition RTMGRP_NEIGH :: u32 where [simp]: "RTMGRP_NEIGH = 0x04"
definition RTMGRP_IPV4_IFADDR :: u32 where [simp]: "RTMGRP_IPV4_IFADDR = 0x10"
definition RTMGRP_IPV4_ROUTE :: u32 where [simp]: "RTMGRP_IPV4_ROUTE = 0x40"
definition RTMGRP_IPV6_IFADDR :: u32 where [simp]: "RTMGRP_IPV6_IFADDR = 0x100"
definition RTMGRP_IPV6_ROUTE :: u32 where [simp]: "RTMGRP_IPV6_ROUTE = 0x400"
definition NDA_DST :: u16 where [simp]: "NDA_DST = 1"
definition NDA_LLADDR :: u16 where [simp]: "NDA_LLADDR = 2"
definition NDA_CACHEINFO :: u16 where [simp]: "NDA_CACHEINFO = 3"
definition NDA_PROBES :: u16 where [simp]: "NDA_PROBES = 4"
definition NDA_MASTER :: u16 where [simp]: "NDA_MASTER = 9"
definition NDA_PROTOCOL :: u16 where [simp]: "NDA_PROTOCOL = 12"
definition NDA_FLAGS_EXT :: u16 where [simp]: "NDA_FLAGS_EXT = 15"
definition IFA_ADDRESS :: u16 where [simp]: "IFA_ADDRESS = 1"
definition IFA_LOCAL :: u16 where [simp]: "IFA_LOCAL = 2"
definition IFA_LABEL :: u16 where [simp]: "IFA_LABEL = 3"
definition IFA_BROADCAST :: u16 where [simp]: "IFA_BROADCAST = 4"
definition IFA_CACHEINFO :: u16 where [simp]: "IFA_CACHEINFO = 6"
definition IFA_FLAGS :: u16 where [simp]: "IFA_FLAGS = 8"
definition IFLA_IFNAME :: u16 where [simp]: "IFLA_IFNAME = 3"
definition IFLA_MTU :: u16 where [simp]: "IFLA_MTU = 4"
definition IFLA_LINK :: u16 where [simp]: "IFLA_LINK = 5"
definition IFLA_QDISC :: u16 where [simp]: "IFLA_QDISC = 6"
definition IFLA_MASTER :: u16 where [simp]: "IFLA_MASTER = 10"
definition IFLA_TXQLEN :: u16 where [simp]: "IFLA_TXQLEN = 13"
definition IFLA_OPERSTATE :: u16 where [simp]: "IFLA_OPERSTATE = 16"
definition IFLA_LINKINFO :: u16 where [simp]: "IFLA_LINKINFO = 18"
definition IFLA_IFALIAS :: u16 where [simp]: "IFLA_IFALIAS = 20"
definition IFLA_GROUP :: u16 where [simp]: "IFLA_GROUP = 27"
definition IFLA_PROMISCUITY :: u16 where [simp]: "IFLA_PROMISCUITY = 30"
definition IFLA_NUM_TX_QUEUES :: u16 where [simp]: "IFLA_NUM_TX_QUEUES = 31"
definition IFLA_NUM_RX_QUEUES :: u16 where [simp]: "IFLA_NUM_RX_QUEUES = 32"
definition IFLA_CARRIER :: u16 where [simp]: "IFLA_CARRIER = 33"
definition IFLA_CARRIER_CHANGES :: u16 where [simp]: "IFLA_CARRIER_CHANGES = 35"
definition IFLA_PHYS_PORT_NAME :: u16 where [simp]: "IFLA_PHYS_PORT_NAME = 38"
definition IFLA_CARRIER_UP_COUNT :: u16 where [simp]: "IFLA_CARRIER_UP_COUNT = 47"
definition IFLA_CARRIER_DOWN_COUNT :: u16 where [simp]: "IFLA_CARRIER_DOWN_COUNT = 48"
definition IFLA_MIN_MTU :: u16 where [simp]: "IFLA_MIN_MTU = 50"
definition IFLA_MAX_MTU :: u16 where [simp]: "IFLA_MAX_MTU = 51"
definition IFLA_PROP_LIST :: u16 where [simp]: "IFLA_PROP_LIST = 52"
definition IFLA_ALT_IFNAME :: u16 where [simp]: "IFLA_ALT_IFNAME = 53"
definition IFLA_PARENT_DEV_NAME :: u16 where [simp]: "IFLA_PARENT_DEV_NAME = 56"
definition IFLA_PARENT_DEV_BUS_NAME :: u16 where [simp]: "IFLA_PARENT_DEV_BUS_NAME = 57"
definition IFLA_INFO_KIND :: u16 where [simp]: "IFLA_INFO_KIND = 1"
definition IFLA_INFO_DATA :: u16 where [simp]: "IFLA_INFO_DATA = 2"
definition IFLA_VLAN_ID :: u16 where [simp]: "IFLA_VLAN_ID = 1"
definition RTA_DST :: u16 where [simp]: "RTA_DST = 1"
definition RTA_SRC :: u16 where [simp]: "RTA_SRC = 2"
definition RTA_OIF :: u16 where [simp]: "RTA_OIF = 4"
definition RTA_GATEWAY :: u16 where [simp]: "RTA_GATEWAY = 5"
definition RTA_PRIORITY :: u16 where [simp]: "RTA_PRIORITY = 6"
definition RTA_PREFSRC :: u16 where [simp]: "RTA_PREFSRC = 7"
definition RTA_MULTIPATH :: u16 where [simp]: "RTA_MULTIPATH = 9"
definition RTA_TABLE :: u16 where [simp]: "RTA_TABLE = 15"
definition FRA_DST :: u16 where [simp]: "FRA_DST = 1"
definition FRA_SRC :: u16 where [simp]: "FRA_SRC = 2"
definition FRA_IIFNAME :: u16 where [simp]: "FRA_IIFNAME = 3"
definition FRA_GOTO :: u16 where [simp]: "FRA_GOTO = 4"
definition FRA_PRIORITY :: u16 where [simp]: "FRA_PRIORITY = 6"
definition FRA_FWMARK :: u16 where [simp]: "FRA_FWMARK = 10"
definition FRA_TABLE :: u16 where [simp]: "FRA_TABLE = 15"
definition FRA_FWMASK :: u16 where [simp]: "FRA_FWMASK = 16"
definition FRA_OIFNAME :: u16 where [simp]: "FRA_OIFNAME = 17"
definition NLA_TYPE_MASK :: u16 where [simp]: "NLA_TYPE_MASK = 0x3fff"
definition NUD_INCOMPLETE :: u16 where [simp]: "NUD_INCOMPLETE = 0x01"
definition NUD_REACHABLE :: u16 where [simp]: "NUD_REACHABLE = 0x02"
definition NUD_STALE :: u16 where [simp]: "NUD_STALE = 0x04"
definition NUD_DELAY :: u16 where [simp]: "NUD_DELAY = 0x08"
definition NUD_PROBE :: u16 where [simp]: "NUD_PROBE = 0x10"
definition NUD_FAILED :: u16 where [simp]: "NUD_FAILED = 0x20"
definition NUD_NOARP :: u16 where [simp]: "NUD_NOARP = 0x40"
definition NUD_PERMANENT :: u16 where [simp]: "NUD_PERMANENT = 0x80"
definition REQUEST_SEQUENCE :: u32 where [simp]: "REQUEST_SEQUENCE = 1"
definition ADDRESS_SEQUENCE :: u32 where [simp]: "ADDRESS_SEQUENCE = 3"
definition ROUTE_DUMP_SEQUENCE :: u32 where [simp]: "ROUTE_DUMP_SEQUENCE = 4"
definition RULE_DUMP_SEQUENCE :: u32 where [simp]: "RULE_DUMP_SEQUENCE = 5"
definition LINK_DUMP_SEQUENCE :: u32 where [simp]: "LINK_DUMP_SEQUENCE = 6"
definition IFA_F_SECONDARY :: u32 where [simp]: "IFA_F_SECONDARY = 0x01"
definition IFA_F_NODAD :: u32 where [simp]: "IFA_F_NODAD = 0x02"
definition IFA_F_OPTIMISTIC :: u32 where [simp]: "IFA_F_OPTIMISTIC = 0x04"
definition IFA_F_DADFAILED :: u32 where [simp]: "IFA_F_DADFAILED = 0x08"
definition IFA_F_HOMEADDRESS :: u32 where [simp]: "IFA_F_HOMEADDRESS = 0x10"
definition IFA_F_DEPRECATED :: u32 where [simp]: "IFA_F_DEPRECATED = 0x20"
definition IFA_F_TENTATIVE :: u32 where [simp]: "IFA_F_TENTATIVE = 0x40"
definition IFA_F_PERMANENT :: u32 where [simp]: "IFA_F_PERMANENT = 0x80"
definition IFA_F_MANAGETEMPADDR :: u32 where [simp]: "IFA_F_MANAGETEMPADDR = 0x100"
definition IFA_F_NOPREFIXROUTE :: u32 where [simp]: "IFA_F_NOPREFIXROUTE = 0x200"
definition IFA_F_MCAUTOJOIN :: u32 where [simp]: "IFA_F_MCAUTOJOIN = 0x400"
definition IFA_F_STABLE_PRIVACY :: u32 where [simp]: "IFA_F_STABLE_PRIVACY = 0x800"

end
