(* ===== verification/Interfaces.thy ===== *)
theory Interfaces
  imports Net_Types
begin

text \<open>
  The contracts that several components share, as locales. \<open>record_stream\<close> is a buffer of
  length-prefixed records read one after the other: netlink attributes, generic-netlink
  attributes, socket-diagnostic attributes, multipath next hops and Wi-Fi information
  elements are all streams of this kind. \<open>dual_stack\<close> is the public snapshot that joins an
  IPv4 and an IPv6 snapshot and sorts the result.
\<close>

section \<open>Streams of length-prefixed records\<close>

text \<open>\<open>encode\<close> writes one record, padding included, and \<open>view\<close> is what the decoder
  reports of it (the decoders mask the flag bits of a kind, or label a code). A buffer with
  fewer than \<open>header\<close> bytes left ends the stream.\<close>

locale record_stream =
  fixes decode :: "bytes \<Rightarrow> nat \<Rightarrow> 'v list option"
    and encode :: "'r \<Rightarrow> bytes"
    and view :: "'r \<Rightarrow> 'v"
    and encodable :: "'r \<Rightarrow> bool"
    and header :: nat
  assumes decode_end: "length bs < offset + header \<Longrightarrow> decode bs offset = Some []"
    and decode_record: "encodable r \<Longrightarrow>
      decode (pre @ encode r @ rest) (length pre) =
        map_option (Cons (view r)) (decode (pre @ encode r @ rest) (length pre + length (encode r)))"
begin

lemma decode_records:
  assumes "list_all encodable rs"
  shows "decode (pre @ concat (map encode rs) @ rest) (length pre) =
    map_option ((@) (map view rs)) (decode (pre @ concat (map encode rs) @ rest)
      (length pre + length (concat (map encode rs))))"
  using assms
proof (induction rs arbitrary: pre)
  case Nil
  then show ?case by (simp add: option.map_ident)
next
  case (Cons r rs)
  have "decode (pre @ encode r @ concat (map encode rs) @ rest) (length pre) =
      map_option (Cons (view r))
        (decode ((pre @ encode r) @ concat (map encode rs) @ rest) (length (pre @ encode r)))"
    using Cons.prems decode_record [of r pre "concat (map encode rs) @ rest"] by simp
  also have "decode ((pre @ encode r) @ concat (map encode rs) @ rest) (length (pre @ encode r)) =
      map_option ((@) (map view rs)) (decode ((pre @ encode r) @ concat (map encode rs) @ rest)
        (length (pre @ encode r) + length (concat (map encode rs))))"
    using Cons.prems by (intro Cons.IH) simp
  finally show ?case
    by (simp add: option.map_comp comp_def add.assoc)
qed

lemma decode_concat:
  assumes "list_all encodable rs" and "length rest < header"
  shows "decode (pre @ concat (map encode rs) @ rest) (length pre) = Some (map view rs)"
proof -
  have "decode (pre @ concat (map encode rs) @ rest)
      (length pre + length (concat (map encode rs))) = Some []"
    using assms(2) by (intro decode_end) simp
  with decode_records [OF assms(1), of pre rest] show ?thesis
    by simp
qed

lemma decode_buffer:
  "list_all encodable rs \<Longrightarrow> 0 < header \<Longrightarrow> decode (concat (map encode rs)) 0 = Some (map view rs)"
  using decode_concat [of rs "[]" "[]"] by simp

lemma encode_determines_view:
  assumes "list_all encodable rs" and "list_all encodable ss" and "0 < header"
    and "concat (map encode rs) = concat (map encode ss)"
  shows "map view rs = map view ss"
  using decode_buffer [OF assms(1,3)] decode_buffer [OF assms(2,3)] assms(4) by simp

end

section \<open>IPv4 and IPv6 snapshots joined\<close>

locale dual_stack =
  fixes merge :: "'a list result \<Rightarrow> 'a list result \<Rightarrow> 'a list result"
    and key :: "'a \<Rightarrow> 'k::linorder"
    and unavailable :: "io_error \<Rightarrow> bool"
  assumes merge_ok: "merge (Ok xs) (Ok ys) = Ok (sort_key key (xs @ ys))"
    and merge_unavailable: "unavailable e \<Longrightarrow> merge (Ok xs) (Err e) = Ok (sort_key key xs)"
    and merge_error: "\<not> unavailable e \<Longrightarrow> merge (Ok xs) (Err e) = Err e"
    and merge_first_error: "merge (Err e) other = Err e"
begin

lemmas merge_laws = merge_ok merge_unavailable merge_error merge_first_error

lemma merge_result:
  "merge a b = Ok zs \<longleftrightarrow>
    (\<exists>xs. a = Ok xs \<and>
      ((\<exists>ys. b = Ok ys \<and> zs = sort_key key (xs @ ys)) \<or>
       (\<exists>e. b = Err e \<and> unavailable e \<and> zs = sort_key key xs)))"
  by (cases a; cases b; cases "unavailable (err_value b)") (auto simp: merge_laws)

lemma merge_sorted: "merge a b = Ok zs \<Longrightarrow> sorted (map key zs)"
  by (auto simp: merge_result)

lemma merge_complete: "merge (Ok xs) b = Ok zs \<Longrightarrow> set xs \<subseteq> set zs"
  by (auto simp: merge_result)

lemma merge_contents:
  "merge (Ok xs) b = Ok zs \<Longrightarrow>
    mset zs = mset xs + (case b of Ok ys \<Rightarrow> mset ys | Err _ \<Rightarrow> {#})"
  by (auto simp: merge_result)

lemma merge_err_iff:
  "merge a b = Err e \<longleftrightarrow> a = Err e \<or> ((\<exists>xs. a = Ok xs) \<and> b = Err e \<and> \<not> unavailable e)"
  by (cases a; cases b; cases "unavailable (err_value b)") (auto simp: merge_laws)

end

end
