(* ===== verification/Netlink_Wire.thy ===== *)
theory Netlink_Wire
  imports Netlink_Const Interfaces
begin

text \<open>
  The framing layer of \<open>netlink.rs\<close>: the C-layout message header and attribute header,
  the attribute walk \<open>attributes_from_offset\<close>, the walk over the messages of one datagram
  that every receive loop performs, the error message payload, and the writer
  \<open>event_message\<close> of the module's tests, which lays out a message as the kernel does.
\<close>

section \<open>C-layout structures\<close>

record message_header =
  mh_length :: u32
  mh_message_type :: u16
  mh_flags :: u16
  mh_sequence :: u32
  mh_port_id :: u32

definition message_header_of :: "bytes \<Rightarrow> message_header" where
  "message_header_of bs =
    \<lparr>mh_length = field 4 0 bs, mh_message_type = field 2 4 bs, mh_flags = field 2 6 bs,
     mh_sequence = field 4 8 bs, mh_port_id = field 4 12 bs\<rparr>"

definition message_header_bytes :: "message_header \<Rightarrow> bytes" where
  "message_header_bytes h =
    to_le_bytes 4 (mh_length h) @ to_le_bytes 2 (mh_message_type h) @ to_le_bytes 2 (mh_flags h)
    @ to_le_bytes 4 (mh_sequence h) @ to_le_bytes 4 (mh_port_id h)"

record route_attribute =
  ra_length :: u16
  ra_attribute_type :: u16

definition route_attribute_of :: "bytes \<Rightarrow> route_attribute" where
  "route_attribute_of bs = \<lparr>ra_length = field 2 0 bs, ra_attribute_type = field 2 2 bs\<rparr>"

definition route_attribute_bytes :: "route_attribute \<Rightarrow> bytes" where
  "route_attribute_bytes a = to_le_bytes 2 (ra_length a) @ to_le_bytes 2 (ra_attribute_type a)"

abbreviation header_size :: nat where
  "header_size \<equiv> 16"

lemma length_message_header_bytes [simp]: "length (message_header_bytes h) = 16"
  by (simp add: message_header_bytes_def)

lemma length_route_attribute_bytes [simp]: "length (route_attribute_bytes a) = 4"
  by (simp add: route_attribute_bytes_def)

lemma message_header_of_bytes [simp]: "message_header_of (message_header_bytes h @ rest) = h"
  by (simp add: message_header_of_def message_header_bytes_def wire_simps)

lemma route_attribute_of_bytes [simp]: "route_attribute_of (route_attribute_bytes a @ rest) = a"
  by (simp add: route_attribute_of_def route_attribute_bytes_def wire_simps)

section \<open>Attributes\<close>

type_synonym attributes = "(u16 \<times> bytes) list"

function attributes_from_offset :: "bytes \<Rightarrow> nat \<Rightarrow> attributes option" where
  "attributes_from_offset message offset =
    (if 4 \<le> length message - offset then
       (case read_unaligned 4 route_attribute_of (drop offset message) of
          None \<Rightarrow> None
        | Some attribute \<Rightarrow>
            let len = unat (ra_length attribute)
            in if len < 4 \<or> length message - offset < len then None
               else map_option
                 (Cons (ra_attribute_type attribute AND NLA_TYPE_MASK,
                    take (len - 4) (drop (offset + 4) message)))
                 (attributes_from_offset message (offset + align_to_4 len)))
     else Some [])"
  by pat_completeness auto
termination
proof (relation "measure (\<lambda>(message, offset). length message - offset)", goal_cases)
  case (2 message offset x2 len)
  then show ?case
    using align_to_4_ge [of len] by auto
qed simp

declare attributes_from_offset.simps [simp del]

definition attributes :: "bytes \<Rightarrow> nat \<Rightarrow> attributes option" where
  "attributes message payload_size =
    attributes_from_offset message (align_to_4 (header_size + payload_size))"

definition find_native_u32 :: "attributes \<Rightarrow> u16 \<Rightarrow> u32 option" where
  "find_native_u32 attrs expected =
    find_map (\<lambda>(kind, value). if kind = expected then native_u32 value else None) attrs"

definition find_u8 :: "attributes \<Rightarrow> u16 \<Rightarrow> u8 option" where
  "find_u8 attrs expected =
    find_map (\<lambda>(kind, value). if kind = expected then first_opt value else None) attrs"

definition find_string :: "attributes \<Rightarrow> u16 \<Rightarrow> string option" where
  "find_string attrs expected =
    find_map (\<lambda>(kind, value). if kind = expected then nul_terminated_string value else None) attrs"

section \<open>Writing a message\<close>

text \<open>\<open>while !message.len().is_multiple_of(4) { message.push(0) }\<close>.\<close>

definition pad_to_4 :: "bytes \<Rightarrow> bytes" where
  "pad_to_4 message = message @ replicate (align_to_4 (length message) - length message) 0"

definition append_attribute :: "bytes \<Rightarrow> u16 \<times> bytes \<Rightarrow> bytes" where
  "append_attribute message a =
    pad_to_4 (message
      @ route_attribute_bytes
          \<lparr>ra_length = of_nat (4 + length (snd a)), ra_attribute_type = fst a\<rparr>
      @ snd a)"

definition event_message :: "u16 \<Rightarrow> bytes \<Rightarrow> attributes \<Rightarrow> bytes" where
  "event_message message_type payload attrs =
    (let message = foldl append_attribute (pad_to_4 (replicate header_size 0 @ payload)) attrs;
         header = \<lparr>mh_length = of_nat (length message), mh_message_type = message_type,
           mh_flags = 0, mh_sequence = 0, mh_port_id = 0\<rparr>
     in message_header_bytes header @ drop header_size message)"

definition attribute_bytes :: "u16 \<times> bytes \<Rightarrow> bytes" where
  "attribute_bytes a =
    pad_to_4 (route_attribute_bytes
      \<lparr>ra_length = of_nat (4 + length (snd a)), ra_attribute_type = fst a\<rparr> @ snd a)"

definition encodable_attribute :: "u16 \<times> bytes \<Rightarrow> bool" where
  "encodable_attribute a \<longleftrightarrow> 4 + length (snd a) < 2 ^ 16"

text \<open>What the parser reports of an attribute: its kind without the flag bits.\<close>

definition masked :: "u16 \<times> bytes \<Rightarrow> u16 \<times> bytes" where
  "masked a = (fst a AND NLA_TYPE_MASK, snd a)"

lemma length_pad_to_4 [simp]: "length (pad_to_4 m) = align_to_4 (length m)"
  using align_to_4_ge [of "length m"] by (simp add: pad_to_4_def)

lemma pad_to_4_append: "4 dvd length m \<Longrightarrow> pad_to_4 (m @ xs) = m @ pad_to_4 xs"
  by (simp add: pad_to_4_def align_to_4_add)

lemma pad_to_4_id: "4 dvd length m \<Longrightarrow> pad_to_4 m = m"
  by (simp add: pad_to_4_def align_to_4_id)

lemma append_attribute_aligned: "4 dvd length m \<Longrightarrow> append_attribute m a = m @ attribute_bytes a"
  by (simp add: append_attribute_def attribute_bytes_def pad_to_4_append)

lemma length_attribute_bytes:
  "length (attribute_bytes a) = 4 + align_to_4 (length (snd a))"
  by (simp add: attribute_bytes_def align_to_4_add)

lemma dvd_length_attribute_bytes [simp]: "4 dvd length (attribute_bytes a)"
  by (simp add: attribute_bytes_def align_to_4_dvd)

lemma foldl_append_attribute:
  "4 dvd length m \<Longrightarrow> foldl append_attribute m attrs = m @ concat (map attribute_bytes attrs)"
  by (induction attrs arbitrary: m) (simp_all add: append_attribute_aligned)

section \<open>The attribute stream\<close>

lemma attributes_end: "length bs < offset + 4 \<Longrightarrow> attributes_from_offset bs offset = Some []"
proof -
  assume "length bs < offset + 4"
  then have "\<not> 4 \<le> length bs - offset"
    by linarith
  then show ?thesis
    by (simp add: attributes_from_offset.simps [of bs offset])
qed

lemma attributes_record:
  assumes "encodable_attribute a"
  shows "attributes_from_offset (pre @ attribute_bytes a @ rest) (length pre) =
    map_option (Cons (masked a)) (attributes_from_offset (pre @ attribute_bytes a @ rest)
      (length pre + length (attribute_bytes a)))"
proof -
  obtain kind v where a: "a = (kind, v)"
    by (cases a)
  let ?h = "\<lparr>ra_length = of_nat (4 + length v), ra_attribute_type = kind\<rparr>"
  let ?pad = "replicate (align_to_4 (4 + length v) - (4 + length v)) 0 :: bytes"
  have bytes: "attribute_bytes a = route_attribute_bytes ?h @ v @ ?pad"
    by (simp add: a attribute_bytes_def pad_to_4_def)
  have len: "unat (of_nat (4 + length v) :: u16) = 4 + length v"
    using assms by (simp add: a encodable_attribute_def unat_of_nat del: of_nat_add)
  have size: "length (attribute_bytes a) = align_to_4 (4 + length v)"
    by (simp add: a attribute_bytes_def)
  have fits: "4 + length v \<le> align_to_4 (4 + length v)"
    by (rule align_to_4_ge)
  have header: "route_attribute_of (attribute_bytes a @ rest) = ?h"
    and payload: "drop 4 (attribute_bytes a) = v @ ?pad"
    by (simp_all add: bytes del: of_nat_add)
  show ?thesis
    using len size fits
    by (subst attributes_from_offset.simps)
      (simp add: header payload read_unaligned_def Let_def del: NLA_TYPE_MASK_def of_nat_add,
       simp add: a masked_def)
qed

interpretation netlink_attributes:
  record_stream attributes_from_offset attribute_bytes masked encodable_attribute 4
  by unfold_locales (auto simp: attributes_end attributes_record)

lemma attributes_from_offset_sublists:
  "attributes_from_offset message offset = Some attrs \<Longrightarrow> (kind, value) \<in> set attrs \<Longrightarrow>
    \<exists>start. offset + 4 \<le> start \<and> start + length value \<le> length message
      \<and> value = take (length value) (drop start message)"
proof (induction message offset arbitrary: attrs rule: attributes_from_offset.induct)
  case (1 message offset)
  show ?case
  proof (cases "4 \<le> length message - offset")
    case False
    with "1.prems" show ?thesis
      by (simp add: attributes_from_offset.simps [of message offset])
  next
    case True
    let ?a = "route_attribute_of (drop offset message)"
    let ?len = "unat (ra_length ?a)"
    have read: "read_unaligned 4 route_attribute_of (drop offset message) = Some ?a"
      using True by (simp add: read_unaligned_def)
    from "1.prems"(1) True read have ok: "\<not> (?len < 4 \<or> length message - offset < ?len)"
      by (auto simp: attributes_from_offset.simps [of message offset] Let_def split: if_splits)
    with "1.prems"(1) True read obtain rest where
      rest: "attributes_from_offset message (offset + align_to_4 ?len) = Some rest" and
      attrs: "attrs = (ra_attribute_type ?a AND NLA_TYPE_MASK,
        take (?len - 4) (drop (offset + 4) message)) # rest"
      by (auto simp: attributes_from_offset.simps [of message offset] Let_def split: if_splits)
    show ?thesis
    proof (cases "(kind, value) \<in> set rest")
      case True
      with "1.IH" [OF \<open>4 \<le> length message - offset\<close> read refl ok rest]
      obtain start where "offset + align_to_4 ?len + 4 \<le> start" and
        "start + length value \<le> length message" and
        "value = take (length value) (drop start message)"
        by blast
      then show ?thesis
        by (intro exI [of _ start]) auto
    next
      case False
      with "1.prems"(2) attrs have "value = take (?len - 4) (drop (offset + 4) message)"
        by auto
      with ok True show ?thesis
        by (intro exI [of _ "offset + 4"]) auto
    qed
  qed
qed

end
