(* ===== verification/Netlink_Labels.thy ===== *)
theory Netlink_Labels
  imports Netlink_Wire
begin

text \<open>
  The human-readable labels of \<open>netlink.rs\<close>: tables from kernel codes to names, and the
  pipe-delimited renderings of flag words. A flag word is rendered without loss: the names
  of the known bits and the remaining bits in hexadecimal determine it. The contract of a
  flag table is the locale \<open>flag_table\<close>; it is interpreted on every table of the module.
\<close>

section \<open>Codes\<close>

text \<open>\<open>match code { n => name, ..., value => format!("prefix-{value}") }\<close>.\<close>

definition label :: "string \<Rightarrow> (u8 \<times> string) list \<Rightarrow> u8 \<Rightarrow> string" where
  "label fallback table code =
    (case map_of table code of Some name \<Rightarrow> name | None \<Rightarrow> fallback @ decimal (unat code))"

definition route_protocol :: "u8 \<Rightarrow> string" where
  "route_protocol code =
   label ''protocol-''
   [(0, ''unspecified''), (1, ''redirect''), (2, ''kernel''), (3, ''boot''), (4, ''static''),
    (8, ''gated''), (9, ''router-advertisement''), (11, ''zebra''), (12, ''bird''),
    (16, ''dhcp''), (17, ''mrouted''), (18, ''keepalived''), (186, ''bgp''), (187, ''isis''),
    (188, ''ospf''), (189, ''rip'')]
   code"

definition route_scope :: "u8 \<Rightarrow> string" where
  "route_scope code =
   label ''scope-''
   [(0, ''global''), (200, ''site''), (253, ''link''), (254, ''host''), (255, ''nowhere'')]
   code"

definition route_kind :: "u8 \<Rightarrow> string" where
  "route_kind code =
   label ''type-''
   [(0, ''unspecified''), (1, ''unicast''), (2, ''local''), (3, ''broadcast''),
    (4, ''anycast''), (5, ''multicast''), (6, ''blackhole''), (7, ''unreachable''),
    (8, ''prohibit''), (9, ''throw''), (10, ''nat''), (11, ''xresolve'')]
   code"

definition operational_state :: "u8 \<Rightarrow> string" where
  "operational_state code =
   label ''state-''
   [(0, ''unknown''), (1, ''not-present''), (2, ''down''), (3, ''lower-layer-down''),
    (4, ''testing''), (5, ''dormant''), (6, ''up'')]
   code"

definition rule_action :: "u8 \<Rightarrow> string" where
  "rule_action code =
   label ''action-''
   [(0, ''unspecified''), (1, ''lookup''), (2, ''goto''), (3, ''nop''), (6, ''blackhole''),
    (7, ''unreachable''), (8, ''prohibit'')]
   code"

definition address_scope :: "u8 \<Rightarrow> string" where
  "address_scope code =
   unwrap_or ''custom'' (map_of
   [(0, ''global''), (200, ''site''), (253, ''link''), (254, ''host''), (255, ''nowhere'')]
   code)"

section \<open>Flag words\<close>

definition flag_names :: "u32 \<Rightarrow> (u32 \<times> string) list \<Rightarrow> string list" where
  "flag_names flags known = map snd (filter (\<lambda>(flag, _). flags AND flag \<noteq> 0) known)"

definition known_bits :: "(u32 \<times> string) list \<Rightarrow> u32" where
  "known_bits known = foldl (\<lambda>bits (flag, _). bits OR flag) 0 known"

definition format_flags :: "u32 \<Rightarrow> (u32 \<times> string) list \<Rightarrow> string" where
  "format_flags flags known =
    (let names = flag_names flags known;
         unknown = flags AND NOT (known_bits known);
         names = (if unknown \<noteq> 0 then names @ [''0x'' @ hexadecimal (unat unknown)] else names)
     in if names = [] then ''none'' else join ''|'' names)"

definition link_flag_table :: "(u32 \<times> string) list" where
  "link_flag_table =
   [(0x00000001, ''up''), (0x00000002, ''broadcast''), (0x00000004, ''debug''),
    (0x00000008, ''loopback''), (0x00000010, ''point-to-point''),
    (0x00000020, ''no-trailers''), (0x00000040, ''running''), (0x00000080, ''noarp''),
    (0x00000100, ''promiscuous''), (0x00000200, ''all-multicast''), (0x00000400, ''master''),
    (0x00000800, ''slave''), (0x00001000, ''multicast''), (0x00002000, ''port-selection''),
    (0x00004000, ''automedia''), (0x00008000, ''dynamic''), (0x00010000, ''lower-up''),
    (0x00020000, ''dormant''), (0x00040000, ''echo'')]"

definition link_flags :: "u32 \<Rightarrow> string" where
  "link_flags flags = format_flags flags link_flag_table"

definition next_hop_flag_table :: "(u32 \<times> string) list" where
  "next_hop_flag_table =
   [(0x01, ''dead''), (0x02, ''pervasive''), (0x04, ''onlink''), (0x08, ''offload''),
    (0x10, ''linkdown''), (0x20, ''unresolved''), (0x40, ''trap'')]"

definition next_hop_flags :: "u8 \<Rightarrow> string" where
  "next_hop_flags flags = format_flags (ucast flags) next_hop_flag_table"

definition rule_flag_table :: "(u32 \<times> string) list" where
  "rule_flag_table =
   [(0x00000001, ''permanent''), (0x00000002, ''invert''), (0x00000004, ''unresolved''),
    (0x00000008, ''input-detached''), (0x00000010, ''output-detached''),
    (0x00010000, ''find-source'')]"

definition rule_flags :: "u32 \<Rightarrow> string" where
  "rule_flags flags = format_flags flags rule_flag_table"

definition address_flag_table :: "(u32 \<times> string) list" where
  "address_flag_table =
   [(IFA_F_SECONDARY, ''secondary''), (IFA_F_NODAD, ''nodad''),
    (IFA_F_OPTIMISTIC, ''optimistic''), (IFA_F_DADFAILED, ''dadfailed''),
    (IFA_F_HOMEADDRESS, ''home''), (IFA_F_DEPRECATED, ''deprecated''),
    (IFA_F_TENTATIVE, ''tentative''), (IFA_F_PERMANENT, ''permanent''),
    (IFA_F_MANAGETEMPADDR, ''manage-temp''), (IFA_F_NOPREFIXROUTE, ''no-prefix-route''),
    (IFA_F_MCAUTOJOIN, ''multicast-autojoin''), (IFA_F_STABLE_PRIVACY, ''stable-privacy'')]"

definition address_flags :: "u32 \<Rightarrow> string" where
  "address_flags flags = format_flags flags address_flag_table"

definition neighbor_flag_table :: "(u32 \<times> string) list" where
  "neighbor_flag_table =
   [(0x01, ''use''), (0x02, ''self''), (0x04, ''master''), (0x08, ''proxy''),
    (0x10, ''externally-learned''), (0x20, ''offloaded''), (0x40, ''sticky''), (0x80, ''router'')]"

definition neighbor_extended_flag_table :: "(u32 \<times> string) list" where
  "neighbor_extended_flag_table =
   [(0x01, ''managed''), (0x02, ''locked''), (0x04, ''externally-validated'')]"

definition neighbor_flags :: "u8 \<Rightarrow> u32 \<Rightarrow> string" where
  "neighbor_flags flags extended_flags =
    (let base = format_flags (ucast flags) neighbor_flag_table;
         extended = format_flags extended_flags neighbor_extended_flag_table
     in if base = ''none'' \<and> extended = ''none'' then ''none''
        else if base = ''none'' then extended
        else if extended = ''none'' then base
        else base @ ''|'' @ extended)"

definition neighbor_state_table :: "(u16 \<times> string) list" where
  "neighbor_state_table =
   [(NUD_INCOMPLETE, ''incomplete''), (NUD_REACHABLE, ''reachable''), (NUD_STALE, ''stale''),
    (NUD_DELAY, ''delay''), (NUD_PROBE, ''probe''), (NUD_FAILED, ''failed''),
    (NUD_NOARP, ''noarp''), (NUD_PERMANENT, ''permanent'')]"

definition neighbor_state :: "u16 \<Rightarrow> string" where
  "neighbor_state state =
    (let names = map snd (filter (\<lambda>(flag, _). state AND flag \<noteq> 0) neighbor_state_table)
     in if names = [] then ''none'' else join ''|'' names)"

section \<open>Hardware addresses\<close>

text \<open>\<open>format_link_address\<close> of \<open>netlink.rs\<close> and \<open>format_mac\<close> of \<open>wifi.rs\<close>.\<close>

definition format_link_address :: "bytes \<Rightarrow> string" where
  "format_link_address value = join '':'' (map hex_byte value)"

section \<open>Reading a rendered flag word back\<close>

text \<open>The value of one piece of a rendering, and of a whole rendering.\<close>

definition piece_value :: "(u32 \<times> string) list \<Rightarrow> string \<Rightarrow> u32" where
  "piece_value table piece =
    (case map_of (map prod.swap table) piece of
       Some flag \<Rightarrow> flag
     | None \<Rightarrow>
        (case strip_prefix ''0x'' piece of
           None \<Rightarrow> 0
         | Some digits \<Rightarrow> unwrap_or 0 (parse_u32_hex digits)))"

definition flags_value :: "(u32 \<times> string) list \<Rightarrow> string \<Rightarrow> u32" where
  "flags_value table text =
    foldr (\<lambda>piece bits. piece_value table piece OR bits) (split_char (CHR ''|'') text) 0"

definition single_bit :: "u32 \<Rightarrow> bool" where
  "single_bit flag \<longleftrightarrow> list_ex (\<lambda>i. flag = 2 ^ i) [0..<32]"

definition plain_name :: "string \<Rightarrow> bool" where
  "plain_name name \<longleftrightarrow>
    name \<noteq> [] \<and> CHR ''|'' \<notin> set name \<and> name \<noteq> ''none'' \<and> \<not> prefix ''0x'' name"

lemma upt_32:
  "[0..<32] = [0, 1, 2, 3, 4, 5, 6, 7, 8, 9, 10, 11, 12, 13, 14, 15, 16, 17, 18, 19, 20, 21, 22,
    23, 24, 25, 26, 27, 28, 29, 30, 31 :: nat]"
  by code_simp

lemma single_bit_and:
  assumes "single_bit flag"
  shows "x AND flag = 0 \<or> x AND flag = flag"
proof -
  obtain i where "i < 32" and flag: "flag = 2 ^ i"
    using assms by (auto simp: single_bit_def list_ex_iff)
  show ?thesis
  proof (cases "bit x i")
    case True
    then have "x AND 2 ^ i = 2 ^ i"
      by (intro bit_word_eqI) (auto simp: bit_simps)
    with flag show ?thesis by simp
  next
    case False
    with flag show ?thesis
      by (simp add: and_exp_eq_0_iff_not_bit)
  qed
qed

lemma foldl_known_bits:
  "foldl (\<lambda>bits (flag, _). bits OR flag) a table = a OR foldr (\<lambda>(flag, _) bits. flag OR bits) table 0"
  for a :: u32
  by (induction table arbitrary: a) (auto simp: ac_simps)

lemma known_bits_Cons: "known_bits ((flag, name) # table) = flag OR known_bits table"
  by (simp add: known_bits_def foldl_known_bits)

lemma known_bits_Nil: "known_bits [] = 0"
  by (simp add: known_bits_def)

lemma hexadecimal_plain: "CHR ''|'' \<notin> set (hexadecimal n)"
proof
  assume "CHR ''|'' \<in> set (hexadecimal n)"
  then obtain d where "d < 16" and "CHR ''|'' = hex_digit d"
    using set_to_radix [of 16 "CHR ''|''" n] by (auto simp: hexadecimal_def)
  then have "of_char (CHR ''|'') = (if d < 10 then 48 + d else 87 + d)"
    using hex_digit_code [of d] by (simp del: hex_digit.simps)
  with \<open>d < 16\<close> show False by (simp split: if_splits)
qed

lemma parse_u32_hexadecimal [simp]: "parse_u32_hex (hexadecimal (unat w)) = Some w"
  using unat_bounds(3) [of w]
  by (simp add: parse_u32_hex_def hexadecimal_def from_str_radix_to_radix)

locale flag_table =
  fixes table :: "(u32 \<times> string) list"
  assumes bits: "list_all (\<lambda>(flag, _). single_bit flag) table"
    and names: "list_all (\<lambda>(_, name). plain_name name) table"
    and distinct_names: "distinct (map snd table)"
begin

lemma piece_value_name: "(flag, name) \<in> set table \<Longrightarrow> piece_value table name = flag"
proof -
  assume "(flag, name) \<in> set table"
  then have "map_of (map prod.swap table) name = Some flag"
    using distinct_names by (intro map_of_is_SomeI) (force simp: comp_def)+
  then show ?thesis
    by (simp add: piece_value_def)
qed

lemma piece_value_hex: "piece_value table (''0x'' @ hexadecimal (unat w)) = w"
proof -
  have "map_of (map prod.swap table) (''0x'' @ hexadecimal (unat w)) = None"
    using names by (auto simp: map_of_eq_None_iff list_all_iff plain_name_def)
  then show ?thesis
    by (simp add: piece_value_def strip_prefix_def)
qed

lemma piece_value_none: "piece_value table ''none'' = 0"
proof -
  have "map_of (map prod.swap table) ''none'' = None"
    using names by (auto simp: map_of_eq_None_iff list_all_iff plain_name_def)
  then show ?thesis
    by (simp add: piece_value_def strip_prefix_def)
qed

lemma names_value:
  "foldr (\<lambda>piece bits. piece_value table piece OR bits) (flag_names flags table) rest =
    (flags AND known_bits table) OR rest"
proof -
  have "set sub \<subseteq> set table \<Longrightarrow>
      foldr (\<lambda>piece bits. piece_value table piece OR bits) (flag_names flags sub) rest =
      (flags AND known_bits sub) OR rest" for sub
  proof (induction sub)
    case Nil
    then show ?case by (simp add: flag_names_def known_bits_Nil)
  next
    case (Cons entry sub)
    obtain flag name where entry: "entry = (flag, name)"
      by (cases entry)
    with Cons.prems have flag: "piece_value table name = flag" "single_bit flag"
      using piece_value_name bits by (auto simp: list_all_iff)
    with Cons single_bit_and [of flag flags] show ?case
      by (auto simp: entry flag_names_def known_bits_Cons bit.conj_disj_distrib ac_simps)
  qed
  then show ?thesis by simp
qed

lemma pieces:
  "split_char (CHR ''|'') (format_flags flags table) =
    (let unknown = flags AND NOT (known_bits table);
         names = flag_names flags table @ (if unknown \<noteq> 0 then [''0x'' @ hexadecimal (unat unknown)] else [])
     in if names = [] then [''none''] else names)"
proof -
  have plain: "\<forall>piece \<in> set (flag_names flags table). CHR ''|'' \<notin> set piece"
    using names by (auto simp: flag_names_def list_all_iff plain_name_def)
  show ?thesis
    using plain hexadecimal_plain
    by (auto simp: format_flags_def Let_def split_char_def split_on_none
      intro!: split_char_join [unfolded split_char_def])
qed

lemma flags_value_format: "flags_value table (format_flags flags table) = flags"
proof -
  let ?known = "flags AND known_bits table" and ?unknown = "flags AND NOT (known_bits table)"
  have split: "?known OR ?unknown = flags"
    by (simp flip: bit.conj_disj_distrib)
  show ?thesis
  proof (cases "?unknown = 0")
    case True
    with split names_value [of flags 0] show ?thesis
      by (auto simp: flags_value_def pieces Let_def piece_value_none)
  next
    case False
    with split names_value [of flags ?unknown] show ?thesis
      by (simp add: flags_value_def pieces Let_def piece_value_hex [simplified])
  qed
qed

lemma format_inject: "format_flags f table = format_flags g table \<Longrightarrow> f = g"
  using flags_value_format by metis

lemma name_shown:
  assumes "(flag, name) \<in> set table"
  shows "name \<in> set (split_char (CHR ''|'') (format_flags flags table)) \<longleftrightarrow> flags AND flag \<noteq> 0"
proof -
  have "plain_name name"
    using assms names by (auto simp: list_all_iff)
  moreover have "name \<in> set (flag_names flags table) \<longleftrightarrow> flags AND flag \<noteq> 0"
    using assms distinct_names
    by (auto simp: flag_names_def distinct_map inj_on_def) force+
  ultimately show ?thesis
    by (auto simp: pieces Let_def plain_name_def)
qed

end

interpretation link_flags: flag_table link_flag_table
  by unfold_locales (simp_all add: link_flag_table_def single_bit_def plain_name_def upt_32)

interpretation next_hop_flags: flag_table next_hop_flag_table
  by unfold_locales (simp_all add: next_hop_flag_table_def single_bit_def plain_name_def upt_32)

interpretation rule_flags: flag_table rule_flag_table
  by unfold_locales (simp_all add: rule_flag_table_def single_bit_def plain_name_def upt_32)

interpretation address_flags: flag_table address_flag_table
  by unfold_locales (simp_all add: address_flag_table_def single_bit_def plain_name_def upt_32)

interpretation neighbor_flags: flag_table neighbor_flag_table
  by unfold_locales (simp_all add: neighbor_flag_table_def single_bit_def plain_name_def upt_32)

interpretation neighbor_extended_flags: flag_table neighbor_extended_flag_table
  by unfold_locales (simp_all add: neighbor_extended_flag_table_def single_bit_def plain_name_def upt_32)

end
