(* ===== verification/Netlink_Records.thy ===== *)
theory Netlink_Records
  imports Netlink_Labels
begin

text \<open>
  The public records of \<open>netlink.rs\<close> and their parsers: \<open>parse_link\<close>,
  \<open>parse_address\<close>, \<open>parse_route\<close> with \<open>parse_next_hops\<close>, \<open>parse_rule\<close> and
  \<open>parse_neighbor\<close>, each from the bytes of one message to the record or to nothing.
\<close>

section \<open>Public records\<close>

record neighbor =
  n_address :: ip_addr
  n_link_address :: "string option"
  n_interface_index :: i32
  n_state :: string
  n_flags :: string
  n_protocol :: "string option"
  n_kind :: string
  n_probes :: "u32 option"
  n_confirmed_ms_ago :: "u64 option"
  n_used_ms_ago :: "u64 option"
  n_updated_ms_ago :: "u64 option"
  n_reference_count :: "u32 option"
  n_master_index :: "i32 option"

record next_hop =
  nh_gateway :: "ip_addr option"
  nh_interface_index :: i32
  nh_weight :: u16
  nh_flags :: string

record route =
  r_destination :: ip_addr
  r_prefix :: u8
  r_source_prefix :: "(ip_addr \<times> u8) option"
  r_gateway :: "ip_addr option"
  r_interface_index :: "i32 option"
  r_metric :: "u32 option"
  r_source :: "ip_addr option"
  r_table :: u32
  r_protocol :: string
  r_scope :: string
  r_kind :: string
  r_next_hops :: "next_hop list"

datatype ip_family = Ipv4 | Ipv6

record rule =
  ru_family :: ip_family
  ru_priority :: u32
  ru_source :: "(ip_addr \<times> u8) option"
  ru_destination :: "(ip_addr \<times> u8) option"
  ru_input_interface :: "string option"
  ru_output_interface :: "string option"
  ru_fwmark :: "u32 option"
  ru_fwmask :: "u32 option"
  ru_table :: u32
  ru_action :: string
  ru_goto :: "u32 option"
  ru_flags :: string

record link =
  l_interface_index :: i32
  l_name :: string
  l_kind :: "string option"
  l_hardware_type :: u16
  l_flags :: string
  l_operational_state :: string
  l_carrier :: "bool option"
  l_mtu :: "u32 option"
  l_minimum_mtu :: "u32 option"
  l_maximum_mtu :: "u32 option"
  l_parent_index :: "i32 option"
  l_master_index :: "i32 option"
  l_qdisc :: "string option"
  l_transmit_queue_length :: "u32 option"
  l_alias :: "string option"
  l_alternative_names :: "string list"
  l_vlan_id :: "u16 option"
  l_group :: "u32 option"
  l_promiscuity :: "u32 option"
  l_transmit_queues :: "u32 option"
  l_receive_queues :: "u32 option"
  l_carrier_changes :: "u32 option"
  l_carrier_up_count :: "u32 option"
  l_carrier_down_count :: "u32 option"
  l_physical_port_name :: "string option"
  l_parent_device_name :: "string option"
  l_parent_device_bus_name :: "string option"

record address =
  a_local :: ip_addr
  a_prefix :: u8
  a_peer :: "ip_addr option"
  a_broadcast :: "ip_addr option"
  a_interface_index :: i32
  a_label :: "string option"
  a_scope :: string
  a_flags :: string
  a_preferred_lifetime :: "u32 option"
  a_valid_lifetime :: "u32 option"

section \<open>Payload structures\<close>

record neighbor_message =
  nm_family :: u8
  nm_interface_index :: i32
  nm_state :: u16
  nm_flags :: u8
  nm_message_type :: u8

definition neighbor_message_of :: "bytes \<Rightarrow> neighbor_message" where
  "neighbor_message_of bs =
    \<lparr>nm_family = field 1 0 bs, nm_interface_index = field 4 4 bs, nm_state = field 2 8 bs,
     nm_flags = field 1 10 bs, nm_message_type = field 1 11 bs\<rparr>"

definition neighbor_message_bytes :: "neighbor_message \<Rightarrow> bytes" where
  "neighbor_message_bytes m =
    to_le_bytes 1 (nm_family m) @ [0] @ [0, 0] @ to_le_bytes 4 (nm_interface_index m)
    @ to_le_bytes 2 (nm_state m) @ to_le_bytes 1 (nm_flags m) @ to_le_bytes 1 (nm_message_type m)"

record neighbor_cache_info =
  nc_confirmed :: u32
  nc_used :: u32
  nc_updated :: u32
  nc_reference_count :: u32

definition neighbor_cache_info_of :: "bytes \<Rightarrow> neighbor_cache_info" where
  "neighbor_cache_info_of bs =
    \<lparr>nc_confirmed = field 4 0 bs, nc_used = field 4 4 bs, nc_updated = field 4 8 bs,
     nc_reference_count = field 4 12 bs\<rparr>"

record link_message =
  lm_family :: u8
  lm_link_type :: u16
  lm_interface_index :: i32
  lm_flags :: u32
  lm_change :: u32

definition link_message_of :: "bytes \<Rightarrow> link_message" where
  "link_message_of bs =
    \<lparr>lm_family = field 1 0 bs, lm_link_type = field 2 2 bs, lm_interface_index = field 4 4 bs,
     lm_flags = field 4 8 bs, lm_change = field 4 12 bs\<rparr>"

definition link_message_bytes :: "link_message \<Rightarrow> bytes" where
  "link_message_bytes m =
    to_le_bytes 1 (lm_family m) @ [0] @ to_le_bytes 2 (lm_link_type m)
    @ to_le_bytes 4 (lm_interface_index m) @ to_le_bytes 4 (lm_flags m)
    @ to_le_bytes 4 (lm_change m)"

record address_message =
  am_family :: u8
  am_prefix :: u8
  am_flags :: u8
  am_scope :: u8
  am_interface_index :: u32

definition address_message_of :: "bytes \<Rightarrow> address_message" where
  "address_message_of bs =
    \<lparr>am_family = field 1 0 bs, am_prefix = field 1 1 bs, am_flags = field 1 2 bs,
     am_scope = field 1 3 bs, am_interface_index = field 4 4 bs\<rparr>"

definition address_message_bytes :: "address_message \<Rightarrow> bytes" where
  "address_message_bytes m =
    to_le_bytes 1 (am_family m) @ to_le_bytes 1 (am_prefix m) @ to_le_bytes 1 (am_flags m)
    @ to_le_bytes 1 (am_scope m) @ to_le_bytes 4 (am_interface_index m)"

record address_cache_info =
  ac_preferred :: u32
  ac_valid :: u32
  ac_created :: u32
  ac_updated :: u32

definition address_cache_info_of :: "bytes \<Rightarrow> address_cache_info" where
  "address_cache_info_of bs =
    \<lparr>ac_preferred = field 4 0 bs, ac_valid = field 4 4 bs, ac_created = field 4 8 bs,
     ac_updated = field 4 12 bs\<rparr>"

record route_message =
  rm_family :: u8
  rm_destination_prefix :: u8
  rm_source_prefix :: u8
  rm_tos :: u8
  rm_table :: u8
  rm_protocol :: u8
  rm_scope :: u8
  rm_route_type :: u8
  rm_flags :: u32

definition route_message_of :: "bytes \<Rightarrow> route_message" where
  "route_message_of bs =
    \<lparr>rm_family = field 1 0 bs, rm_destination_prefix = field 1 1 bs, rm_source_prefix = field 1 2 bs,
     rm_tos = field 1 3 bs, rm_table = field 1 4 bs, rm_protocol = field 1 5 bs,
     rm_scope = field 1 6 bs, rm_route_type = field 1 7 bs, rm_flags = field 4 8 bs\<rparr>"

definition route_message_bytes :: "route_message \<Rightarrow> bytes" where
  "route_message_bytes m =
    to_le_bytes 1 (rm_family m) @ to_le_bytes 1 (rm_destination_prefix m)
    @ to_le_bytes 1 (rm_source_prefix m) @ to_le_bytes 1 (rm_tos m) @ to_le_bytes 1 (rm_table m)
    @ to_le_bytes 1 (rm_protocol m) @ to_le_bytes 1 (rm_scope m)
    @ to_le_bytes 1 (rm_route_type m) @ to_le_bytes 4 (rm_flags m)"

record rule_message =
  rum_family :: u8
  rum_destination_prefix :: u8
  rum_source_prefix :: u8
  rum_tos :: u8
  rum_table :: u8
  rum_action :: u8
  rum_flags :: u32

definition rule_message_of :: "bytes \<Rightarrow> rule_message" where
  "rule_message_of bs =
    \<lparr>rum_family = field 1 0 bs, rum_destination_prefix = field 1 1 bs,
     rum_source_prefix = field 1 2 bs, rum_tos = field 1 3 bs, rum_table = field 1 4 bs,
     rum_action = field 1 7 bs, rum_flags = field 4 8 bs\<rparr>"

definition rule_message_bytes :: "rule_message \<Rightarrow> bytes" where
  "rule_message_bytes m =
    to_le_bytes 1 (rum_family m) @ to_le_bytes 1 (rum_destination_prefix m)
    @ to_le_bytes 1 (rum_source_prefix m) @ to_le_bytes 1 (rum_tos m)
    @ to_le_bytes 1 (rum_table m) @ [0] @ [0] @ to_le_bytes 1 (rum_action m)
    @ to_le_bytes 4 (rum_flags m)"

record route_next_hop =
  rn_length :: u16
  rn_flags :: u8
  rn_hops :: u8
  rn_interface_index :: i32

definition route_next_hop_of :: "bytes \<Rightarrow> route_next_hop" where
  "route_next_hop_of bs =
    \<lparr>rn_length = field 2 0 bs, rn_flags = field 1 2 bs, rn_hops = field 1 3 bs,
     rn_interface_index = field 4 4 bs\<rparr>"

definition route_next_hop_bytes :: "route_next_hop \<Rightarrow> bytes" where
  "route_next_hop_bytes n =
    to_le_bytes 2 (rn_length n) @ to_le_bytes 1 (rn_flags n) @ to_le_bytes 1 (rn_hops n)
    @ to_le_bytes 4 (rn_interface_index n)"

section \<open>Addresses\<close>

definition ipv4_from_bytes :: "bytes \<Rightarrow> ipv4_addr option" where
  "ipv4_from_bytes bs =
    do { a \<leftarrow> get_at 0 bs; b \<leftarrow> get_at 1 bs; c \<leftarrow> get_at 2 bs; d \<leftarrow> get_at 3 bs;
         Some (ipv4_new a b c d) }"

definition ipv6_from_bytes :: "bytes \<Rightarrow> ipv6_addr option" where
  "ipv6_from_bytes bs = map_option ipv6_from_octets (get_to 16 bs)"

definition ip_from_bytes :: "u8 \<Rightarrow> bytes \<Rightarrow> ip_addr option" where
  "ip_from_bytes family bs =
    (if family = AF_INET then map_option V4 (ipv4_from_bytes bs)
     else if family = AF_INET6 then map_option V6 (ipv6_from_bytes bs)
     else None)"

definition unspecified_address :: "u8 \<Rightarrow> ip_addr" where
  "unspecified_address family = (if family = AF_INET6 then V6 0 else V4 0)"

definition is_ip_family :: "u8 \<Rightarrow> bool" where
  "is_ip_family family \<longleftrightarrow> family = AF_INET \<or> family = AF_INET6"

fun ip_address_matches_family :: "ip_addr \<Rightarrow> u8 \<Rightarrow> bool" where
  "ip_address_matches_family (V4 _) family = (family = AF_INET)"
| "ip_address_matches_family (V6 _) family = (family = AF_INET6)"

fun ip_family_matches_family :: "ip_family \<Rightarrow> u8 \<Rightarrow> bool" where
  "ip_family_matches_family Ipv4 family = (family = AF_INET)"
| "ip_family_matches_family Ipv6 family = (family = AF_INET6)"

definition finite_lifetime :: "u32 \<Rightarrow> u32 option" where
  "finite_lifetime seconds = (if seconds \<noteq> 0xFFFFFFFF then Some seconds else None)"

text \<open>The octets the kernel writes for an address, and the family that goes with it.\<close>

fun ip_octets :: "ip_addr \<Rightarrow> bytes" where
  "ip_octets (V4 a) = ipv4_octets a"
| "ip_octets (V6 a) = ipv6_octets a"

fun family_of :: "ip_addr \<Rightarrow> u8" where
  "family_of (V4 _) = AF_INET"
| "family_of (V6 _) = AF_INET6"

lemma ipv4_from_bytes_octets [simp]: "ipv4_from_bytes (ipv4_octets a @ rest) = Some a"
proof -
  obtain p q r s where o4: "ipv4_octets a = [p, q, r, s]"
    using length_octets(1) [of a] unfolding length_4_conv by blast
  moreover have "ipv4_new p q r s = a"
    using octets_roundtrip(1) [of a] o4 by (simp add: ipv4_new_def ipv4_from_octets_def)
  ultimately show ?thesis
    by (simp add: ipv4_from_bytes_def get_at_def)
qed

lemma ipv6_from_bytes_octets [simp]: "ipv6_from_bytes (ipv6_octets a @ rest) = Some a"
  by (simp add: ipv6_from_bytes_def get_to_def)

lemma ip_from_bytes_octets:
  "family = family_of a \<Longrightarrow> ip_from_bytes family (ip_octets a) = Some a"
  using ipv4_from_bytes_octets [of _ "[]"] ipv6_from_bytes_octets [of _ "[]"]
  by (cases a) (simp_all add: ip_from_bytes_def)

lemma ip_from_bytes_family:
  "ip_from_bytes family bs = Some a \<Longrightarrow> ip_address_matches_family a family"
  by (auto simp: ip_from_bytes_def split: if_splits)

lemma unspecified_address_family:
  "is_ip_family family \<Longrightarrow> ip_address_matches_family (unspecified_address family) family"
  by (auto simp: is_ip_family_def unspecified_address_def)

section \<open>Finding attributes\<close>

text \<open>\<open>attributes.iter().find_map(|(kind, value)| (*kind == K).then(|| parse(value))?)\<close>.\<close>

definition find_attribute :: "attributes \<Rightarrow> u16 \<Rightarrow> (bytes \<Rightarrow> 't option) \<Rightarrow> 't option" where
  "find_attribute attrs expected parse =
    find_map (\<lambda>(kind, value). if kind = expected then parse value else None) attrs"

lemma find_native_u32_attribute: "find_native_u32 attrs k = find_attribute attrs k native_u32"
  by (simp add: find_native_u32_def find_attribute_def)

lemma find_attribute_family:
  "find_attribute attrs k (ip_from_bytes family) = Some a \<Longrightarrow> ip_address_matches_family a family"
  by (auto simp: find_attribute_def dest!: find_map_Some split: if_splits intro: ip_from_bytes_family)

lemma find_attribute_simps [simp]:
  "find_attribute [] k parse = None"
  "find_attribute ((kind, v) # attrs) k parse =
    (if kind = k then option_or (parse v) (find_attribute attrs k parse)
     else find_attribute attrs k parse)"
  by (auto simp: find_attribute_def split: option.splits)

section \<open>Links\<close>

definition parse_link_info :: "bytes \<Rightarrow> (string option \<times> u16 option) option" where
  "parse_link_info value =
    do { attrs \<leftarrow> attributes_from_offset value 0;
         let kind = find_string attrs IFLA_INFO_KIND;
         let vlan_id =
           do { data \<leftarrow> find_attribute attrs IFLA_INFO_DATA Some;
                inner \<leftarrow> attributes_from_offset data 0;
                find_attribute inner IFLA_VLAN_ID native_u16 };
         Some (kind, vlan_id) }"

definition alternative_names_of :: "attributes \<Rightarrow> string list" where
  "alternative_names_of attrs =
    filter_map (\<lambda>(kind, value).
      if kind = IFLA_ALT_IFNAME then nul_terminated_string value else None) attrs"

definition link_alternative_names :: "attributes \<Rightarrow> string list" where
  "link_alternative_names attrs =
    dedup (sort (alternative_names_of attrs @
      (case find_attribute attrs IFLA_PROP_LIST Some of
         None \<Rightarrow> []
       | Some property_list \<Rightarrow>
           (case attributes_from_offset property_list 0 of
              None \<Rightarrow> []
            | Some properties \<Rightarrow> alternative_names_of properties))))"

definition link_operational_state :: "attributes \<Rightarrow> u32 \<Rightarrow> string" where
  "link_operational_state attrs flags =
    (let state = unwrap_or ''unknown''
           (find_attribute attrs IFLA_OPERSTATE
             (\<lambda>value. map_option operational_state (first_opt value)))
     in if state = ''unknown'' \<and> flags AND 0x09 = 0x09 then ''up'' else state)"

definition parse_link :: "bytes \<Rightarrow> link option" where
  "parse_link message =
    do { payload \<leftarrow> get_from header_size message;
         lm \<leftarrow> read_unaligned 16 link_message_of payload;
         attrs \<leftarrow> attributes message 16;
         name \<leftarrow> find_string attrs IFLA_IFNAME;
         let info = unwrap_or (None, None)
           (unwrap_or None (find_attribute attrs IFLA_LINKINFO (\<lambda>value. Some (parse_link_info value))));
         Some \<lparr>l_interface_index = lm_interface_index lm,
           l_name = name,
           l_kind = fst info,
           l_hardware_type = lm_link_type lm,
           l_flags = link_flags (lm_flags lm),
           l_operational_state = link_operational_state attrs (lm_flags lm),
           l_carrier = map_option (\<lambda>carrier. carrier \<noteq> 0) (find_u8 attrs IFLA_CARRIER),
           l_mtu = find_native_u32 attrs IFLA_MTU,
           l_minimum_mtu = find_native_u32 attrs IFLA_MIN_MTU,
           l_maximum_mtu = find_native_u32 attrs IFLA_MAX_MTU,
           l_parent_index = find_native_u32 attrs IFLA_LINK,
           l_master_index = find_native_u32 attrs IFLA_MASTER,
           l_qdisc = find_string attrs IFLA_QDISC,
           l_transmit_queue_length = find_native_u32 attrs IFLA_TXQLEN,
           l_alias = option_filter (\<lambda>alias. alias \<noteq> []) (find_string attrs IFLA_IFALIAS),
           l_alternative_names = link_alternative_names attrs,
           l_vlan_id = snd info,
           l_group = find_native_u32 attrs IFLA_GROUP,
           l_promiscuity = find_native_u32 attrs IFLA_PROMISCUITY,
           l_transmit_queues = find_native_u32 attrs IFLA_NUM_TX_QUEUES,
           l_receive_queues = find_native_u32 attrs IFLA_NUM_RX_QUEUES,
           l_carrier_changes = find_native_u32 attrs IFLA_CARRIER_CHANGES,
           l_carrier_up_count = find_native_u32 attrs IFLA_CARRIER_UP_COUNT,
           l_carrier_down_count = find_native_u32 attrs IFLA_CARRIER_DOWN_COUNT,
           l_physical_port_name = find_string attrs IFLA_PHYS_PORT_NAME,
           l_parent_device_name = find_string attrs IFLA_PARENT_DEV_NAME,
           l_parent_device_bus_name = find_string attrs IFLA_PARENT_DEV_BUS_NAME\<rparr> }"

section \<open>Addresses of interfaces\<close>

definition parse_address :: "bytes \<Rightarrow> address option" where
  "parse_address message =
    do { payload \<leftarrow> get_from header_size message;
         am \<leftarrow> read_unaligned 8 address_message_of payload;
         if \<not> is_ip_family (am_family am) then None
         else do {
           attrs \<leftarrow> attributes message 8;
           let prefix_address = find_attribute attrs IFA_ADDRESS (ip_from_bytes (am_family am));
           local \<leftarrow> option_or (find_attribute attrs IFA_LOCAL (ip_from_bytes (am_family am)))
             prefix_address;
           let cache = find_attribute attrs IFA_CACHEINFO (read_unaligned 16 address_cache_info_of);
           Some \<lparr>a_local = local,
             a_prefix = am_prefix am,
             a_peer = option_filter (\<lambda>address. address \<noteq> local) prefix_address,
             a_broadcast = find_attribute attrs IFA_BROADCAST (ip_from_bytes (am_family am)),
             a_interface_index = am_interface_index am,
             a_label = find_attribute attrs IFA_LABEL nul_terminated_string,
             a_scope = address_scope (am_scope am),
             a_flags = address_flags
               (unwrap_or (ucast (am_flags am)) (find_attribute attrs IFA_FLAGS native_u32)),
             a_preferred_lifetime = Option.bind cache (\<lambda>c. finite_lifetime (ac_preferred c)),
             a_valid_lifetime = Option.bind cache (\<lambda>c. finite_lifetime (ac_valid c))\<rparr> } }"

section \<open>Routes\<close>

function parse_next_hops :: "bytes \<Rightarrow> u8 \<Rightarrow> nat \<Rightarrow> next_hop list" where
  "parse_next_hops value family offset =
    (if 8 \<le> length value - offset then
       (case read_unaligned 8 route_next_hop_of (drop offset value) of
          None \<Rightarrow> []
        | Some hop \<Rightarrow>
            let len = unat (rn_length hop)
            in if len < 8 \<or> length value - offset < len then []
               else
                 (let payload = take len (drop offset value)
                  in \<lparr>nh_gateway = Option.bind (attributes_from_offset payload 8)
                         (\<lambda>attrs. find_attribute attrs RTA_GATEWAY (ip_from_bytes family)),
                      nh_interface_index = rn_interface_index hop,
                      nh_weight = ucast (rn_hops hop) + 1,
                      nh_flags = next_hop_flags (rn_flags hop)\<rparr>
                     # parse_next_hops value family (offset + align_to_4 len)))
     else [])"
  by pat_completeness auto
termination
proof (relation "measure (\<lambda>(value, family, offset). length value - offset)", goal_cases)
  case (2 "value" family offset hop len payload)
  then show ?case
    using align_to_4_ge [of len] by auto
qed simp

declare parse_next_hops.simps [simp del]

definition parse_route :: "bytes \<Rightarrow> route option" where
  "parse_route message =
    do { payload \<leftarrow> get_from header_size message;
         rm \<leftarrow> read_unaligned 12 route_message_of payload;
         if \<not> is_ip_family (rm_family rm) then None
         else do {
           attrs \<leftarrow> attributes message 12;
           let ip = ip_from_bytes (rm_family rm);
           Some \<lparr>r_destination =
               unwrap_or (unspecified_address (rm_family rm)) (find_attribute attrs RTA_DST ip),
             r_prefix = rm_destination_prefix rm,
             r_source_prefix = option_filter (\<lambda>(_, prefix). prefix \<noteq> 0)
               (map_option (\<lambda>source. (source, rm_source_prefix rm)) (find_attribute attrs RTA_SRC ip)),
             r_gateway = find_attribute attrs RTA_GATEWAY ip,
             r_interface_index = find_attribute attrs RTA_OIF native_u32,
             r_metric = find_attribute attrs RTA_PRIORITY native_u32,
             r_source = find_attribute attrs RTA_PREFSRC ip,
             r_table = unwrap_or (ucast (rm_table rm)) (find_attribute attrs RTA_TABLE native_u32),
             r_protocol = route_protocol (rm_protocol rm),
             r_scope = route_scope (rm_scope rm),
             r_kind = route_kind (rm_route_type rm),
             r_next_hops = unwrap_or []
               (find_attribute attrs RTA_MULTIPATH
                 (\<lambda>value. Some (parse_next_hops value (rm_family rm) 0)))\<rparr> } }"

definition normalize_route_lookup :: "route \<Rightarrow> route" where
  "normalize_route_lookup route =
    (case r_source_prefix route of
       Some (source, _) \<Rightarrow>
         if is_unspecified source then route\<lparr>r_source_prefix := None\<rparr> else route
     | None \<Rightarrow> route)"

section \<open>Policy rules\<close>

definition parse_rule :: "bytes \<Rightarrow> rule option" where
  "parse_rule message =
    do { payload \<leftarrow> get_from header_size message;
         rm \<leftarrow> read_unaligned 12 rule_message_of payload;
         if \<not> is_ip_family (rum_family rm) then None
         else do {
           attrs \<leftarrow> attributes message 12;
           let ip = ip_from_bytes (rum_family rm);
           Some \<lparr>ru_family = (if rum_family rm = AF_INET then Ipv4 else Ipv6),
             ru_priority = unwrap_or 0 (find_native_u32 attrs FRA_PRIORITY),
             ru_source = map_option (\<lambda>a. (a, rum_source_prefix rm)) (find_attribute attrs FRA_SRC ip),
             ru_destination =
               map_option (\<lambda>a. (a, rum_destination_prefix rm)) (find_attribute attrs FRA_DST ip),
             ru_input_interface = find_string attrs FRA_IIFNAME,
             ru_output_interface = find_string attrs FRA_OIFNAME,
             ru_fwmark = find_native_u32 attrs FRA_FWMARK,
             ru_fwmask = find_native_u32 attrs FRA_FWMASK,
             ru_table = unwrap_or (ucast (rum_table rm)) (find_native_u32 attrs FRA_TABLE),
             ru_action = rule_action (rum_action rm),
             ru_goto = find_native_u32 attrs FRA_GOTO,
             ru_flags = rule_flags (rum_flags rm)\<rparr> } }"

section \<open>Neighbors\<close>

text \<open>\<open>clock_ticks_to_ms\<close>: \<open>sysconf(_SC_CLK_TCK)\<close> is a parameter (an \<open>isize\<close>); a
  negative or zero answer is replaced by 100.\<close>

definition ticks_per_second :: "u64 \<Rightarrow> u64" where
  "ticks_per_second sysconf = (if 0 < sint sysconf then sysconf else 100)"

definition clock_ticks_to_ms :: "u64 \<Rightarrow> u32 \<Rightarrow> u64" where
  "clock_ticks_to_ms sysconf ticks = saturating_mul (ucast ticks) 1000 div ticks_per_second sysconf"

definition is_reportable_neighbor :: "u8 \<Rightarrow> u16 \<Rightarrow> bool \<Rightarrow> bool \<Rightarrow> bool" where
  "is_reportable_neighbor family state removed has_link \<longleftrightarrow>
    is_ip_family family \<and> state AND NUD_NOARP = 0
    \<and> (state AND (NUD_INCOMPLETE OR NUD_FAILED) = 0 \<or> (removed \<and> has_link))"

record neighbor_fields =
  nf_address :: "ip_addr option"
  nf_link_address :: "string option"
  nf_cache :: "neighbor_cache_info option"
  nf_probes :: "u32 option"
  nf_master_index :: "i32 option"
  nf_protocol :: "string option"
  nf_extended_flags :: u32

definition neighbor_fields_initial :: neighbor_fields where
  "neighbor_fields_initial =
    \<lparr>nf_address = None, nf_link_address = None, nf_cache = None, nf_probes = None,
     nf_master_index = None, nf_protocol = None, nf_extended_flags = 0\<rparr>"

text \<open>One attribute of the loop of \<open>parse_neighbor\<close>: a later attribute of the same kind
  replaces what an earlier one left, even by nothing.\<close>

definition neighbor_attribute :: "u8 \<Rightarrow> u16 \<times> bytes \<Rightarrow> neighbor_fields \<Rightarrow> neighbor_fields" where
  "neighbor_attribute family a s =
    (let kind = fst a; v = snd a
     in if kind = NDA_DST then s\<lparr>nf_address := ip_from_bytes family v\<rparr>
        else if kind = NDA_LLADDR \<and> v \<noteq> [] then s\<lparr>nf_link_address := Some (format_link_address v)\<rparr>
        else if kind = NDA_CACHEINFO then s\<lparr>nf_cache := read_unaligned 16 neighbor_cache_info_of v\<rparr>
        else if kind = NDA_PROBES then s\<lparr>nf_probes := native_u32 v\<rparr>
        else if kind = NDA_MASTER then s\<lparr>nf_master_index := native_u32 v\<rparr>
        else if kind = NDA_PROTOCOL then s\<lparr>nf_protocol := map_option route_protocol (first_opt v)\<rparr>
        else if kind = NDA_FLAGS_EXT then s\<lparr>nf_extended_flags := unwrap_or 0 (native_u32 v)\<rparr>
        else s)"

function neighbor_attributes :: "bytes \<Rightarrow> u8 \<Rightarrow> nat \<Rightarrow> neighbor_fields \<Rightarrow> neighbor_fields option" where
  "neighbor_attributes message family offset s =
    (if 4 \<le> length message - offset then
       (case read_unaligned 4 route_attribute_of (drop offset message) of
          None \<Rightarrow> None
        | Some attribute \<Rightarrow>
            let len = unat (ra_length attribute)
            in if len < 4 \<or> length message - offset < len then None
               else neighbor_attributes message family (offset + align_to_4 len)
                 (neighbor_attribute family
                   (ra_attribute_type attribute AND NLA_TYPE_MASK,
                    take (len - 4) (drop (offset + 4) message)) s))
     else Some s)"
  by pat_completeness auto
termination
proof (relation "measure (\<lambda>(message, family, offset, s). length message - offset)", goal_cases)
  case (2 message family offset s attribute len)
  then show ?case
    using align_to_4_ge [of len] by auto
qed simp

declare neighbor_attributes.simps [simp del]

definition parse_neighbor :: "u64 \<Rightarrow> bytes \<Rightarrow> bool \<Rightarrow> neighbor option" where
  "parse_neighbor sysconf message removed =
    do { payload \<leftarrow> get_from header_size message;
         nm \<leftarrow> read_unaligned 12 neighbor_message_of payload;
         if \<not> is_ip_family (nm_family nm) then None
         else do {
           s \<leftarrow> neighbor_attributes message (nm_family nm) (align_to_4 (header_size + 12))
             neighbor_fields_initial;
           if \<not> is_reportable_neighbor (nm_family nm) (nm_state nm) removed (nf_link_address s \<noteq> None)
           then None
           else do {
             address \<leftarrow> nf_address s;
             let age = (\<lambda>select. map_option (\<lambda>c. clock_ticks_to_ms sysconf (select c)) (nf_cache s));
             Some \<lparr>n_address = address,
               n_link_address = nf_link_address s,
               n_interface_index = nm_interface_index nm,
               n_state = neighbor_state (nm_state nm),
               n_flags = neighbor_flags (nm_flags nm) (nf_extended_flags s),
               n_protocol = nf_protocol s,
               n_kind = route_kind (nm_message_type nm),
               n_probes = nf_probes s,
               n_confirmed_ms_ago = age nc_confirmed,
               n_used_ms_ago = age nc_used,
               n_updated_ms_ago = age nc_updated,
               n_reference_count = map_option nc_reference_count (nf_cache s),
               n_master_index = nf_master_index s\<rparr> } } }"

end
