(* ===== verification/Message_Loop.thy ===== *)
theory Message_Loop
  imports Netlink_Wire
begin

text \<open>
  The two loops that every netlink receiver of the sources nests: the walk over the messages
  of one datagram, with the length checks of \<open>while response.len().saturating_sub(offset) >=
  size_of::<MessageHeader>()\<close>, and the loop that receives datagrams until the body returns.
  The socket is a script of what \<open>recv\<close> will report, so a call that would wait for ever is
  the value \<open>None\<close>. The walk is shown equal to running its body over the list of
  messages of the datagram (\<open>frames\<close>).
\<close>

section \<open>The messages of one datagram\<close>

text \<open>The body of a loop either goes on with a new state or returns from the function.\<close>

datatype ('s, 'r) flow = Continue 's | Return "'r result"

text \<open>The shared loop of \<open>parse_events\<close>, \<open>parse_response\<close>, \<open>parse_address_response\<close>,
  \<open>receive_dump\<close>, \<open>receive_route_lookup\<close> (\<open>netlink.rs\<close>), \<open>parse_messages\<close>,
  \<open>response_has_done\<close> (\<open>generic_netlink.rs\<close>) and \<open>receive_dump\<close> (\<open>sock_diag.rs\<close>).
  The two texts are the messages of the errors for a truncated header and a bad length.\<close>

function message_loop ::
  "string \<Rightarrow> string \<Rightarrow> (message_header \<Rightarrow> bytes \<Rightarrow> 's \<Rightarrow> ('s, 'r) flow) \<Rightarrow> bytes \<Rightarrow> nat \<Rightarrow> 's
    \<Rightarrow> ('s, 'r) flow" where
  "message_loop truncated invalid step response offset s =
    (if header_size \<le> length response - offset then
       (case read_unaligned header_size message_header_of (drop offset response) of
          None \<Rightarrow> Return (Err (Custom InvalidData truncated))
        | Some header \<Rightarrow>
            let len = unat (mh_length header)
            in if len < header_size \<or> length response - offset < len
               then Return (Err (Custom InvalidData invalid))
               else
                 (case step header (take len (drop offset response)) s of
                    Return r \<Rightarrow> Return r
                  | Continue s' \<Rightarrow>
                      message_loop truncated invalid step response (offset + align_to_4 len) s'))
     else Continue s)"
  by pat_completeness auto
termination
proof (relation "measure (\<lambda>(_, _, _, response, offset, _). length response - offset)", goal_cases)
  case (2 truncated invalid step response offset s header len s')
  then show ?case
    using align_to_4_ge [of len] by auto
qed simp

declare message_loop.simps [simp del]

text \<open>The messages of a datagram, and whether the walk reaches its end.\<close>

function frames :: "bytes \<Rightarrow> nat \<Rightarrow> bytes list \<times> bool" where
  "frames response offset =
    (if header_size \<le> length response - offset then
       (let len = unat (mh_length (message_header_of (drop offset response)))
        in if len < header_size \<or> length response - offset < len then ([], False)
           else
             (case frames response (offset + align_to_4 len) of
                (messages, complete) \<Rightarrow> (take len (drop offset response) # messages, complete)))
     else ([], True))"
  by pat_completeness auto
termination
proof (relation "measure (\<lambda>(response, offset). length response - offset)", goal_cases)
  case (2 response offset len)
  then show ?case
    using align_to_4_ge [of len] by auto
qed simp

declare frames.simps [simp del]

fun run_steps ::
  "(message_header \<Rightarrow> bytes \<Rightarrow> 's \<Rightarrow> ('s, 'r) flow) \<Rightarrow> bytes list \<Rightarrow> 's \<Rightarrow> ('s, 'r) flow" where
  "run_steps step [] s = Continue s"
| "run_steps step (m # ms) s =
    (case step (message_header_of m) m s of
       Return r \<Rightarrow> Return r
     | Continue s' \<Rightarrow> run_steps step ms s')"

lemma message_header_of_take:
  "16 \<le> n \<Longrightarrow> message_header_of (take n bs) = message_header_of bs"
  by (simp add: message_header_of_def field_def drop_take min_def)

lemma message_loop_frames:
  "message_loop truncated invalid step response offset s =
    (case frames response offset of (messages, complete) \<Rightarrow>
       (case run_steps step messages s of
          Return r \<Rightarrow> Return r
        | Continue s' \<Rightarrow>
            if complete then Continue s' else Return (Err (Custom InvalidData invalid))))"
proof (induction truncated invalid step response offset s rule: message_loop.induct)
  case (1 truncated invalid step response offset s)
  let ?h = "message_header_of (drop offset response)"
  let ?len = "unat (mh_length ?h)"
  let ?m = "take ?len (drop offset response)"
  show ?case
  proof (cases "16 \<le> length response - offset")
    case False
    then show ?thesis
      by (simp add: message_loop.simps [of _ _ _ _ _ s] frames.simps [of response offset])
  next
    case True
    have read: "read_unaligned 16 message_header_of (drop offset response) = Some ?h"
      using True by (simp add: read_unaligned_def)
    show ?thesis
    proof (cases "?len < 16 \<or> length response - offset < ?len")
      case bad: True
      with True read show ?thesis
        by (simp add: message_loop.simps [of _ _ _ _ _ s] frames.simps [of response offset])
    next
      case good: False
      obtain messages complete where
        nxt: "frames response (offset + align_to_4 ?len) = (messages, complete)"
        by (cases "frames response (offset + align_to_4 ?len)")
      have header: "message_header_of ?m = ?h"
        using good by (simp add: message_header_of_take)
      show ?thesis
        using True read good nxt header "1.IH" [OF True read refl good]
        by (cases "step ?h ?m s")
          (simp_all add: message_loop.simps [of _ _ _ _ _ s] frames.simps [of response offset] Let_def)
    qed
  qed
qed

text \<open>Every message lies inside the datagram and carries its own length.\<close>

lemma frames_length:
  "frames response offset = (messages, complete) \<Longrightarrow> m \<in> set messages \<Longrightarrow>
    16 \<le> length m \<and> length m = unat (mh_length (message_header_of m)) \<and> length m \<le> length response"
proof (induction response offset arbitrary: messages complete rule: frames.induct)
  case (1 response offset)
  let ?len = "unat (mh_length (message_header_of (drop offset response)))"
  show ?case
  proof (cases "16 \<le> length response - offset \<and> \<not> (?len < 16 \<or> length response - offset < ?len)")
    case False
    with "1.prems" show ?thesis
      by (auto simp: frames.simps [of response offset] Let_def split: if_splits)
  next
    case True
    then have guard: "16 \<le> length response - offset"
      and good: "\<not> (?len < 16 \<or> length response - offset < ?len)"
      by auto
    obtain rest complete' where
      nxt: "frames response (offset + align_to_4 ?len) = (rest, complete')"
      by (cases "frames response (offset + align_to_4 ?len)")
    with "1.prems"(1) guard good have
      messages: "messages = take ?len (drop offset response) # rest"
      by (simp add: frames.simps [of response offset] Let_def)
    show ?thesis
      using "1.prems"(2) messages guard good "1.IH" [OF guard refl good nxt]
      by (auto simp: message_header_of_take)
  qed
qed

section \<open>Datagrams laid out by a sender\<close>

definition frame_list :: "bytes \<Rightarrow> nat \<Rightarrow> bytes list option" where
  "frame_list response offset =
    (case frames response offset of (messages, complete) \<Rightarrow> if complete then Some messages else None)"

definition framed :: "bytes \<Rightarrow> bool" where
  "framed m \<longleftrightarrow> 16 \<le> length m \<and> unat (mh_length (message_header_of m)) = length m"

lemma message_header_of_append: "16 \<le> length m \<Longrightarrow> message_header_of (m @ rest) = message_header_of m"
  using message_header_of_take [of "length m" "m @ rest"] by simp

lemma frames_end: "length bs < offset + 16 \<Longrightarrow> frames bs offset = ([], True)"
proof -
  assume "length bs < offset + 16"
  then have "\<not> 16 \<le> length bs - offset"
    by linarith
  then show ?thesis
    by (simp add: frames.simps [of bs offset])
qed

lemma frames_record:
  assumes "framed m"
  shows "frames (pre @ pad_to_4 m @ rest) (length pre) =
    (case frames (pre @ pad_to_4 m @ rest) (length pre + length (pad_to_4 m)) of
       (messages, complete) \<Rightarrow> (m # messages, complete))"
proof -
  let ?pad = "replicate (align_to_4 (length m) - length m) 0 :: bytes"
  have padded: "pad_to_4 m = m @ ?pad"
    by (simp add: pad_to_4_def)
  from assms have size: "16 \<le> length m" and len: "unat (mh_length (message_header_of m)) = length m"
    by (simp_all add: framed_def)
  have header: "message_header_of (pad_to_4 m @ rest) = message_header_of m"
    using size by (simp add: padded message_header_of_append)
  show ?thesis
    using size len header align_to_4_ge [of "length m"]
    by (subst frames.simps) (simp add: padded split: prod.splits)
qed

interpretation message_frames: record_stream frame_list pad_to_4 "\<lambda>m. m" framed 16
proof unfold_locales
  fix bs :: bytes and offset :: nat
  assume "length bs < offset + 16"
  then show "frame_list bs offset = Some []"
    by (simp add: frame_list_def frames_end)
next
  fix m pre rest
  assume "framed m"
  then show "frame_list (pre @ pad_to_4 m @ rest) (length pre) =
      map_option ((#) m) (frame_list (pre @ pad_to_4 m @ rest) (length pre + length (pad_to_4 m)))"
    by (simp add: frame_list_def frames_record split: prod.splits)
qed

lemma frames_concat:
  assumes "list_all framed ms"
  shows "frames (concat (map pad_to_4 ms)) 0 = (ms, True)"
  using message_frames.decode_concat [OF assms, of "[]" "[]"]
  by (auto simp: frame_list_def split: prod.splits if_splits)

section \<open>Receiving datagrams\<close>

datatype recv_outcome = Received bytes | RecvFailed i32

text \<open>\<open>receive\<close>: a call that is interrupted is repeated, an empty datagram is the end of
  the socket, and a datagram longer than the buffer is cut.\<close>

fun receive :: "nat \<Rightarrow> string \<Rightarrow> recv_outcome list \<Rightarrow> (bytes result \<times> recv_outcome list) option" where
  "receive capacity closed [] = None"
| "receive capacity closed (RecvFailed code # rest) =
    (if kind_of (Os code) = Interrupted then receive capacity closed rest
     else Some (Err (Os code), rest))"
| "receive capacity closed (Received data # rest) =
    (let received = take capacity data
     in if received = [] then Some (Err (Custom UnexpectedEof closed), rest)
        else Some (Ok received, rest))"

lemma receive_shorter: "receive capacity closed script = Some (r, rest) \<Longrightarrow> length rest < length script"
  by (induction capacity closed script rule: receive.induct) (auto simp: Let_def split: if_splits)

text \<open>\<open>loop { let received = receive(...)?; body }\<close>.\<close>

function receive_loop ::
  "nat \<Rightarrow> string \<Rightarrow> (bytes \<Rightarrow> 's \<Rightarrow> ('s, 'r) flow) \<Rightarrow> recv_outcome list \<Rightarrow> 's
    \<Rightarrow> ('r result \<times> recv_outcome list) option" where
  "receive_loop capacity closed body script s =
    (case receive capacity closed script of
       None \<Rightarrow> None
     | Some (Err e, rest) \<Rightarrow> Some (Err e, rest)
     | Some (Ok datagram, rest) \<Rightarrow>
         (case body datagram s of
            Return r \<Rightarrow> Some (r, rest)
          | Continue s' \<Rightarrow> receive_loop capacity closed body rest s'))"
  by pat_completeness auto
termination
  by (relation "measure (\<lambda>(_, _, _, script, _). length script)") (auto dest: receive_shorter)

declare receive_loop.simps [simp del]

lemma receive_loop_Nil [simp]: "receive_loop capacity closed body [] s = None"
  by (simp add: receive_loop.simps)

lemma receive_loop_failed [simp]:
  "receive_loop capacity closed body (RecvFailed code # rest) s =
    (if kind_of (Os code) = Interrupted then receive_loop capacity closed body rest s
     else Some (Err (Os code), rest))"
  using receive_loop.simps [of capacity closed body "RecvFailed code # rest" s]
    receive_loop.simps [of capacity closed body rest s]
  by simp

lemma receive_loop_received [simp]:
  "receive_loop capacity closed body (Received data # rest) s =
    (if take capacity data = [] then Some (Err (Custom UnexpectedEof closed), rest)
     else case body (take capacity data) s of
       Return r \<Rightarrow> Some (r, rest)
     | Continue s' \<Rightarrow> receive_loop capacity closed body rest s')"
  by (subst receive_loop.simps) (simp add: Let_def)

text \<open>An invariant of the state that the body keeps, and that its results respect, holds for
  the result of the loop.\<close>

lemma receive_loop_invariant:
  assumes "receive_loop capacity closed body script s = Some (Ok x, rest)"
    and "I s"
    and "\<And>d s s'. I s \<Longrightarrow> body d s = Continue s' \<Longrightarrow> I s'"
    and "\<And>d s x. I s \<Longrightarrow> body d s = Return (Ok x) \<Longrightarrow> P x"
  shows "P x"
  using assms(1,2)
proof (induction script arbitrary: s)
  case (Cons event script)
  show ?case
  proof (cases event)
    case (Received data)
    with Cons assms(3,4) show ?thesis
      by (auto split: if_splits flow.splits)
  next
    case (RecvFailed code)
    with Cons show ?thesis
      by (auto split: if_splits)
  qed
qed simp

section \<open>Error messages\<close>

definition read_i32 :: "bytes \<Rightarrow> nat \<Rightarrow> i32 option" where
  "read_i32 bs offset = Option.bind (get_from offset bs) (read_unaligned 4 (field 4 0))"

definition parse_netlink_error :: "bytes \<Rightarrow> unit result" where
  "parse_netlink_error message =
    (case read_i32 message header_size of
       None \<Rightarrow> Err (Custom InvalidData ''truncated netlink error'')
     | Some error \<Rightarrow> if error = 0 then Ok () else Err (Os (- error)))"

end
