(* ===== verification/Netlink_Dump.thy ===== *)
theory Netlink_Dump
  imports Netlink_Records Message_Loop
begin

text \<open>
  The snapshots of \<open>netlink.rs\<close>: opening a route socket, the requests and their bytes,
  \<open>send_request\<close>, the receive loops with their two styles of parsing a reply
  (\<open>receive_dump\<close>, and \<open>parse_response\<close>/\<open>parse_address_response\<close>), the dump of each
  table per address family and for both, and the lookup of one route. The kernel is a
  parameter: what its calls answer, and the datagrams it sends for a request.
\<close>

section \<open>The kernel's side\<close>

text \<open>The answers to \<open>socket\<close> and \<open>bind\<close> are error numbers or nothing; \<open>sendto\<close> answers an
  error number or how many bytes it took; the rest is what \<open>recv\<close> reports from then on.\<close>

record kernel =
  k_socket :: "i32 option"
  k_bind :: "bytes \<Rightarrow> i32 option"
  k_sendto :: "bytes \<Rightarrow> i32 + nat"
  k_replies :: "bytes \<Rightarrow> recv_outcome list"

text \<open>The \<open>?\<close> operator on a call that may block for ever (\<open>None\<close>).\<close>

fun question :: "'a result \<Rightarrow> ('a \<Rightarrow> 'b result option) \<Rightarrow> 'b result option" where
  "question (Err e) f = Some (Err e)"
| "question (Ok x) f = f x"

record socket_address =
  sn_family :: u16
  sn_padding :: u16
  sn_port_id :: u32
  sn_groups :: u32

definition socket_address_bytes :: "socket_address \<Rightarrow> bytes" where
  "socket_address_bytes a =
    to_le_bytes 2 (sn_family a) @ to_le_bytes 2 (sn_padding a) @ to_le_bytes 4 (sn_port_id a)
    @ to_le_bytes 4 (sn_groups a)"

definition open_route_socket :: "kernel \<Rightarrow> u32 \<Rightarrow> unit result" where
  "open_route_socket k groups =
    (case k_socket k of
       Some code \<Rightarrow> Err (Os code)
     | None \<Rightarrow>
         (case k_bind k (socket_address_bytes
            \<lparr>sn_family = ucast AF_NETLINK, sn_padding = 0, sn_port_id = 0, sn_groups = groups\<rparr>) of
            Some code \<Rightarrow> Err (Os code)
          | None \<Rightarrow> Ok ()))"

definition send_request :: "kernel \<Rightarrow> bytes \<Rightarrow> unit result" where
  "send_request k request =
    (case k_sendto k request of
       Inl code \<Rightarrow> Err (Os code)
     | Inr sent \<Rightarrow>
         if sent \<noteq> length request then Err (Custom WriteZero ''incomplete netlink request'')
         else Ok ())"

section \<open>Requests\<close>

definition request_header :: "nat \<Rightarrow> u16 \<Rightarrow> u16 \<Rightarrow> u32 \<Rightarrow> message_header" where
  "request_header size_of message_type flags sequence =
    \<lparr>mh_length = of_nat size_of, mh_message_type = message_type, mh_flags = flags,
     mh_sequence = sequence, mh_port_id = 0\<rparr>"

definition neighbor_request :: "u8 \<Rightarrow> bytes" where
  "neighbor_request family =
    message_header_bytes (request_header 28 RTM_GETNEIGH (NLM_F_REQUEST OR NLM_F_DUMP) REQUEST_SEQUENCE)
    @ neighbor_message_bytes
        \<lparr>nm_family = family, nm_interface_index = 0, nm_state = 0, nm_flags = 0, nm_message_type = 0\<rparr>"

definition send_neighbor_request :: "kernel \<Rightarrow> u8 \<Rightarrow> unit result" where
  "send_neighbor_request k family = send_request k (neighbor_request family)"

definition address_request :: "u8 \<Rightarrow> bytes" where
  "address_request family =
    message_header_bytes (request_header 24 RTM_GETADDR (NLM_F_REQUEST OR NLM_F_DUMP) ADDRESS_SEQUENCE)
    @ address_message_bytes
        \<lparr>am_family = family, am_prefix = 0, am_flags = 0, am_scope = 0, am_interface_index = 0\<rparr>"

definition send_address_request :: "kernel \<Rightarrow> u8 \<Rightarrow> unit result" where
  "send_address_request k family = send_request k (address_request family)"

definition empty_route_message :: "u8 \<Rightarrow> u8 \<Rightarrow> route_message" where
  "empty_route_message family destination_prefix =
    \<lparr>rm_family = family, rm_destination_prefix = destination_prefix, rm_source_prefix = 0, rm_tos = 0,
     rm_table = 0, rm_protocol = 0, rm_scope = 0, rm_route_type = 0, rm_flags = 0\<rparr>"

definition route_dump_request :: "u8 \<Rightarrow> bytes" where
  "route_dump_request family =
    message_header_bytes (request_header 28 RTM_GETROUTE (NLM_F_REQUEST OR NLM_F_DUMP) ROUTE_DUMP_SEQUENCE)
    @ route_message_bytes (empty_route_message family 0)"

definition rule_request :: "u8 \<Rightarrow> bytes" where
  "rule_request family =
    message_header_bytes (request_header 28 RTM_GETRULE (NLM_F_REQUEST OR NLM_F_DUMP) RULE_DUMP_SEQUENCE)
    @ rule_message_bytes
        \<lparr>rum_family = family, rum_destination_prefix = 0, rum_source_prefix = 0, rum_tos = 0,
         rum_table = 0, rum_action = 0, rum_flags = 0\<rparr>"

definition link_request :: bytes where
  "link_request =
    message_header_bytes (request_header 32 RTM_GETLINK (NLM_F_REQUEST OR NLM_F_DUMP) LINK_DUMP_SEQUENCE)
    @ link_message_bytes
        \<lparr>lm_family = 0, lm_link_type = 0, lm_interface_index = 0, lm_flags = 0, lm_change = 0\<rparr>"

definition ROUTE_SEQUENCE :: u32 where [simp]: "ROUTE_SEQUENCE = 2"

definition route_request :: "ipv4_addr \<Rightarrow> bytes" where
  "route_request destination =
    message_header_bytes (request_header 36 RTM_GETROUTE NLM_F_REQUEST ROUTE_SEQUENCE)
    @ route_message_bytes (empty_route_message AF_INET 32)
    @ route_attribute_bytes \<lparr>ra_length = of_nat (4 + 4), ra_attribute_type = RTA_DST\<rparr>
    @ ipv4_octets destination"

definition route_request6 :: "ipv6_addr \<Rightarrow> bytes" where
  "route_request6 destination =
    message_header_bytes (request_header 48 RTM_GETROUTE NLM_F_REQUEST ROUTE_SEQUENCE)
    @ route_message_bytes (empty_route_message AF_INET6 128)
    @ route_attribute_bytes \<lparr>ra_length = of_nat (4 + 16), ra_attribute_type = RTA_DST\<rparr>
    @ ipv6_octets destination"

section \<open>Replies\<close>

text \<open>The end of a dump: the kernel reports an interrupted dump by a flag and a failed one by
  an error number in the payload.\<close>

definition dump_done :: "string \<Rightarrow> message_header \<Rightarrow> bytes \<Rightarrow> 'r \<Rightarrow> 'r result" where
  "dump_done name header message result =
    (if mh_flags header AND NLM_F_DUMP_INTR \<noteq> 0
     then Err (Custom Interrupted (name @ '' table changed during the netlink dump''))
     else
       (case read_i32 message header_size of
          Some error \<Rightarrow> if error \<noteq> 0 then Err (Os (- error)) else Ok result
        | None \<Rightarrow> Ok result))"

definition dump_overrun :: "string \<Rightarrow> io_error" where
  "dump_overrun name = Custom Other (''netlink '' @ name @ '' dump overran the receive buffer'')"

text \<open>The body of \<open>receive_dump\<close> for one message.\<close>

definition dump_step ::
  "string \<Rightarrow> u32 \<Rightarrow> u16 \<Rightarrow> (bytes \<Rightarrow> 't option) \<Rightarrow> message_header \<Rightarrow> bytes \<Rightarrow> 't list
    \<Rightarrow> ('t list, 't list) flow" where
  "dump_step name expected_sequence expected_type parse header message values =
    (if mh_sequence header = expected_sequence then
       if mh_message_type header = NLMSG_DONE then Return (dump_done name header message values)
       else if mh_message_type header = NLMSG_ERROR then
         (case parse_netlink_error message of Err e \<Rightarrow> Return (Err e) | Ok _ \<Rightarrow> Continue values)
       else if mh_message_type header = NLMSG_OVERRUN then Return (Err (dump_overrun name))
       else if mh_message_type header = expected_type then
         Continue (case parse message of Some v \<Rightarrow> values @ [v] | None \<Rightarrow> values)
       else Continue values
     else Continue values)"

definition receive_dump ::
  "recv_outcome list \<Rightarrow> u32 \<Rightarrow> u16 \<Rightarrow> string \<Rightarrow> (bytes \<Rightarrow> 't option)
    \<Rightarrow> ('t list result \<times> recv_outcome list) option" where
  "receive_dump script expected_sequence expected_type name parse =
    receive_loop (64 * 1024) ''netlink socket closed''
      (\<lambda>datagram values.
        message_loop (''truncated '' @ name @ '' header'') (''invalid '' @ name @ '' message length'')
          (dump_step name expected_sequence expected_type parse) datagram 0 values)
      script []"

text \<open>\<open>parse_response\<close> and \<open>parse_address_response\<close> handle one datagram and report whether
  the dump is over. An acknowledgement (an error message with code 0) ends the datagram.\<close>

definition response_step ::
  "string \<Rightarrow> u32 \<Rightarrow> u16 \<Rightarrow> (bytes \<Rightarrow> 't option) \<Rightarrow> message_header \<Rightarrow> bytes \<Rightarrow> 't list
    \<Rightarrow> ('t list, 't list \<times> bool) flow" where
  "response_step name expected_sequence expected_type parse header message values =
    (if mh_sequence header = expected_sequence then
       if mh_message_type header = NLMSG_DONE then Return (dump_done name header message (values, True))
       else if mh_message_type header = NLMSG_ERROR then
         (case parse_netlink_error message of
            Err e \<Rightarrow> Return (Err e)
          | Ok _ \<Rightarrow> Return (Ok (values, False)))
       else if mh_message_type header = NLMSG_OVERRUN then Return (Err (dump_overrun name))
       else if mh_message_type header = expected_type then
         Continue (case parse message of Some v \<Rightarrow> values @ [v] | None \<Rightarrow> values)
       else Continue values
     else Continue values)"

definition finish_response :: "('t list, 't list \<times> bool) flow \<Rightarrow> ('t list \<times> bool) result" where
  "finish_response outcome =
    (case outcome of Return r \<Rightarrow> r | Continue values \<Rightarrow> Ok (values, False))"

definition parse_response ::
  "u64 \<Rightarrow> bytes \<Rightarrow> u32 \<Rightarrow> neighbor list \<Rightarrow> (neighbor list \<times> bool) result" where
  "parse_response sysconf response expected_sequence neighbors =
    finish_response
      (message_loop ''truncated netlink header'' ''invalid netlink message length''
        (response_step ''neighbor'' expected_sequence RTM_NEWNEIGH
          (\<lambda>message. parse_neighbor sysconf message False))
        response 0 neighbors)"

definition parse_address_response ::
  "bytes \<Rightarrow> u32 \<Rightarrow> address list \<Rightarrow> (address list \<times> bool) result" where
  "parse_address_response response expected_sequence addresses =
    finish_response
      (message_loop ''truncated address dump header'' ''invalid address dump message length''
        (response_step ''address'' expected_sequence RTM_NEWADDR parse_address) response 0 addresses)"

text \<open>\<open>if parse_response(...)? { break; }\<close> in the loop that receives the datagrams.\<close>

definition until_done ::
  "(bytes \<Rightarrow> 't list \<Rightarrow> ('t list \<times> bool) result) \<Rightarrow> bytes \<Rightarrow> 't list \<Rightarrow> ('t list, 't list) flow" where
  "until_done parse datagram values =
    (case parse datagram values of
       Err e \<Rightarrow> Return (Err e)
     | Ok (values', complete) \<Rightarrow> if complete then Return (Ok values') else Continue values')"

section \<open>Snapshots\<close>

definition neighbor_key :: "neighbor \<Rightarrow> int \<times> ip_addr" where
  "neighbor_key n = (sint (n_interface_index n), n_address n)"

definition address_key :: "address \<Rightarrow> int \<times> ip_addr" where
  "address_key a = (sint (a_interface_index a), a_local a)"

definition ip_address_key :: "address \<Rightarrow> int \<times> ip_addr \<times> u8" where
  "ip_address_key a = (sint (a_interface_index a), a_local a, a_prefix a)"

definition route_key :: "route \<Rightarrow> u32 \<times> ip_addr \<times> u8 \<times> u32 option" where
  "route_key r = (r_table r, r_destination r, r_prefix r, r_metric r)"

definition link_key :: "link \<Rightarrow> int" where
  "link_key l = sint (l_interface_index l)"

text \<open>What a dump does with the values it received.\<close>

fun after_dump ::
  "('t list \<Rightarrow> 't list) \<Rightarrow> ('t list result \<times> recv_outcome list) option \<Rightarrow> 't list result option" where
  "after_dump f None = None"
| "after_dump f (Some (Err e, _)) = Some (Err e)"
| "after_dump f (Some (Ok values, _)) = Some (Ok (f values))"

definition neighbors :: "u64 \<Rightarrow> kernel \<Rightarrow> u8 \<Rightarrow> neighbor list result option" where
  "neighbors sysconf k family =
    question (open_route_socket k 0) (\<lambda>_.
    question (send_neighbor_request k family) (\<lambda>_.
    after_dump
      (\<lambda>values. sort_key neighbor_key
        (filter (\<lambda>n. ip_address_matches_family (n_address n) family) values))
      (receive_loop (64 * 1024) ''netlink socket closed before the dump completed''
        (until_done (\<lambda>datagram. parse_response sysconf datagram REQUEST_SEQUENCE))
        (k_replies k (neighbor_request family)) [])))"

definition addresses_for_family :: "kernel \<Rightarrow> u8 \<Rightarrow> address list result option" where
  "addresses_for_family k family =
    question (open_route_socket k 0) (\<lambda>_.
    question (send_address_request k family) (\<lambda>_.
    after_dump
      (\<lambda>values. sort_key address_key
        (filter (\<lambda>a. ip_address_matches_family (a_local a) family) values))
      (receive_loop (64 * 1024) ''netlink socket closed''
        (until_done (\<lambda>datagram. parse_address_response datagram ADDRESS_SEQUENCE))
        (k_replies k (address_request family)) [])))"

definition routes_for_family :: "kernel \<Rightarrow> u8 \<Rightarrow> route list result option" where
  "routes_for_family k family =
    question (open_route_socket k 0) (\<lambda>_.
    question (send_request k (route_dump_request family)) (\<lambda>_.
    after_dump
      (\<lambda>values. sort_key route_key
        (filter (\<lambda>r. ip_address_matches_family (r_destination r) family) values))
      (receive_dump (k_replies k (route_dump_request family)) ROUTE_DUMP_SEQUENCE RTM_NEWROUTE
        ''route'' parse_route)))"

definition rules_for_family :: "kernel \<Rightarrow> u8 \<Rightarrow> rule list result option" where
  "rules_for_family k family =
    question (open_route_socket k 0) (\<lambda>_.
    question (send_request k (rule_request family)) (\<lambda>_.
    after_dump
      (\<lambda>values. sort_key ru_priority
        (filter (\<lambda>r. ip_family_matches_family (ru_family r) family) values))
      (receive_dump (k_replies k (rule_request family)) RULE_DUMP_SEQUENCE RTM_NEWRULE
        ''rule'' parse_rule)))"

definition links :: "kernel \<Rightarrow> link list result option" where
  "links k =
    question (open_route_socket k 0) (\<lambda>_.
    question (send_request k link_request) (\<lambda>_.
    after_dump (sort_key link_key)
      (receive_dump (k_replies k link_request) LINK_DUMP_SEQUENCE RTM_NEWLINK ''link'' parse_link)))"

section \<open>Both families\<close>

definition ipv6_unavailable :: "io_error \<Rightarrow> bool" where
  "ipv6_unavailable error \<longleftrightarrow> raw_os_error error = Some 93 \<or> raw_os_error error = Some 97"

fun extend_ipv6 :: "('t \<Rightarrow> 'k::linorder) \<Rightarrow> 't list result \<Rightarrow> 't list result \<Rightarrow> 't list result" where
  "extend_ipv6 key (Err e) _ = Err e"
| "extend_ipv6 key (Ok entries) (Ok ipv6) = Ok (sort_key key (entries @ ipv6))"
| "extend_ipv6 key (Ok entries) (Err e) =
    (if ipv6_unavailable e then Ok (sort_key key entries) else Err e)"

interpretation ip_snapshot: dual_stack "extend_ipv6 key" key ipv6_unavailable
  for key :: "'t \<Rightarrow> 'k::linorder"
  by unfold_locales simp_all

text \<open>The second dump runs after the first one has succeeded; either may block.\<close>

definition both_families ::
  "('t \<Rightarrow> 'k::linorder) \<Rightarrow> 't list result option \<Rightarrow> 't list result option \<Rightarrow> 't list result option" where
  "both_families key ipv4 ipv6 =
    (case ipv4 of
       None \<Rightarrow> None
     | Some (Err e) \<Rightarrow> Some (Err e)
     | Some (Ok entries) \<Rightarrow> map_option (extend_ipv6 key (Ok entries)) ipv6)"

definition ip_neighbors :: "u64 \<Rightarrow> kernel \<Rightarrow> kernel \<Rightarrow> neighbor list result option" where
  "ip_neighbors sysconf k4 k6 =
    both_families neighbor_key (neighbors sysconf k4 AF_INET) (neighbors sysconf k6 AF_INET6)"

definition ip_addresses :: "kernel \<Rightarrow> kernel \<Rightarrow> address list result option" where
  "ip_addresses k4 k6 =
    both_families ip_address_key (addresses_for_family k4 AF_INET) (addresses_for_family k6 AF_INET6)"

definition ip_routes :: "kernel \<Rightarrow> kernel \<Rightarrow> route list result option" where
  "ip_routes k4 k6 =
    both_families route_key (routes_for_family k4 AF_INET) (routes_for_family k6 AF_INET6)"

definition ip_rules :: "kernel \<Rightarrow> kernel \<Rightarrow> rule list result option" where
  "ip_rules k4 k6 =
    both_families ru_priority (rules_for_family k4 AF_INET) (rules_for_family k6 AF_INET6)"

section \<open>Looking up one route\<close>

definition route_lookup_step :: "u32 \<Rightarrow> message_header \<Rightarrow> bytes \<Rightarrow> unit \<Rightarrow> (unit, route) flow" where
  "route_lookup_step sequence header message s =
    (if mh_sequence header = sequence then
       if mh_message_type header = RTM_NEWROUTE then
         Return (case parse_route message of
           None \<Rightarrow> Err (Custom InvalidData ''invalid IP route reply'')
         | Some route \<Rightarrow> Ok (normalize_route_lookup route))
       else if mh_message_type header = NLMSG_ERROR then
         (case parse_netlink_error message of Err e \<Rightarrow> Return (Err e) | Ok _ \<Rightarrow> Continue s)
       else if mh_message_type header = NLMSG_DONE then
         Return (Err (Custom NotFound ''kernel returned no IP route''))
       else Continue s
     else Continue s)"

definition receive_route_lookup :: "recv_outcome list \<Rightarrow> u32 \<Rightarrow> route result option" where
  "receive_route_lookup script sequence =
    map_option fst
      (receive_loop (16 * 1024) ''netlink socket closed''
        (\<lambda>datagram s.
          message_loop ''truncated route reply header'' ''invalid route reply length''
            (route_lookup_step sequence) datagram 0 s)
        script ())"

definition ipv4_route :: "kernel \<Rightarrow> ipv4_addr \<Rightarrow> route result option" where
  "ipv4_route k destination =
    question (open_route_socket k 0) (\<lambda>_.
    question (send_request k (route_request destination)) (\<lambda>_.
    receive_route_lookup (k_replies k (route_request destination)) ROUTE_SEQUENCE))"

definition ipv6_route :: "kernel \<Rightarrow> ipv6_addr \<Rightarrow> route result option" where
  "ipv6_route k destination =
    question (open_route_socket k 0) (\<lambda>_.
    question (send_request k (route_request6 destination)) (\<lambda>_.
    receive_route_lookup (k_replies k (route_request6 destination)) ROUTE_SEQUENCE))"

fun ip_route :: "kernel \<Rightarrow> ip_addr \<Rightarrow> route result option" where
  "ip_route k (V4 destination) = ipv4_route k destination"
| "ip_route k (V6 destination) = ipv6_route k destination"

end
