(* ===== verification/Netlink_Roundtrip.thy ===== *)
theory Netlink_Roundtrip
  imports Netlink_Records
begin

text \<open>
  What the kernel sends comes back: for each record of \<open>netlink.rs\<close> the message that carries
  it is laid out attribute by attribute as the kernel does, in the format of \<open>event_message\<close>
  (the writer of the tests), and the parser is shown to return every field, labels included. The attribute
  loop of \<open>parse_neighbor\<close> is shown equal to a fold over \<open>attributes_from_offset\<close>.
\<close>

section \<open>The parts of a message\<close>

lemma option_or_None [simp]: "option_or x None = x"
  by (cases x) simp_all

lemma field_Cons [simp]:
  "0 < offset \<Longrightarrow> field width offset (x # xs) = field width (offset - 1) xs"
  "field (Suc 0) 0 (x # xs) = x"
  by (simp_all add: field_def drop_Cons')

text \<open>A message as the kernel lays it out in reply to the request with a given sequence
  number; \<open>event_message\<close> is the case of a notification.\<close>

definition netlink_message :: "u16 \<Rightarrow> u32 \<Rightarrow> bytes \<Rightarrow> attributes \<Rightarrow> bytes" where
  "netlink_message t sequence payload attrs =
    (let body = payload @ concat (map attribute_bytes attrs)
     in message_header_bytes
          \<lparr>mh_length = of_nat (16 + length body), mh_message_type = t, mh_flags = 0,
           mh_sequence = sequence, mh_port_id = 0\<rparr> @ body)"

lemma event_message_netlink:
  assumes "4 dvd length payload"
  shows "event_message t payload attrs = netlink_message t 0 payload attrs"
proof -
  have "foldl append_attribute (pad_to_4 (replicate 16 0 @ payload)) attrs =
      (replicate 16 0 @ payload) @ concat (map attribute_bytes attrs)"
    using assms by (subst pad_to_4_id) (simp_all add: foldl_append_attribute)
  then show ?thesis
    by (simp add: event_message_def netlink_message_def Let_def add.assoc)
qed

lemma netlink_message_payload:
  "get_from 16 (netlink_message t sequence payload attrs) =
    Some (payload @ concat (map attribute_bytes attrs))"
  by (simp add: netlink_message_def get_from_def Let_def)

lemma netlink_message_attributes:
  assumes "4 dvd length payload" and "n = length payload" and "list_all encodable_attribute attrs"
  shows "attributes (netlink_message t sequence payload attrs) n = Some (map masked attrs)"
proof -
  obtain hb where message: "netlink_message t sequence payload attrs =
      hb @ payload @ concat (map attribute_bytes attrs)" and "length hb = 16"
    unfolding netlink_message_def Let_def using length_message_header_bytes by blast
  moreover have "align_to_4 (16 + n) = 16 + length payload"
    using assms(1,2) by (intro trans [OF align_to_4_id]) auto
  ultimately show ?thesis
    using netlink_attributes.decode_concat [OF assms(3), of "[]" "hb @ payload"]
    by (simp add: attributes_def)
qed

section \<open>Optional attributes\<close>

definition attribute_opt :: "u16 \<Rightarrow> ('t \<Rightarrow> bytes) \<Rightarrow> 't option \<Rightarrow> attributes" where
  "attribute_opt kind enc x = (case x of None \<Rightarrow> [] | Some v \<Rightarrow> [(kind, enc v)])"

lemma find_attribute_append:
  "find_attribute (xs @ ys) k parse = option_or (find_attribute xs k parse) (find_attribute ys k parse)"
  by (simp add: find_attribute_def find_map_append)

lemma find_attribute_opt:
  "find_attribute (map masked (attribute_opt kind enc x)) k parse =
    (if kind AND NLA_TYPE_MASK = k then Option.bind x (\<lambda>v. parse (enc v)) else None)"
  by (cases x) (auto simp: attribute_opt_def masked_def option_or_eq_Some split: option.splits)

lemma find_native_u32_simps [simp]:
  "find_native_u32 attrs k = find_attribute attrs k native_u32"
  "find_u8 attrs k = find_attribute attrs k first_opt"
  "find_string attrs k = find_attribute attrs k nul_terminated_string"
  by (simp_all add: find_native_u32_def find_u8_def find_string_def find_attribute_def)

lemma encodable_opt:
  "list_all encodable_attribute (attribute_opt kind enc x) \<longleftrightarrow>
    (\<forall>v. x = Some v \<longrightarrow> length (enc v) < 2 ^ 16 - 4)"
  by (cases x) (auto simp: attribute_opt_def encodable_attribute_def)

lemmas attribute_opt_simps = find_attribute_append find_attribute_opt encodable_opt

abbreviation u32_bytes :: "u32 \<Rightarrow> bytes" where
  "u32_bytes \<equiv> to_le_bytes 4"

lemma length_ip_octets [simp]: "length (ip_octets a) < 65532"
  by (cases a) simp_all

text \<open>A text the kernel writes: UTF-8 without NUL, followed by a NUL.\<close>

definition text_value :: "string \<Rightarrow> bytes" where
  "text_value s = as_bytes s @ [0]"

definition kernel_text :: "string \<Rightarrow> bool" where
  "kernel_text s \<longleftrightarrow> utf8_valid (as_bytes s) \<and> 0 \<notin> set (as_bytes s) \<and> length s < 2 ^ 15"

lemma text_value_parse: "kernel_text s \<Longrightarrow> nul_terminated_string (text_value s) = Some s"
proof -
  assume "kernel_text s"
  moreover from this have "takeWhile (\<lambda>b. b \<noteq> 0) (as_bytes s @ [0]) = as_bytes s"
    by (auto simp: kernel_text_def takeWhile_append)
  ultimately show ?thesis
    by (simp add: text_value_def nul_terminated_string_def from_utf8_def kernel_text_def
        as_bytes_def comp_def)
qed

lemma length_text_value [simp]: "length (text_value s) = length s + 1"
  by (simp add: text_value_def as_bytes_def)

section \<open>Payload structures\<close>

lemma payload_lengths [simp]:
  "length (neighbor_message_bytes nm) = 12" "length (link_message_bytes lm) = 16"
  "length (address_message_bytes am) = 8" "length (route_message_bytes rm) = 12"
  "length (rule_message_bytes rum) = 12" "length (route_next_hop_bytes rn) = 8"
  by (simp_all add: neighbor_message_bytes_def link_message_bytes_def address_message_bytes_def
      route_message_bytes_def rule_message_bytes_def route_next_hop_bytes_def)

lemma payload_roundtrips [simp]:
  "neighbor_message_of (neighbor_message_bytes nm @ rest) = nm"
  "link_message_of (link_message_bytes lm @ rest) = lm"
  "address_message_of (address_message_bytes am @ rest) = am"
  "route_message_of (route_message_bytes rm @ rest) = rm"
  "rule_message_of (rule_message_bytes rum @ rest) = rum"
  "route_next_hop_of (route_next_hop_bytes rn @ rest) = rn"
  by (simp_all add: neighbor_message_of_def neighbor_message_bytes_def link_message_of_def
      link_message_bytes_def address_message_of_def address_message_bytes_def
      route_message_of_def route_message_bytes_def rule_message_of_def rule_message_bytes_def
      route_next_hop_of_def route_next_hop_bytes_def wire_simps)

lemma read_payload:
  "length bs = n \<Longrightarrow> read_unaligned n d (bs @ rest) = Some (d (bs @ rest))"
  by (simp add: read_unaligned_def)

section \<open>Multipath next hops\<close>

text \<open>A next hop as the kernel holds it: \<open>struct rtnexthop\<close> with its nested gateway.\<close>

record kernel_hop =
  kh_flags :: u8
  kh_hops :: u8
  kh_interface_index :: i32
  kh_gateway :: "ip_addr option"

definition hop_attributes :: "kernel_hop \<Rightarrow> attributes" where
  "hop_attributes h = attribute_opt RTA_GATEWAY ip_octets (kh_gateway h)"

definition hop_bytes :: "kernel_hop \<Rightarrow> bytes" where
  "hop_bytes h =
    (let nested = concat (map attribute_bytes (hop_attributes h))
     in route_next_hop_bytes
          \<lparr>rn_length = of_nat (8 + length nested), rn_flags = kh_flags h, rn_hops = kh_hops h,
           rn_interface_index = kh_interface_index h\<rparr> @ nested)"

definition hop_view :: "kernel_hop \<Rightarrow> next_hop" where
  "hop_view h =
    \<lparr>nh_gateway = kh_gateway h, nh_interface_index = kh_interface_index h,
     nh_weight = ucast (kh_hops h) + 1, nh_flags = next_hop_flags (kh_flags h)\<rparr>"

definition of_family :: "u8 \<Rightarrow> ip_addr option \<Rightarrow> bool" where
  "of_family family x \<longleftrightarrow> (case x of None \<Rightarrow> True | Some a \<Rightarrow> family = family_of a)"

definition hop_in_family :: "u8 \<Rightarrow> kernel_hop \<Rightarrow> bool" where
  "hop_in_family family h \<longleftrightarrow> of_family family (kh_gateway h)"

lemma of_family_parse:
  "of_family family x \<Longrightarrow> Option.bind x (\<lambda>a. ip_from_bytes family (ip_octets a)) = x"
  by (cases x) (simp_all add: of_family_def ip_from_bytes_octets)

lemma length_hop_attributes:
  "length (concat (map attribute_bytes (hop_attributes h))) \<le> 20"
  "4 dvd length (concat (map attribute_bytes (hop_attributes h)))"
proof -
  show "length (concat (map attribute_bytes (hop_attributes h))) \<le> 20"
  proof (cases "kh_gateway h")
    case (Some a)
    then show ?thesis
      by (cases a) (simp_all add: hop_attributes_def attribute_opt_def length_attribute_bytes align_to_4_id)
  qed (simp add: hop_attributes_def attribute_opt_def)
  show "4 dvd length (concat (map attribute_bytes (hop_attributes h)))"
    by (simp add: hop_attributes_def attribute_opt_def split: option.splits)
qed

lemma hop_encodable: "list_all encodable_attribute (hop_attributes h)"
  by (simp add: hop_attributes_def encodable_opt)

lemma next_hops_record:
  assumes "hop_in_family family h"
  shows "parse_next_hops (pre @ hop_bytes h @ rest) family (length pre) =
    hop_view h # parse_next_hops (pre @ hop_bytes h @ rest) family (length pre + length (hop_bytes h))"
proof -
  let ?nested = "concat (map attribute_bytes (hop_attributes h))"
  let ?n = "8 + length ?nested"
  let ?hop = "\<lparr>rn_length = of_nat ?n, rn_flags = kh_flags h, rn_hops = kh_hops h,
    rn_interface_index = kh_interface_index h\<rparr>"
  have bytes: "hop_bytes h = route_next_hop_bytes ?hop @ ?nested"
    by (simp add: hop_bytes_def Let_def)
  have len: "unat (of_nat ?n :: u16) = ?n"
    using length_hop_attributes(1) [of h] by (simp add: unat_of_nat del: of_nat_add)
  have align: "align_to_4 ?n = ?n"
    using length_hop_attributes(2) [of h] by (intro align_to_4_id) simp
  have size: "length (hop_bytes h) = ?n"
    by (simp add: bytes)
  have nested: "attributes_from_offset (hop_bytes h) 8 = Some (map masked (hop_attributes h))"
    using netlink_attributes.decode_concat [OF hop_encodable, of "[]" "route_next_hop_bytes ?hop" h]
    by (simp add: bytes)
  have gateway: "find_attribute (map masked (hop_attributes h)) RTA_GATEWAY (ip_from_bytes family) =
      kh_gateway h"
    using assms by (simp add: hop_attributes_def find_attribute_opt hop_in_family_def of_family_parse)
  have hop: "route_next_hop_of (hop_bytes h @ rest) = ?hop"
    by (simp add: bytes)
  have read: "read_unaligned 8 route_next_hop_of (hop_bytes h @ rest) = Some ?hop"
    using size by (simp add: read_unaligned_def hop)
  show ?thesis
    using len size align read nested gateway
    by (subst parse_next_hops.simps) (simp add: Let_def hop_view_def del: of_nat_add RTA_GATEWAY_def)
qed

interpretation next_hops:
  record_stream "\<lambda>bs offset. Some (parse_next_hops bs family offset)" hop_bytes hop_view
    "hop_in_family family" 8
  for family
proof unfold_locales
  fix bs :: bytes and offset :: nat
  assume "length bs < offset + 8"
  then have "\<not> 8 \<le> length bs - offset"
    by linarith
  then show "Some (parse_next_hops bs family offset) = Some []"
    by (simp add: parse_next_hops.simps [of bs])
qed (simp add: next_hops_record)

lemma next_hops_roundtrip:
  "list_all (hop_in_family family) hops \<Longrightarrow>
    parse_next_hops (concat (map hop_bytes hops)) family 0 = map hop_view hops"
  using next_hops.decode_buffer [of family hops] by simp

section \<open>Routes\<close>

record kernel_route =
  kr_message :: route_message
  kr_destination :: "ip_addr option"
  kr_source :: "ip_addr option"
  kr_gateway :: "ip_addr option"
  kr_output_interface :: "i32 option"
  kr_priority :: "u32 option"
  kr_preferred_source :: "ip_addr option"
  kr_table :: "u32 option"
  kr_multipath :: "kernel_hop list option"

definition route_attributes :: "kernel_route \<Rightarrow> attributes" where
  "route_attributes k =
    attribute_opt RTA_TABLE u32_bytes (kr_table k) @
    attribute_opt RTA_DST ip_octets (kr_destination k) @
    attribute_opt RTA_SRC ip_octets (kr_source k) @
    attribute_opt RTA_PRIORITY u32_bytes (kr_priority k) @
    attribute_opt RTA_PREFSRC ip_octets (kr_preferred_source k) @
    attribute_opt RTA_GATEWAY ip_octets (kr_gateway k) @
    attribute_opt RTA_OIF u32_bytes (kr_output_interface k) @
    attribute_opt RTA_MULTIPATH (\<lambda>hops. concat (map hop_bytes hops)) (kr_multipath k)"

definition route_message_for :: "u16 \<Rightarrow> u32 \<Rightarrow> kernel_route \<Rightarrow> bytes" where
  "route_message_for t sequence k = netlink_message t sequence (route_message_bytes (kr_message k)) (route_attributes k)"

definition kernel_route_ok :: "kernel_route \<Rightarrow> bool" where
  "kernel_route_ok k \<longleftrightarrow>
    (let family = rm_family (kr_message k)
     in is_ip_family family
        \<and> list_all (of_family family)
            [kr_destination k, kr_source k, kr_gateway k, kr_preferred_source k]
        \<and> (case kr_multipath k of None \<Rightarrow> True
           | Some hops \<Rightarrow> list_all (hop_in_family family) hops \<and> length hops < 2000))"

definition route_view :: "kernel_route \<Rightarrow> route" where
  "route_view k =
    (let m = kr_message k
     in \<lparr>r_destination = unwrap_or (unspecified_address (rm_family m)) (kr_destination k),
         r_prefix = rm_destination_prefix m,
         r_source_prefix =
           (if rm_source_prefix m = 0 then None
            else map_option (\<lambda>source. (source, rm_source_prefix m)) (kr_source k)),
         r_gateway = kr_gateway k,
         r_interface_index = kr_output_interface k,
         r_metric = kr_priority k,
         r_source = kr_preferred_source k,
         r_table = unwrap_or (ucast (rm_table m)) (kr_table k),
         r_protocol = route_protocol (rm_protocol m),
         r_scope = route_scope (rm_scope m),
         r_kind = route_kind (rm_route_type m),
         r_next_hops = map hop_view (unwrap_or [] (kr_multipath k))\<rparr>)"

lemma length_concat_hops: "length (concat (map hop_bytes hops)) \<le> 28 * length hops"
proof (induction hops)
  case (Cons h hops)
  with length_hop_attributes(1) [of h] show ?case
    by (simp add: hop_bytes_def Let_def)
qed simp

lemma route_encodable: "kernel_route_ok k \<Longrightarrow> list_all encodable_attribute (route_attributes k)"
  by (auto simp: route_attributes_def encodable_opt kernel_route_ok_def Let_def
      intro: le_less_trans [OF length_concat_hops])

lemma multipath_parse:
  "kernel_route_ok k \<Longrightarrow>
    unwrap_or [] (Option.bind (kr_multipath k)
      (\<lambda>v. Some (parse_next_hops (concat (map hop_bytes v)) (rm_family (kr_message k)) 0))) =
    map hop_view (unwrap_or [] (kr_multipath k))"
  by (cases "kr_multipath k") (auto simp: kernel_route_ok_def Let_def next_hops_roundtrip)

lemma parse_route_message:
  assumes "kernel_route_ok k"
  shows "parse_route (route_message_for t sequence k) = Some (route_view k)"
proof -
  let ?m = "kr_message k"
  have attrs: "attributes (route_message_for t sequence k) 12 = Some (map masked (route_attributes k))"
    unfolding route_message_for_def using route_encodable [OF assms]
    by (intro netlink_message_attributes) simp_all
  have family: "is_ip_family (rm_family ?m)"
    and addresses: "of_family (rm_family ?m) (kr_destination k)"
      "of_family (rm_family ?m) (kr_source k)" "of_family (rm_family ?m) (kr_gateway k)"
      "of_family (rm_family ?m) (kr_preferred_source k)"
    using assms by (simp_all add: kernel_route_ok_def Let_def)
  have found:
    "find_attribute (map masked (route_attributes k)) RTA_DST (ip_from_bytes (rm_family ?m)) = kr_destination k"
    "find_attribute (map masked (route_attributes k)) RTA_SRC (ip_from_bytes (rm_family ?m)) = kr_source k"
    "find_attribute (map masked (route_attributes k)) RTA_GATEWAY (ip_from_bytes (rm_family ?m)) = kr_gateway k"
    "find_attribute (map masked (route_attributes k)) RTA_PREFSRC (ip_from_bytes (rm_family ?m)) =
      kr_preferred_source k"
    "find_attribute (map masked (route_attributes k)) RTA_OIF native_u32 = kr_output_interface k"
    "find_attribute (map masked (route_attributes k)) RTA_PRIORITY native_u32 = kr_priority k"
    "find_attribute (map masked (route_attributes k)) RTA_TABLE native_u32 = kr_table k"
    by (simp_all add: route_attributes_def attribute_opt_simps of_family_parse addresses)
  have multipath: "unwrap_or [] (find_attribute (map masked (route_attributes k)) RTA_MULTIPATH
      (\<lambda>value. Some (parse_next_hops value (rm_family ?m) 0))) =
      map hop_view (unwrap_or [] (kr_multipath k))"
    using multipath_parse [OF assms] by (simp add: route_attributes_def attribute_opt_simps)
  have payload: "get_from 16 (route_message_for t sequence k) =
      Some (route_message_bytes ?m @ concat (map attribute_bytes (route_attributes k)))"
    unfolding route_message_for_def by (simp add: netlink_message_payload)
  show ?thesis
    by (cases "kr_source k")
      (simp_all add: parse_route_def payload read_payload family attrs found multipath route_view_def
        Let_def del: RTA_DST_def RTA_SRC_def RTA_GATEWAY_def RTA_PREFSRC_def RTA_OIF_def
        RTA_PRIORITY_def RTA_TABLE_def RTA_MULTIPATH_def)
qed

section \<open>Interface addresses\<close>

record kernel_address =
  ka_message :: address_message
  ka_address :: "ip_addr option"
  ka_local :: "ip_addr option"
  ka_broadcast :: "ip_addr option"
  ka_label :: "string option"
  ka_flags :: "u32 option"
  ka_cache :: "address_cache_info option"

definition address_cache_bytes :: "address_cache_info \<Rightarrow> bytes" where
  "address_cache_bytes c =
    u32_bytes (ac_preferred c) @ u32_bytes (ac_valid c) @ u32_bytes (ac_created c)
    @ u32_bytes (ac_updated c)"

definition address_attributes :: "kernel_address \<Rightarrow> attributes" where
  "address_attributes k =
    attribute_opt IFA_ADDRESS ip_octets (ka_address k) @
    attribute_opt IFA_LOCAL ip_octets (ka_local k) @
    attribute_opt IFA_BROADCAST ip_octets (ka_broadcast k) @
    attribute_opt IFA_LABEL text_value (ka_label k) @
    attribute_opt IFA_FLAGS u32_bytes (ka_flags k) @
    attribute_opt IFA_CACHEINFO address_cache_bytes (ka_cache k)"

definition address_message_for :: "u16 \<Rightarrow> u32 \<Rightarrow> kernel_address \<Rightarrow> bytes" where
  "address_message_for t sequence k =
    netlink_message t sequence (address_message_bytes (ka_message k)) (address_attributes k)"

definition text_ok :: "string option \<Rightarrow> bool" where
  "text_ok x \<longleftrightarrow> (case x of None \<Rightarrow> True | Some s \<Rightarrow> kernel_text s)"

definition kernel_address_ok :: "kernel_address \<Rightarrow> bool" where
  "kernel_address_ok k \<longleftrightarrow>
    is_ip_family (am_family (ka_message k))
    \<and> list_all (of_family (am_family (ka_message k))) [ka_address k, ka_local k, ka_broadcast k]
    \<and> text_ok (ka_label k)"

text \<open>The address an interface holds is its local address, or without one the address of the
  prefix; the peer is the prefix address of a point-to-point link.\<close>

definition address_view :: "kernel_address \<Rightarrow> address option" where
  "address_view k =
    map_option (\<lambda>local.
      \<lparr>a_local = local,
       a_prefix = am_prefix (ka_message k),
       a_peer = (if ka_address k = Some local then None else ka_address k),
       a_broadcast = ka_broadcast k,
       a_interface_index = am_interface_index (ka_message k),
       a_label = ka_label k,
       a_scope = address_scope (am_scope (ka_message k)),
       a_flags = address_flags (unwrap_or (ucast (am_flags (ka_message k))) (ka_flags k)),
       a_preferred_lifetime = Option.bind (ka_cache k) (\<lambda>c. finite_lifetime (ac_preferred c)),
       a_valid_lifetime = Option.bind (ka_cache k) (\<lambda>c. finite_lifetime (ac_valid c))\<rparr>)
    (option_or (ka_local k) (ka_address k))"

lemma address_cache_roundtrip:
  "read_unaligned 16 address_cache_info_of (address_cache_bytes c) = Some c"
  by (simp add: read_unaligned_def address_cache_info_of_def address_cache_bytes_def wire_simps)
    (simp add: field_def)

lemma text_ok_parse:
  "text_ok x \<Longrightarrow> Option.bind x (\<lambda>s. nul_terminated_string (text_value s)) = x"
  by (cases x) (simp_all add: text_ok_def text_value_parse)

lemma text_ok_length: "text_ok (Some s) \<Longrightarrow> length s < 65531"
  by (simp add: text_ok_def kernel_text_def)

lemma parse_address_message:
  assumes "kernel_address_ok k"
  shows "parse_address (address_message_for t sequence k) = address_view k"
proof -
  let ?m = "ka_message k" and ?as = "map masked (address_attributes k)"
  have encodable: "list_all encodable_attribute (address_attributes k)"
    using assms
    by (auto simp: address_attributes_def encodable_opt kernel_address_ok_def address_cache_bytes_def
        text_ok_length)
  have attrs: "attributes (address_message_for t sequence k) 8 = Some ?as"
    unfolding address_message_for_def using encodable
    by (intro netlink_message_attributes) simp_all
  have family: "is_ip_family (am_family ?m)"
    and addresses: "of_family (am_family ?m) (ka_address k)" "of_family (am_family ?m) (ka_local k)"
      "of_family (am_family ?m) (ka_broadcast k)"
    and label: "text_ok (ka_label k)"
    using assms by (simp_all add: kernel_address_ok_def)
  have found:
    "find_attribute ?as IFA_ADDRESS (ip_from_bytes (am_family ?m)) = ka_address k"
    "find_attribute ?as IFA_LOCAL (ip_from_bytes (am_family ?m)) = ka_local k"
    "find_attribute ?as IFA_BROADCAST (ip_from_bytes (am_family ?m)) = ka_broadcast k"
    "find_attribute ?as IFA_LABEL nul_terminated_string = ka_label k"
    "find_attribute ?as IFA_FLAGS native_u32 = ka_flags k"
    "find_attribute ?as IFA_CACHEINFO (read_unaligned 16 address_cache_info_of) = ka_cache k"
    by (simp_all add: address_attributes_def attribute_opt_simps of_family_parse addresses
        text_ok_parse label address_cache_roundtrip)
  have payload: "get_from 16 (address_message_for t sequence k) =
      Some (address_message_bytes ?m @ concat (map attribute_bytes (address_attributes k)))"
    unfolding address_message_for_def by (simp add: netlink_message_payload)
  have peer: "option_filter (\<lambda>a. a \<noteq> local) x = (if x = Some local then None else x)"
    for local :: ip_addr and x
    by (cases x) auto
  show ?thesis
    by (cases "option_or (ka_local k) (ka_address k)")
      (simp_all add: parse_address_def payload read_payload family attrs found address_view_def peer
        Let_def del: IFA_ADDRESS_def IFA_LOCAL_def IFA_BROADCAST_def IFA_LABEL_def IFA_FLAGS_def
        IFA_CACHEINFO_def)
qed

section \<open>Policy rules\<close>

record kernel_rule =
  kp_message :: rule_message
  kp_source :: "ip_addr option"
  kp_destination :: "ip_addr option"
  kp_input_interface :: "string option"
  kp_output_interface :: "string option"
  kp_priority :: "u32 option"
  kp_fwmark :: "u32 option"
  kp_fwmask :: "u32 option"
  kp_table :: "u32 option"
  kp_goto :: "u32 option"

definition rule_attributes :: "kernel_rule \<Rightarrow> attributes" where
  "rule_attributes k =
    attribute_opt FRA_TABLE u32_bytes (kp_table k) @
    attribute_opt FRA_IIFNAME text_value (kp_input_interface k) @
    attribute_opt FRA_OIFNAME text_value (kp_output_interface k) @
    attribute_opt FRA_PRIORITY u32_bytes (kp_priority k) @
    attribute_opt FRA_FWMARK u32_bytes (kp_fwmark k) @
    attribute_opt FRA_FWMASK u32_bytes (kp_fwmask k) @
    attribute_opt FRA_GOTO u32_bytes (kp_goto k) @
    attribute_opt FRA_DST ip_octets (kp_destination k) @
    attribute_opt FRA_SRC ip_octets (kp_source k)"

definition rule_message_for :: "u16 \<Rightarrow> u32 \<Rightarrow> kernel_rule \<Rightarrow> bytes" where
  "rule_message_for t sequence k = netlink_message t sequence (rule_message_bytes (kp_message k)) (rule_attributes k)"

definition kernel_rule_ok :: "kernel_rule \<Rightarrow> bool" where
  "kernel_rule_ok k \<longleftrightarrow>
    is_ip_family (rum_family (kp_message k))
    \<and> list_all (of_family (rum_family (kp_message k))) [kp_source k, kp_destination k]
    \<and> list_all text_ok [kp_input_interface k, kp_output_interface k]"

definition rule_view :: "kernel_rule \<Rightarrow> rule" where
  "rule_view k =
    (let m = kp_message k
     in \<lparr>ru_family = (if rum_family m = AF_INET then Ipv4 else Ipv6),
         ru_priority = unwrap_or 0 (kp_priority k),
         ru_source = map_option (\<lambda>a. (a, rum_source_prefix m)) (kp_source k),
         ru_destination = map_option (\<lambda>a. (a, rum_destination_prefix m)) (kp_destination k),
         ru_input_interface = kp_input_interface k,
         ru_output_interface = kp_output_interface k,
         ru_fwmark = kp_fwmark k,
         ru_fwmask = kp_fwmask k,
         ru_table = unwrap_or (ucast (rum_table m)) (kp_table k),
         ru_action = rule_action (rum_action m),
         ru_goto = kp_goto k,
         ru_flags = rule_flags (rum_flags m)\<rparr>)"

lemma parse_rule_message:
  assumes "kernel_rule_ok k"
  shows "parse_rule (rule_message_for t sequence k) = Some (rule_view k)"
proof -
  let ?m = "kp_message k" and ?as = "map masked (rule_attributes k)"
  have encodable: "list_all encodable_attribute (rule_attributes k)"
    using assms
    by (auto simp: rule_attributes_def encodable_opt kernel_rule_ok_def text_ok_length)
  have attrs: "attributes (rule_message_for t sequence k) 12 = Some ?as"
    unfolding rule_message_for_def using encodable
    by (intro netlink_message_attributes) simp_all
  have family: "is_ip_family (rum_family ?m)"
    and addresses: "of_family (rum_family ?m) (kp_source k)" "of_family (rum_family ?m) (kp_destination k)"
    and names: "text_ok (kp_input_interface k)" "text_ok (kp_output_interface k)"
    using assms by (simp_all add: kernel_rule_ok_def)
  have found:
    "find_attribute ?as FRA_SRC (ip_from_bytes (rum_family ?m)) = kp_source k"
    "find_attribute ?as FRA_DST (ip_from_bytes (rum_family ?m)) = kp_destination k"
    "find_attribute ?as FRA_IIFNAME nul_terminated_string = kp_input_interface k"
    "find_attribute ?as FRA_OIFNAME nul_terminated_string = kp_output_interface k"
    "find_attribute ?as FRA_PRIORITY native_u32 = kp_priority k"
    "find_attribute ?as FRA_FWMARK native_u32 = kp_fwmark k"
    "find_attribute ?as FRA_FWMASK native_u32 = kp_fwmask k"
    "find_attribute ?as FRA_TABLE native_u32 = kp_table k"
    "find_attribute ?as FRA_GOTO native_u32 = kp_goto k"
    by (simp_all add: rule_attributes_def attribute_opt_simps of_family_parse addresses
        text_ok_parse names)
  have payload: "get_from 16 (rule_message_for t sequence k) =
      Some (rule_message_bytes ?m @ concat (map attribute_bytes (rule_attributes k)))"
    unfolding rule_message_for_def by (simp add: netlink_message_payload)
  show ?thesis
    by (simp add: parse_rule_def payload read_payload family attrs found rule_view_def Let_def
        del: FRA_SRC_def FRA_DST_def FRA_IIFNAME_def FRA_OIFNAME_def FRA_PRIORITY_def FRA_FWMARK_def
        FRA_FWMASK_def FRA_TABLE_def FRA_GOTO_def)
qed

section \<open>Links\<close>

text \<open>The attributes of a link, with the two nested ones: the link information (its kind and,
  for a VLAN, the identifier) and the list of alternative names.\<close>

record kernel_link =
  kl_message :: link_message
  kl_name :: string
  kl_texts :: "(u16 \<times> string option) list"
  kl_numbers :: "(u16 \<times> u32 option) list"
  kl_operstate :: "u8 option"
  kl_carrier :: "u8 option"
  kl_info :: "(string option \<times> u16 option) option"
  kl_properties :: "string list option"

definition text_kinds :: "u16 list" where
  "text_kinds =
    [IFLA_QDISC, IFLA_IFALIAS, IFLA_PHYS_PORT_NAME, IFLA_PARENT_DEV_NAME, IFLA_PARENT_DEV_BUS_NAME]"

definition number_kinds :: "u16 list" where
  "number_kinds =
    [IFLA_MTU, IFLA_MIN_MTU, IFLA_MAX_MTU, IFLA_LINK, IFLA_MASTER, IFLA_TXQLEN, IFLA_GROUP,
     IFLA_PROMISCUITY, IFLA_NUM_TX_QUEUES, IFLA_NUM_RX_QUEUES, IFLA_CARRIER_CHANGES,
     IFLA_CARRIER_UP_COUNT, IFLA_CARRIER_DOWN_COUNT]"

definition link_info_bytes :: "string option \<times> u16 option \<Rightarrow> bytes" where
  "link_info_bytes info =
    concat (map attribute_bytes
      (attribute_opt IFLA_INFO_KIND text_value (fst info) @
       attribute_opt IFLA_INFO_DATA
         (\<lambda>vlan. attribute_bytes (IFLA_VLAN_ID, to_le_bytes 2 vlan)) (snd info)))"

definition property_list_bytes :: "string list \<Rightarrow> bytes" where
  "property_list_bytes names =
    concat (map (\<lambda>name. attribute_bytes (IFLA_ALT_IFNAME, text_value name)) names)"

definition link_attributes :: "kernel_link \<Rightarrow> attributes" where
  "link_attributes k =
    attribute_opt IFLA_IFNAME text_value (Some (kl_name k)) @
    concat (map (\<lambda>(kind, x). attribute_opt kind text_value x) (kl_texts k)) @
    concat (map (\<lambda>(kind, x). attribute_opt kind u32_bytes x) (kl_numbers k)) @
    attribute_opt IFLA_OPERSTATE (\<lambda>b. [b]) (kl_operstate k) @
    attribute_opt IFLA_CARRIER (\<lambda>b. [b]) (kl_carrier k) @
    attribute_opt IFLA_LINKINFO link_info_bytes (kl_info k) @
    attribute_opt IFLA_PROP_LIST property_list_bytes (kl_properties k)"

definition link_message_for :: "u16 \<Rightarrow> u32 \<Rightarrow> kernel_link \<Rightarrow> bytes" where
  "link_message_for t sequence k = netlink_message t sequence (link_message_bytes (kl_message k)) (link_attributes k)"

definition kernel_link_ok :: "kernel_link \<Rightarrow> bool" where
  "kernel_link_ok k \<longleftrightarrow>
    kernel_text (kl_name k)
    \<and> map fst (kl_texts k) = text_kinds \<and> list_all (\<lambda>(_, x). text_ok x) (kl_texts k)
    \<and> map fst (kl_numbers k) = number_kinds
    \<and> (case kl_info k of None \<Rightarrow> True | Some info \<Rightarrow> text_ok (fst info))
    \<and> (case kl_properties k of None \<Rightarrow> True
       | Some names \<Rightarrow> list_all kernel_text names \<and> length (property_list_bytes names) < 65532)"

definition text_of :: "kernel_link \<Rightarrow> u16 \<Rightarrow> string option" where
  "text_of k kind = Option.bind (map_of (kl_texts k) kind) (\<lambda>x. x)"

definition number_of :: "kernel_link \<Rightarrow> u16 \<Rightarrow> u32 option" where
  "number_of k kind = Option.bind (map_of (kl_numbers k) kind) (\<lambda>x. x)"

text \<open>The state of a link is the reported one, except that an unknown state of a loopback
  interface that is up reads \<open>up\<close>.\<close>

definition link_state_view :: "kernel_link \<Rightarrow> string" where
  "link_state_view k =
    (let state = unwrap_or ''unknown'' (map_option operational_state (kl_operstate k));
         flags = lm_flags (kl_message k)
     in if state = ''unknown'' \<and> bit flags 0 \<and> bit flags 3 then ''up'' else state)"

definition link_view :: "kernel_link \<Rightarrow> link" where
  "link_view k =
    (let m = kl_message k; info = unwrap_or (None, None) (kl_info k)
     in \<lparr>l_interface_index = lm_interface_index m, l_name = kl_name k, l_kind = fst info,
         l_hardware_type = lm_link_type m, l_flags = link_flags (lm_flags m),
         l_operational_state = link_state_view k,
         l_carrier = map_option (\<lambda>carrier. carrier \<noteq> 0) (kl_carrier k),
         l_mtu = number_of k IFLA_MTU, l_minimum_mtu = number_of k IFLA_MIN_MTU,
         l_maximum_mtu = number_of k IFLA_MAX_MTU, l_parent_index = number_of k IFLA_LINK,
         l_master_index = number_of k IFLA_MASTER, l_qdisc = text_of k IFLA_QDISC,
         l_transmit_queue_length = number_of k IFLA_TXQLEN,
         l_alias = (if text_of k IFLA_IFALIAS = Some [] then None else text_of k IFLA_IFALIAS),
         l_alternative_names = sorted_list_of_set (set (unwrap_or [] (kl_properties k))),
         l_vlan_id = snd info, l_group = number_of k IFLA_GROUP,
         l_promiscuity = number_of k IFLA_PROMISCUITY,
         l_transmit_queues = number_of k IFLA_NUM_TX_QUEUES,
         l_receive_queues = number_of k IFLA_NUM_RX_QUEUES,
         l_carrier_changes = number_of k IFLA_CARRIER_CHANGES,
         l_carrier_up_count = number_of k IFLA_CARRIER_UP_COUNT,
         l_carrier_down_count = number_of k IFLA_CARRIER_DOWN_COUNT,
         l_physical_port_name = text_of k IFLA_PHYS_PORT_NAME,
         l_parent_device_name = text_of k IFLA_PARENT_DEV_NAME,
         l_parent_device_bus_name = text_of k IFLA_PARENT_DEV_BUS_NAME\<rparr>)"

lemma parse_link_info_bytes:
  assumes "text_ok (fst info)"
  shows "parse_link_info (link_info_bytes info) = Some info"
proof -
  obtain kind vlan where info: "info = (kind, vlan)"
    by (cases info)
  let ?as = "attribute_opt IFLA_INFO_KIND text_value kind @
    attribute_opt IFLA_INFO_DATA
      (\<lambda>vlan. attribute_bytes (IFLA_VLAN_ID, to_le_bytes 2 vlan)) vlan"
  have "list_all encodable_attribute ?as"
    using assms by (auto simp: info encodable_opt text_ok_length length_attribute_bytes align_to_4_def)
  then have attrs: "attributes_from_offset (link_info_bytes (kind, vlan)) 0 = Some (map masked ?as)"
    unfolding link_info_bytes_def fst_conv snd_conv
    by (rule netlink_attributes.decode_buffer) simp
  have nested: "attributes_from_offset (attribute_bytes (IFLA_VLAN_ID, to_le_bytes 2 v)) 0 =
      Some [masked (IFLA_VLAN_ID, to_le_bytes 2 v)]" for v :: u16
    using netlink_attributes.decode_buffer [of "[(IFLA_VLAN_ID, to_le_bytes 2 v)]"]
    by (simp add: encodable_attribute_def)
  show ?thesis
    using assms nested unfolding parse_link_info_def info attrs
    by (cases vlan) (simp_all add: attribute_opt_simps text_ok_parse masked_def)
qed

lemma alternative_names_property_list:
  assumes "list_all kernel_text names"
  shows "map_option alternative_names_of (attributes_from_offset (property_list_bytes names) 0) = Some names"
proof -
  let ?as = "map (\<lambda>name. (IFLA_ALT_IFNAME, text_value name)) names"
  have "list_all encodable_attribute ?as"
    using assms by (auto simp: list_all_iff encodable_attribute_def kernel_text_def)
  then have "attributes_from_offset (property_list_bytes names) 0 = Some (map masked ?as)"
    using netlink_attributes.decode_buffer [of ?as] by (simp add: property_list_bytes_def comp_def)
  moreover have "alternative_names_of (map masked ?as) = names"
    using assms by (induction names) (simp_all add: alternative_names_of_def masked_def text_value_parse)
  ultimately show ?thesis by simp
qed

lemma dedup_sort_set: "dedup (sort xs) = sorted_list_of_set (set xs)"
  for xs :: "'a::linorder list"
  by (rule sorted_distinct_set_unique)
    (simp_all add: sorted_dedup distinct_dedup)

lemma link_lists:
  assumes "kernel_link_ok k"
  obtains q al pp pd pb n1 n2 n3 n4 n5 n6 n7 n8 n9 n10 n11 n12 n13 where
    "kl_texts k = [(IFLA_QDISC, q), (IFLA_IFALIAS, al), (IFLA_PHYS_PORT_NAME, pp),
       (IFLA_PARENT_DEV_NAME, pd), (IFLA_PARENT_DEV_BUS_NAME, pb)]"
    "kl_numbers k = [(IFLA_MTU, n1), (IFLA_MIN_MTU, n2), (IFLA_MAX_MTU, n3), (IFLA_LINK, n4),
       (IFLA_MASTER, n5), (IFLA_TXQLEN, n6), (IFLA_GROUP, n7), (IFLA_PROMISCUITY, n8),
       (IFLA_NUM_TX_QUEUES, n9), (IFLA_NUM_RX_QUEUES, n10), (IFLA_CARRIER_CHANGES, n11),
       (IFLA_CARRIER_UP_COUNT, n12), (IFLA_CARRIER_DOWN_COUNT, n13)]"
    "text_ok q" "text_ok al" "text_ok pp" "text_ok pd" "text_ok pb"
proof -
  have "map fst (kl_texts k) = text_kinds" and "map fst (kl_numbers k) = number_kinds"
    and "list_all (\<lambda>(_, x). text_ok x) (kl_texts k)"
    using assms by (simp_all add: kernel_link_ok_def)
  then show ?thesis
    by (auto simp: text_kinds_def number_kinds_def map_eq_Cons_conv intro: that)
qed

lemma link_info_length: "text_ok (fst info) \<Longrightarrow> length (link_info_bytes info) < 65532"
proof -
  assume "text_ok (fst info)"
  then have "length (concat (map attribute_bytes (attribute_opt IFLA_INFO_KIND text_value (fst info))))
      \<le> 2 ^ 15 + 8"
    by (auto simp: attribute_opt_def length_attribute_bytes text_ok_def kernel_text_def align_to_4_def
        split: option.splits)
  then show ?thesis
    by (simp add: link_info_bytes_def attribute_opt_def length_attribute_bytes align_to_4_def
        split: option.splits)
qed

lemma up_loopback: "x AND 9 = 9 \<longleftrightarrow> bit x 0 \<and> bit x 3" for x :: u32
proof -
  have nine: "bit (9 :: int) n \<longleftrightarrow> n = 0 \<or> n = 3" for n
    by (auto simp: bit_numeral_rec numeral_3_eq_3 bit_1_iff split: nat.splits)
  show ?thesis
    by (subst bit_eq_iff) (auto simp: bit_and_iff nine dest: spec [of _ 0] spec [of _ 3])
qed

lemma parse_link_message:
  assumes "kernel_link_ok k"
  shows "parse_link (link_message_for t sequence k) = Some (link_view k)"
proof -
  let ?m = "kl_message k" and ?as = "map masked (link_attributes k)"
  obtain q al pp pd pb n1 n2 n3 n4 n5 n6 n7 n8 n9 n10 n11 n12 n13 where
    texts: "kl_texts k = [(IFLA_QDISC, q), (IFLA_IFALIAS, al), (IFLA_PHYS_PORT_NAME, pp),
       (IFLA_PARENT_DEV_NAME, pd), (IFLA_PARENT_DEV_BUS_NAME, pb)]" and
    numbers: "kl_numbers k = [(IFLA_MTU, n1), (IFLA_MIN_MTU, n2), (IFLA_MAX_MTU, n3), (IFLA_LINK, n4),
       (IFLA_MASTER, n5), (IFLA_TXQLEN, n6), (IFLA_GROUP, n7), (IFLA_PROMISCUITY, n8),
       (IFLA_NUM_TX_QUEUES, n9), (IFLA_NUM_RX_QUEUES, n10), (IFLA_CARRIER_CHANGES, n11),
       (IFLA_CARRIER_UP_COUNT, n12), (IFLA_CARRIER_DOWN_COUNT, n13)]" and
    ok: "text_ok q" "text_ok al" "text_ok pp" "text_ok pd" "text_ok pb"
    by (rule link_lists [OF assms])
  have name: "kernel_text (kl_name k)"
    and info: "\<And>i. kl_info k = Some i \<Longrightarrow> text_ok (fst i)"
    and properties: "\<And>names. kl_properties k = Some names \<Longrightarrow>
      list_all kernel_text names \<and> length (property_list_bytes names) < 65532"
    using assms by (auto simp: kernel_link_ok_def)
  have name_length: "length (kl_name k) < 65531"
    using name by (simp add: kernel_text_def)
  have "list_all encodable_attribute (link_attributes k)"
    using ok name_length info properties
    by (auto simp: link_attributes_def texts numbers encodable_opt text_ok_length link_info_length)
  then have attrs: "attributes (link_message_for t sequence k) 16 = Some ?as"
    unfolding link_message_for_def by (intro netlink_message_attributes) simp_all
  have found:
    "find_attribute ?as IFLA_IFNAME nul_terminated_string = Some (kl_name k)"
    "find_attribute ?as IFLA_QDISC nul_terminated_string = text_of k IFLA_QDISC"
    "find_attribute ?as IFLA_IFALIAS nul_terminated_string = text_of k IFLA_IFALIAS"
    "find_attribute ?as IFLA_PHYS_PORT_NAME nul_terminated_string = text_of k IFLA_PHYS_PORT_NAME"
    "find_attribute ?as IFLA_PARENT_DEV_NAME nul_terminated_string = text_of k IFLA_PARENT_DEV_NAME"
    "find_attribute ?as IFLA_PARENT_DEV_BUS_NAME nul_terminated_string = text_of k IFLA_PARENT_DEV_BUS_NAME"
    "\<And>parse. find_attribute ?as IFLA_OPERSTATE parse = Option.bind (kl_operstate k) (\<lambda>b. parse [b])"
    "find_attribute ?as IFLA_CARRIER first_opt = kl_carrier k"
    "\<And>parse. find_attribute ?as IFLA_LINKINFO parse =
      Option.bind (kl_info k) (\<lambda>i. parse (link_info_bytes i))"
    "\<And>parse. find_attribute ?as IFLA_PROP_LIST parse =
      Option.bind (kl_properties k) (\<lambda>names. parse (property_list_bytes names))"
    by (simp_all add: link_attributes_def texts numbers attribute_opt_simps text_value_parse name
        text_of_def text_ok_parse ok)
  have numbers_found: "find_attribute ?as kind native_u32 = number_of k kind"
    if "kind \<in> set number_kinds" for kind
    using that
    by (auto simp: number_kinds_def link_attributes_def texts numbers attribute_opt_simps number_of_def)
  have info_found: "unwrap_or (None, None) (unwrap_or None (Option.bind (kl_info k)
      (\<lambda>i. Some (parse_link_info (link_info_bytes i))))) = unwrap_or (None, None) (kl_info k)"
    using info by (cases "kl_info k") (simp_all add: parse_link_info_bytes)
  have state: "link_operational_state ?as (lm_flags ?m) = link_state_view k"
  proof -
    show ?thesis
      by (cases "kl_operstate k")
        (simp_all add: up_loopback link_operational_state_def link_state_view_def found Let_def del: IFLA_OPERSTATE_def)
  qed
  have names: "link_alternative_names ?as = sorted_list_of_set (set (unwrap_or [] (kl_properties k)))"
  proof -
    have "alternative_names_of ?as = []"
      by (auto simp: alternative_names_of_def link_attributes_def texts numbers attribute_opt_def
          masked_def split: option.splits)
    moreover have "\<exists>z. attributes_from_offset (property_list_bytes names) 0 = Some z \<and>
        alternative_names_of z = names" if "kl_properties k = Some names" for names
      using properties [OF that] alternative_names_property_list [of names] by auto
    ultimately show ?thesis
      by (cases "kl_properties k")
        (auto simp: link_alternative_names_def found dedup_sort_set simp del: IFLA_PROP_LIST_def)
  qed
  have payload: "get_from 16 (link_message_for t sequence k) =
      Some (link_message_bytes ?m @ concat (map attribute_bytes (link_attributes k)))"
    unfolding link_message_for_def by (simp add: netlink_message_payload)
  have aliases: "option_filter (\<lambda>a. a \<noteq> []) x = (if x = Some [] then None else x)" for x :: "string option"
    by (cases x) auto
  show ?thesis
    unfolding parse_link_def payload link_view_def Let_def
    by (simp add: read_payload attrs found names state info_found aliases
        numbers_found number_kinds_def
        del: IFLA_IFNAME_def IFLA_QDISC_def IFLA_IFALIAS_def IFLA_PHYS_PORT_NAME_def
          IFLA_PARENT_DEV_NAME_def IFLA_PARENT_DEV_BUS_NAME_def IFLA_CARRIER_def IFLA_LINKINFO_def
          IFLA_MTU_def IFLA_MIN_MTU_def IFLA_MAX_MTU_def IFLA_LINK_def IFLA_MASTER_def
          IFLA_TXQLEN_def IFLA_GROUP_def IFLA_PROMISCUITY_def IFLA_NUM_TX_QUEUES_def
          IFLA_NUM_RX_QUEUES_def IFLA_CARRIER_CHANGES_def IFLA_CARRIER_UP_COUNT_def
          IFLA_CARRIER_DOWN_COUNT_def)
qed

section \<open>Neighbors\<close>

text \<open>The loop of \<open>parse_neighbor\<close> reads the same attributes as the other parsers.\<close>

lemma neighbor_attributes_fold:
  "neighbor_attributes message family offset s =
    map_option (\<lambda>attrs. fold (neighbor_attribute family) attrs s)
      (attributes_from_offset message offset)"
proof (induction message family offset s rule: neighbor_attributes.induct)
  case (1 message family offset s)
  let ?a = "route_attribute_of (drop offset message)"
  let ?len = "unat (ra_length ?a)"
  show ?case
  proof (cases "4 \<le> length message - offset")
    case True
    then have read: "read_unaligned 4 route_attribute_of (drop offset message) = Some ?a"
      by (simp add: read_unaligned_def)
    show ?thesis
    proof (cases "?len < 4 \<or> length message - offset < ?len")
      case True
      with \<open>4 \<le> length message - offset\<close> read show ?thesis
        by (simp add: neighbor_attributes.simps [of message family offset s]
            attributes_from_offset.simps [of message offset])
    next
      case False
      show ?thesis
        using \<open>4 \<le> length message - offset\<close> read False
          "1.IH" [OF \<open>4 \<le> length message - offset\<close> read refl False]
        by (simp add: neighbor_attributes.simps [of message family offset s]
            attributes_from_offset.simps [of message offset] Let_def option.map_comp comp_def)
    qed
  qed (simp add: neighbor_attributes.simps [of message family offset s]
      attributes_from_offset.simps [of message offset])
qed

record kernel_neighbor =
  kn_message :: neighbor_message
  kn_destination :: "ip_addr option"
  kn_link_address :: "bytes option"
  kn_cache :: "neighbor_cache_info option"
  kn_probes :: "u32 option"
  kn_master :: "i32 option"
  kn_protocol :: "u8 option"
  kn_extended_flags :: "u32 option"

definition neighbor_cache_bytes :: "neighbor_cache_info \<Rightarrow> bytes" where
  "neighbor_cache_bytes c =
    u32_bytes (nc_confirmed c) @ u32_bytes (nc_used c) @ u32_bytes (nc_updated c)
    @ u32_bytes (nc_reference_count c)"

definition neighbor_attribute_list :: "kernel_neighbor \<Rightarrow> attributes" where
  "neighbor_attribute_list k =
    attribute_opt NDA_DST ip_octets (kn_destination k) @
    attribute_opt NDA_LLADDR (\<lambda>bs. bs) (kn_link_address k) @
    attribute_opt NDA_CACHEINFO neighbor_cache_bytes (kn_cache k) @
    attribute_opt NDA_PROBES u32_bytes (kn_probes k) @
    attribute_opt NDA_MASTER u32_bytes (kn_master k) @
    attribute_opt NDA_PROTOCOL (\<lambda>b. [b]) (kn_protocol k) @
    attribute_opt NDA_FLAGS_EXT u32_bytes (kn_extended_flags k)"

definition neighbor_message_for :: "u16 \<Rightarrow> u32 \<Rightarrow> kernel_neighbor \<Rightarrow> bytes" where
  "neighbor_message_for t sequence k =
    netlink_message t sequence (neighbor_message_bytes (kn_message k)) (neighbor_attribute_list k)"

definition kernel_neighbor_ok :: "kernel_neighbor \<Rightarrow> bool" where
  "kernel_neighbor_ok k \<longleftrightarrow>
    is_ip_family (nm_family (kn_message k))
    \<and> of_family (nm_family (kn_message k)) (kn_destination k)
    \<and> (case kn_link_address k of None \<Rightarrow> True | Some bs \<Rightarrow> bs \<noteq> [] \<and> length bs < 65532)"

text \<open>An entry is reported when it has an address and is no pseudo-entry; an unresolved one
  only when it is removed and still has a link address.\<close>

definition neighbor_view :: "u64 \<Rightarrow> bool \<Rightarrow> kernel_neighbor \<Rightarrow> neighbor option" where
  "neighbor_view sysconf removed k =
    (let m = kn_message k; age = \<lambda>select. map_option (\<lambda>c. clock_ticks_to_ms sysconf (select c)) (kn_cache k)
     in if nm_state m AND NUD_NOARP = 0
          \<and> (nm_state m AND (NUD_INCOMPLETE OR NUD_FAILED) = 0
             \<or> (removed \<and> kn_link_address k \<noteq> None))
        then map_option (\<lambda>address.
          \<lparr>n_address = address,
           n_link_address = map_option format_link_address (kn_link_address k),
           n_interface_index = nm_interface_index m,
           n_state = neighbor_state (nm_state m),
           n_flags = neighbor_flags (nm_flags m) (unwrap_or 0 (kn_extended_flags k)),
           n_protocol = map_option route_protocol (kn_protocol k),
           n_kind = route_kind (nm_message_type m),
           n_probes = kn_probes k,
           n_confirmed_ms_ago = age nc_confirmed,
           n_used_ms_ago = age nc_used,
           n_updated_ms_ago = age nc_updated,
           n_reference_count = map_option nc_reference_count (kn_cache k),
           n_master_index = kn_master k\<rparr>) (kn_destination k)
        else None)"

lemma neighbor_cache_roundtrip:
  "read_unaligned 16 neighbor_cache_info_of (neighbor_cache_bytes c) = Some c"
  by (simp add: read_unaligned_def neighbor_cache_info_of_def neighbor_cache_bytes_def wire_simps)
    (simp add: field_def)

lemma fold_opt:
  "fold f (map masked (attribute_opt kind enc x)) s =
    (case x of None \<Rightarrow> s | Some v \<Rightarrow> f (kind AND NLA_TYPE_MASK, enc v) s)"
  by (cases x) (simp_all add: attribute_opt_def masked_def)

lemma neighbor_fields_fold:
  assumes "kernel_neighbor_ok k"
  shows "fold (neighbor_attribute (nm_family (kn_message k)))
      (map masked (neighbor_attribute_list k)) neighbor_fields_initial =
    \<lparr>nf_address = kn_destination k,
     nf_link_address = map_option format_link_address (kn_link_address k),
     nf_cache = kn_cache k, nf_probes = kn_probes k, nf_master_index = kn_master k,
     nf_protocol = map_option route_protocol (kn_protocol k),
     nf_extended_flags = unwrap_or 0 (kn_extended_flags k)\<rparr>"
proof -
  have "of_family (nm_family (kn_message k)) (kn_destination k)"
    and "\<And>bs. kn_link_address k = Some bs \<Longrightarrow> bs \<noteq> []"
    using assms by (auto simp: kernel_neighbor_ok_def)
  then show ?thesis
    unfolding neighbor_attribute_list_def map_append fold_append comp_def fold_opt
    by (auto simp: neighbor_attribute_def neighbor_fields_initial_def Let_def
        of_family_def ip_from_bytes_octets neighbor_cache_roundtrip split: option.splits)
qed

lemma parse_neighbor_message:
  assumes "kernel_neighbor_ok k"
  shows "parse_neighbor sysconf (neighbor_message_for t sequence k) removed = neighbor_view sysconf removed k"
proof -
  let ?m = "kn_message k"
  have "list_all encodable_attribute (neighbor_attribute_list k)"
    using assms
    by (auto simp: neighbor_attribute_list_def encodable_opt kernel_neighbor_ok_def
        neighbor_cache_bytes_def)
  then have "attributes (neighbor_message_for t sequence k) 12 = Some (map masked (neighbor_attribute_list k))"
    unfolding neighbor_message_for_def by (intro netlink_message_attributes) simp_all
  then have fields: "neighbor_attributes (neighbor_message_for t sequence k) (nm_family ?m)
      (align_to_4 (16 + 12)) neighbor_fields_initial =
      Some (fold (neighbor_attribute (nm_family ?m)) (map masked (neighbor_attribute_list k))
        neighbor_fields_initial)"
    by (simp add: neighbor_attributes_fold attributes_def)
  have family: "is_ip_family (nm_family ?m)"
    using assms by (simp add: kernel_neighbor_ok_def)
  have payload: "get_from 16 (neighbor_message_for t sequence k) =
      Some (neighbor_message_bytes ?m @ concat (map attribute_bytes (neighbor_attribute_list k)))"
    unfolding neighbor_message_for_def by (simp add: netlink_message_payload)
  show ?thesis
    unfolding parse_neighbor_def payload
    by (cases "kn_destination k")
      (simp_all add: read_payload family fields [simplified] neighbor_fields_fold [OF assms]
        is_reportable_neighbor_def neighbor_view_def Let_def)
qed

end
