(* ===== verification/Netlink_Dump_Spec.thy ===== *)
theory Netlink_Dump_Spec
  imports Netlink_Dump Netlink_Roundtrip
begin

text \<open>
  What a dump promises. The datagrams of a socket are flattened into the list of messages
  they carry, up to the first fault; \<open>dump_spec\<close> says what a dump makes of that list, without
  buffers, offsets or loops, and the receive loops are shown to implement it.
\<close>

section \<open>The transcript of a socket\<close>

text \<open>The messages received until the first fault, and that fault if there is one.\<close>

fun transcript ::
  "nat \<Rightarrow> io_error \<Rightarrow> io_error \<Rightarrow> recv_outcome list \<Rightarrow> bytes list \<times> io_error option" where
  "transcript capacity closed invalid [] = ([], None)"
| "transcript capacity closed invalid (RecvFailed code # script) =
    (if kind_of (Os code) = Interrupted then transcript capacity closed invalid script
     else ([], Some (Os code)))"
| "transcript capacity closed invalid (Received data # script) =
    (if take capacity data = [] then ([], Some closed)
     else
       (case frames (take capacity data) 0 of
          (messages, False) \<Rightarrow> (messages, Some invalid)
        | (messages, True) \<Rightarrow>
            (case transcript capacity closed invalid script of
               (later, fault) \<Rightarrow> (messages @ later, fault))))"

lemma run_steps_append:
  "run_steps step (ms @ ns) s =
    (case run_steps step ms s of Return r \<Rightarrow> Return r | Continue s' \<Rightarrow> run_steps step ns s')"
  by (induction ms arbitrary: s) (auto split: flow.splits)

text \<open>The two nested loops run their body over the transcript.\<close>

lemma receive_messages:
  "map_option fst (receive_loop capacity closed
      (\<lambda>datagram s. message_loop truncated invalid step datagram 0 s) script s) =
    (case transcript capacity (Custom UnexpectedEof closed) (Custom InvalidData invalid) script of
       (messages, fault) \<Rightarrow>
         (case run_steps step messages s of
            Return r \<Rightarrow> Some r
          | Continue _ \<Rightarrow> map_option Err fault))"
proof (induction script arbitrary: s)
  case (Cons event script)
  show ?case
  proof (cases event)
    case (Received data)
    with Cons show ?thesis
      by (auto simp: message_loop_frames run_steps_append split: prod.splits flow.splits bool.splits)
  next
    case (RecvFailed code)
    with Cons show ?thesis
      by auto
  qed
qed simp

section \<open>The specification of a dump\<close>

abbreviation type_of :: "bytes \<Rightarrow> u16" where
  "type_of m \<equiv> mh_message_type (message_header_of m)"

text \<open>A message of the dump ends it when it is the final one, an overrun, or an error.\<close>

definition ends_dump :: "bytes \<Rightarrow> bool" where
  "ends_dump m \<longleftrightarrow>
    type_of m = NLMSG_DONE \<or> type_of m = NLMSG_OVERRUN
    \<or> (type_of m = NLMSG_ERROR \<and> parse_netlink_error m \<noteq> Ok ())"

definition dump_ending :: "string \<Rightarrow> bytes \<Rightarrow> 't list \<Rightarrow> 't list result" where
  "dump_ending name m values =
    (if type_of m = NLMSG_DONE then dump_done name (message_header_of m) m values
     else if type_of m = NLMSG_OVERRUN then Err (dump_overrun name)
     else Err (err_value (parse_netlink_error m)))"

definition dump_values :: "u16 \<Rightarrow> (bytes \<Rightarrow> 't option) \<Rightarrow> bytes list \<Rightarrow> 't list" where
  "dump_values expected_type parse messages =
    filter_map parse (filter (\<lambda>m. type_of m = expected_type) messages)"

definition dump_spec ::
  "string \<Rightarrow> u32 \<Rightarrow> u16 \<Rightarrow> (bytes \<Rightarrow> 't option) \<Rightarrow> bytes list \<Rightarrow> 't list result option" where
  "dump_spec name expected_sequence expected_type parse messages =
    (let mine = filter (\<lambda>m. mh_sequence (message_header_of m) = expected_sequence) messages
     in case dropWhile (\<lambda>m. \<not> ends_dump m) mine of
          [] \<Rightarrow> None
        | m # _ \<Rightarrow>
            Some (dump_ending name m
              (dump_values expected_type parse (takeWhile (\<lambda>m. \<not> ends_dump m) mine))))"

definition table_type :: "u16 \<Rightarrow> bool" where
  "table_type t \<longleftrightarrow> t \<noteq> NLMSG_DONE \<and> t \<noteq> NLMSG_ERROR \<and> t \<noteq> NLMSG_OVERRUN"

lemma dump_values_Cons:
  "dump_values t parse (m # ms) = dump_values t parse [m] @ dump_values t parse ms"
  by (simp add: dump_values_def split: option.splits)

lemma run_dump_steps:
  assumes "table_type expected_type"
  shows "run_steps (dump_step name expected_sequence expected_type parse) messages acc =
    (let mine = filter (\<lambda>m. mh_sequence (message_header_of m) = expected_sequence) messages;
         found = acc @ dump_values expected_type parse (takeWhile (\<lambda>m. \<not> ends_dump m) mine)
     in case dropWhile (\<lambda>m. \<not> ends_dump m) mine of
          [] \<Rightarrow> Continue found
        | m # _ \<Rightarrow> Return (dump_ending name m found))"
proof (induction messages arbitrary: acc)
  case Nil
  then show ?case by (simp add: dump_values_def)
next
  case (Cons m messages)
  consider "mh_sequence (message_header_of m) \<noteq> expected_sequence"
    | "mh_sequence (message_header_of m) = expected_sequence" "ends_dump m"
    | "mh_sequence (message_header_of m) = expected_sequence" "\<not> ends_dump m"
    by blast
  then show ?case
  proof cases
    case 1
    with Cons show ?thesis
      by (simp add: dump_step_def)
  next
    case 2
    then show ?thesis
      by (auto simp: dump_step_def ends_dump_def dump_ending_def Let_def dump_values_def
          split: result.splits)
  next
    case 3
    have "parse_netlink_error m = Ok ()" if "type_of m = NLMSG_ERROR"
      using 3(2) that by (auto simp: ends_dump_def)
    with 3 assms have step: "dump_step name expected_sequence expected_type parse (message_header_of m)
        m acc = Continue (acc @ dump_values expected_type parse [m])"
      by (auto simp: dump_step_def ends_dump_def dump_values_def table_type_def split: option.splits)
    let ?mine = "filter (\<lambda>m. mh_sequence (message_header_of m) = expected_sequence) messages"
    have "dump_values expected_type parse (m # takeWhile (\<lambda>m. \<not> ends_dump m) ?mine) =
        dump_values expected_type parse [m] @
        dump_values expected_type parse (takeWhile (\<lambda>m. \<not> ends_dump m) ?mine)"
      by (rule dump_values_Cons)
    with 3 Cons [of "acc @ dump_values expected_type parse [m]"] show ?thesis
      by (simp add: step Let_def del: dropWhile_eq_Nil_conv split: list.split)
  qed
qed

lemma receive_dump_spec:
  assumes "table_type expected_type"
  shows "map_option fst (receive_dump script expected_sequence expected_type name parse) =
    (case transcript (64 * 1024) (Custom UnexpectedEof ''netlink socket closed'')
        (Custom InvalidData (''invalid '' @ name @ '' message length'')) script of
       (messages, fault) \<Rightarrow>
         (case dump_spec name expected_sequence expected_type parse messages of
            Some r \<Rightarrow> Some r
          | None \<Rightarrow> map_option Err fault))"
  by (auto simp: receive_dump_def receive_messages run_dump_steps [OF assms] dump_spec_def Let_def
      simp del: dropWhile_eq_Nil_conv
      split: prod.splits list.splits)

section \<open>The two styles of parsing a reply\<close>

text \<open>An acknowledgement is an error message with code 0; the kernel does not acknowledge a
  dump. \<open>parse_response\<close> and \<open>parse_address_response\<close> skip the rest of a datagram behind
  one, \<open>receive_dump\<close> does not; without one the two styles agree.\<close>

definition acknowledges :: "u32 \<Rightarrow> bytes \<Rightarrow> bool" where
  "acknowledges expected_sequence m \<longleftrightarrow>
    mh_sequence (message_header_of m) = expected_sequence \<and> type_of m = NLMSG_ERROR
    \<and> parse_netlink_error m = Ok ()"

definition no_acknowledgement :: "nat \<Rightarrow> u32 \<Rightarrow> recv_outcome list \<Rightarrow> bool" where
  "no_acknowledgement capacity expected_sequence script \<longleftrightarrow>
    list_all (\<lambda>event. case event of
        Received data \<Rightarrow>
          list_all (\<lambda>m. \<not> acknowledges expected_sequence m) (fst (frames (take capacity data) 0))
      | RecvFailed _ \<Rightarrow> True) script"

lemma run_response_steps:
  assumes "list_all (\<lambda>m. \<not> acknowledges expected_sequence m) ms"
  shows "run_steps (response_step name expected_sequence expected_type parse) ms acc =
    (case run_steps (dump_step name expected_sequence expected_type parse) ms acc of
       Continue acc' \<Rightarrow> Continue acc'
     | Return (Err e) \<Rightarrow> Return (Err e)
     | Return (Ok values) \<Rightarrow> Return (Ok (values, True)))"
  using assms
proof (induction ms arbitrary: acc)
  case (Cons m ms)
  have "dump_done name h x (v, True) =
      (case dump_done name h x v of Ok v \<Rightarrow> Ok (v, True) | Err e \<Rightarrow> Err e)"
    for h x and v :: "'a list"
    by (simp add: dump_done_def split: option.splits)
  moreover have "mh_sequence (message_header_of m) = expected_sequence \<Longrightarrow> type_of m = NLMSG_ERROR \<Longrightarrow>
      \<exists>e. parse_netlink_error m = Err e"
    using Cons.prems by (cases "parse_netlink_error m") (auto simp: acknowledges_def)
  ultimately show ?case
    using Cons by (auto simp: dump_step_def response_step_def split: result.splits)
qed simp

lemma until_done_dump:
  assumes "list_all (\<lambda>m. \<not> acknowledges expected_sequence m) (fst (frames datagram 0))"
  shows "until_done (\<lambda>d acc. finish_response
      (message_loop truncated invalid (response_step name expected_sequence expected_type parse) d 0 acc))
      datagram acc =
    message_loop truncated' invalid (dump_step name expected_sequence expected_type parse) datagram 0 acc"
proof -
  obtain ms complete where frames: "frames datagram 0 = (ms, complete)"
    by (cases "frames datagram 0")
  with assms have "list_all (\<lambda>m. \<not> acknowledges expected_sequence m) ms"
    by simp
  from run_response_steps [OF this, of name expected_type parse acc] show ?thesis
    by (cases "run_steps (dump_step name expected_sequence expected_type parse) ms acc")
      (auto simp: until_done_def finish_response_def message_loop_frames frames
        split: result.splits)
qed

lemma receive_loop_cong:
  assumes "\<And>data s. Received data \<in> set script \<Longrightarrow> body (take capacity data) s = body' (take capacity data) s"
  shows "receive_loop capacity closed body script s = receive_loop capacity closed body' script s"
  using assms
proof (induction script arbitrary: s)
  case (Cons event script)
  then show ?case
    by (cases event) (auto split: flow.splits)
qed simp

lemma receive_until_done:
  assumes "no_acknowledgement capacity expected_sequence script"
  shows "receive_loop capacity closed (until_done (\<lambda>d acc. finish_response
      (message_loop truncated invalid (response_step name expected_sequence expected_type parse) d 0 acc)))
      script acc =
    receive_loop capacity closed
      (\<lambda>d acc. message_loop truncated invalid (dump_step name expected_sequence expected_type parse) d 0 acc)
      script acc"
proof (rule receive_loop_cong)
  fix data s
  assume "Received data \<in> set script"
  with assms have "list_all (\<lambda>m. \<not> acknowledges expected_sequence m) (fst (frames (take capacity data) 0))"
    by (auto simp: no_acknowledgement_def list_all_iff)
  then show "until_done (\<lambda>d acc. finish_response
      (message_loop truncated invalid (response_step name expected_sequence expected_type parse) d 0 acc))
      (take capacity data) s =
      message_loop truncated invalid (dump_step name expected_sequence expected_type parse)
        (take capacity data) 0 s"
    by (rule until_done_dump)
qed

section \<open>A kernel that answers\<close>

text \<open>The datagrams of a complete reply: each carries at least one whole message and fits the
  buffer.\<close>

definition packets :: "bytes list list \<Rightarrow> recv_outcome list" where
  "packets mss = map (\<lambda>ms. Received (concat (map pad_to_4 ms))) mss"

definition packets_ok :: "nat \<Rightarrow> bytes list list \<Rightarrow> bool" where
  "packets_ok capacity mss \<longleftrightarrow>
    list_all (\<lambda>ms. ms \<noteq> [] \<and> list_all framed ms \<and> length (concat (map pad_to_4 ms)) \<le> capacity) mss"

definition done_message :: "u32 \<Rightarrow> bytes" where
  "done_message sequence =
    message_header_bytes
      \<lparr>mh_length = 20, mh_message_type = NLMSG_DONE, mh_flags = 2, mh_sequence = sequence, mh_port_id = 0\<rparr>
    @ [0, 0, 0, 0]"

definition answers :: "kernel \<Rightarrow> bytes \<Rightarrow> recv_outcome list \<Rightarrow> bool" where
  "answers k request script \<longleftrightarrow>
    open_route_socket k 0 = Ok () \<and> send_request k request = Ok () \<and> k_replies k request = script"

lemma framed_not_empty: "framed m \<Longrightarrow> pad_to_4 m \<noteq> []"
  by (auto simp: framed_def pad_to_4_def)

lemma transcript_packets:
  "packets_ok capacity mss \<Longrightarrow> transcript capacity closed invalid (packets mss) = (concat mss, None)"
proof (induction mss)
  case (Cons ms mss)
  then have ms: "ms \<noteq> []" "list_all framed ms" "length (concat (map pad_to_4 ms)) \<le> capacity"
    and rest: "transcript capacity closed invalid (packets mss) = (concat mss, None)"
    by (simp_all add: packets_ok_def)
  from ms have "concat (map pad_to_4 ms) \<noteq> []"
    by (cases ms) (simp_all add: framed_not_empty)
  with ms rest show ?case
    by (simp add: packets_def frames_concat)
qed (simp add: packets_def)

lemma netlink_message_header [simp]:
  "mh_message_type (message_header_of (netlink_message t s p attrs)) = t"
  "mh_sequence (message_header_of (netlink_message t s p attrs)) = s"
  by (simp_all add: netlink_message_def Let_def)

lemma done_message_header [simp]:
  "mh_message_type (message_header_of (done_message s)) = 3"
  "mh_sequence (message_header_of (done_message s)) = s"
  "mh_flags (message_header_of (done_message s)) = 2"
  by (simp_all add: done_message_def)

lemma done_message_ends [simp]: "dump_ending name (done_message s) acc = Ok acc"
  by (simp add: dump_ending_def dump_done_def)
    (simp add: done_message_def read_i32_def get_from_def read_unaligned_def field_def)

lemma ends_dump_done [simp]: "ends_dump (done_message s)"
  by (simp add: ends_dump_def)

lemma dump_spec_complete:
  assumes "table_type t" and "\<And>x. x \<in> set xs \<Longrightarrow> type_of (enc x) = t"
    and "\<And>x. x \<in> set xs \<Longrightarrow> mh_sequence (message_header_of (enc x)) = s"
  shows "dump_spec name s t parse (map enc xs @ [done_message s]) =
    Some (Ok (filter_map (\<lambda>x. parse (enc x)) xs))"
proof -
  have not_end: "\<not> ends_dump (enc x)" if "x \<in> set xs" for x
    using assms(1,2) that by (auto simp: ends_dump_def table_type_def)
  then have "takeWhile (\<lambda>m. \<not> ends_dump m) (map enc xs @ [done_message s]) = map enc xs"
    by (subst takeWhile_append2) auto
  moreover have "dropWhile (\<lambda>m. \<not> ends_dump m) (map enc xs @ [done_message s]) = [done_message s]"
    using not_end by (subst dropWhile_append2) auto
  moreover have "dump_values t parse (map enc xs) = filter_map (\<lambda>x. parse (enc x)) xs"
    using assms(2) by (induction xs) (auto simp: dump_values_def split: option.splits)
  ultimately show ?thesis
    using assms(3) by (simp add: dump_spec_def Let_def filter_id_conv [THEN iffD2])
qed

lemma receive_dump_complete:
  assumes "packets_ok (64 * 1024) mss" and "concat mss = map enc xs @ [done_message s]"
    and "table_type t" and "\<And>x. x \<in> set xs \<Longrightarrow> type_of (enc x) = t"
    and "\<And>x. x \<in> set xs \<Longrightarrow> mh_sequence (message_header_of (enc x)) = s"
  shows "map_option fst (receive_dump (packets mss) s t name parse) =
    Some (Ok (filter_map (\<lambda>x. parse (enc x)) xs))"
proof -
  have "dump_spec name s t parse (map enc xs @ [done_message s]) =
      Some (Ok (filter_map (\<lambda>x. parse (enc x)) xs))"
    using assms(3-5) by (rule dump_spec_complete)
  then show ?thesis
    by (simp add: receive_dump_spec [OF assms(3)] transcript_packets [OF assms(1), simplified] assms(2))
qed

lemma question_Ok: "question r f = Some (Ok x) \<longleftrightarrow> (\<exists>y. r = Ok y \<and> f y = Some (Ok x))"
  by (cases r) auto

lemma after_dump_Ok:
  "after_dump f outcome = Some (Ok x) \<longleftrightarrow> (\<exists>acc rest. outcome = Some (Ok acc, rest) \<and> x = f acc)"
  by (cases "(f, outcome)" rule: after_dump.cases) auto

lemma after_dump_fst: "map_option fst outcome = Some (Ok values) \<Longrightarrow> after_dump f outcome = Some (Ok (f values))"
  by (cases outcome) auto

lemma filter_map_total:
  assumes "\<And>x. x \<in> set xs \<Longrightarrow> f x = Some (g x)"
  shows "filter_map f xs = map g xs"
  using assms by (induction xs) auto

lemma filter_map_cong:
  assumes "\<And>x. x \<in> set xs \<Longrightarrow> f x = g x"
  shows "filter_map f xs = filter_map g xs"
  using assms by (induction xs) (auto split: option.splits)

lemma packets_no_acknowledgement:
  assumes "packets_ok capacity mss" and "list_all (\<lambda>m. \<not> acknowledges s m) (concat mss)"
  shows "no_acknowledgement capacity s (packets mss)"
proof -
  have "list_all (\<lambda>m. \<not> acknowledges s m) (fst (frames (take capacity (concat (map pad_to_4 ms))) 0))"
    if "ms \<in> set mss" for ms
    using assms that by (auto simp: packets_ok_def list_all_iff frames_concat)
  then show ?thesis
    by (auto simp: no_acknowledgement_def packets_def list_all_iff)
qed

text \<open>The loop around \<open>parse_response\<close> and \<open>parse_address_response\<close> on a complete reply.\<close>

lemma receive_until_done_complete:
  assumes "packets_ok (64 * 1024) mss" and "concat mss = map enc xs @ [done_message s]"
    and "table_type t" and "\<And>x. x \<in> set xs \<Longrightarrow> type_of (enc x) = t"
    and "\<And>x. x \<in> set xs \<Longrightarrow> mh_sequence (message_header_of (enc x)) = s"
  shows "map_option fst (receive_loop (64 * 1024) closed (until_done (\<lambda>d acc. finish_response
      (message_loop truncated invalid (response_step name s t parse) d 0 acc))) (packets mss) []) =
    Some (Ok (filter_map (\<lambda>x. parse (enc x)) xs))"
proof -
  have "list_all (\<lambda>m. \<not> acknowledges s m) (concat mss)"
    using assms(2-4) by (auto simp: list_all_iff acknowledges_def table_type_def)
  then have "no_acknowledgement (64 * 1024) s (packets mss)"
    by (rule packets_no_acknowledgement [OF assms(1)])
  note same = receive_until_done [OF this]
  have "run_steps (dump_step name s t parse) (concat mss) [] =
      Return (Ok (filter_map (\<lambda>x. parse (enc x)) xs))"
    using dump_spec_complete [of t xs enc s name parse, OF assms(3-5)]
    by (auto simp: run_dump_steps [OF assms(3)] dump_spec_def Let_def assms(2)
        simp del: dropWhile_eq_Nil_conv split: list.splits)
  then show ?thesis
    unfolding same receive_messages transcript_packets [OF assms(1)] by simp
qed

section \<open>Complete snapshots\<close>

lemmas snapshot_defs =
  routes_for_family_def rules_for_family_def links_def neighbors_def addresses_for_family_def
  send_neighbor_request_def send_address_request_def parse_response_def parse_address_response_def

lemma message_for_header [simp]:
  "type_of (route_message_for t s kr) = t" "mh_sequence (message_header_of (route_message_for t s kr)) = s"
  "type_of (rule_message_for t s kp) = t" "mh_sequence (message_header_of (rule_message_for t s kp)) = s"
  "type_of (link_message_for t s kl) = t" "mh_sequence (message_header_of (link_message_for t s kl)) = s"
  "type_of (address_message_for t s ka) = t"
  "mh_sequence (message_header_of (address_message_for t s ka)) = s"
  "type_of (neighbor_message_for t s kn) = t"
  "mh_sequence (message_header_of (neighbor_message_for t s kn)) = s"
  by (simp_all add: route_message_for_def rule_message_for_def link_message_for_def
      address_message_for_def neighbor_message_for_def)

lemma routes_complete:
  assumes "answers k (route_dump_request family) (packets mss)"
    and "packets_ok (64 * 1024) mss"
    and "concat mss = map (route_message_for RTM_NEWROUTE ROUTE_DUMP_SEQUENCE) routes
      @ [done_message ROUTE_DUMP_SEQUENCE]"
    and "list_all kernel_route_ok routes"
  shows "routes_for_family k family =
    Some (Ok (sort_key route_key
      (filter (\<lambda>r. ip_address_matches_family (r_destination r) family) (map route_view routes))))"
proof -
  have "map_option fst (receive_dump (packets mss) ROUTE_DUMP_SEQUENCE RTM_NEWROUTE ''route'' parse_route) =
      Some (Ok (map route_view routes))"
    using assms(4)
    by (subst receive_dump_complete [OF assms(2,3)])
      (auto simp: table_type_def parse_route_message list_all_iff intro!: filter_map_total)
  from after_dump_fst [OF this] show ?thesis
    using assms(1) by (simp add: snapshot_defs answers_def)
qed

text \<open>C1: When the kernel answers a route dump with any number of routes, in any number of
  datagrams, and the final message, \<open>routes_for_family\<close> returns exactly the routes of the
  requested family, every field decoded, ordered by table, destination, prefix and metric.\<close>

theorem routes_snapshot:
  assumes "answers k (route_dump_request family) (packets mss)"
    and "packets_ok (64 * 1024) mss"
    and "concat mss = map (route_message_for RTM_NEWROUTE ROUTE_DUMP_SEQUENCE) routes
      @ [done_message ROUTE_DUMP_SEQUENCE]"
    and "list_all kernel_route_ok routes"
  shows "routes_for_family k family =
    Some (Ok (sort_key route_key
      (filter (\<lambda>r. ip_address_matches_family (r_destination r) family) (map route_view routes))))"
  using assms by (rule routes_complete)

text \<open>A complete answer to a rule dump is returned whole by \<open>rules_for_family\<close>, decoded and
  ordered by priority; rules of equal priority keep the kernel's order.\<close>

theorem rules_snapshot:
  assumes "answers k (rule_request family) (packets mss)"
    and "packets_ok (64 * 1024) mss"
    and "concat mss = map (rule_message_for RTM_NEWRULE RULE_DUMP_SEQUENCE) rules
      @ [done_message RULE_DUMP_SEQUENCE]"
    and "list_all kernel_rule_ok rules"
  shows "rules_for_family k family =
    Some (Ok (sort_key ru_priority
      (filter (\<lambda>r. ip_family_matches_family (ru_family r) family) (map rule_view rules))))"
proof -
  have "map_option fst (receive_dump (packets mss) RULE_DUMP_SEQUENCE RTM_NEWRULE ''rule'' parse_rule) =
      Some (Ok (map rule_view rules))"
    using assms(4)
    by (subst receive_dump_complete [OF assms(2,3)])
      (auto simp: table_type_def parse_rule_message list_all_iff intro!: filter_map_total)
  from after_dump_fst [OF this] show ?thesis
    using assms(1) by (simp add: snapshot_defs answers_def)
qed

lemma links_complete:
  assumes "answers k link_request (packets mss)"
    and "packets_ok (64 * 1024) mss"
    and "concat mss = map (link_message_for RTM_NEWLINK LINK_DUMP_SEQUENCE) ls
      @ [done_message LINK_DUMP_SEQUENCE]"
    and "list_all kernel_link_ok ls"
  shows "links k = Some (Ok (sort_key link_key (map link_view ls)))"
proof -
  have "map_option fst (receive_dump (packets mss) LINK_DUMP_SEQUENCE RTM_NEWLINK ''link'' parse_link) =
      Some (Ok (map link_view ls))"
    using assms(4)
    by (subst receive_dump_complete [OF assms(2,3)])
      (auto simp: table_type_def parse_link_message list_all_iff intro!: filter_map_total)
  from after_dump_fst [OF this] show ?thesis
    using assms(1) by (simp add: snapshot_defs answers_def)
qed

text \<open>A complete answer to a link dump is returned whole by \<open>links\<close>, with the nested link
  information and alternative names decoded, in the order of the signed interface index.\<close>

theorem links_snapshot:
  assumes "answers k link_request (packets mss)"
    and "packets_ok (64 * 1024) mss"
    and "concat mss = map (link_message_for RTM_NEWLINK LINK_DUMP_SEQUENCE) ls
      @ [done_message LINK_DUMP_SEQUENCE]"
    and "list_all kernel_link_ok ls"
  shows "links k = Some (Ok (sort_key link_key (map link_view ls)))"
  by (rule links_complete [OF assms])

lemma neighbors_complete:
  assumes "answers k (neighbor_request family) (packets mss)"
    and "packets_ok (64 * 1024) mss"
    and "concat mss = map (neighbor_message_for RTM_NEWNEIGH REQUEST_SEQUENCE) ns
      @ [done_message REQUEST_SEQUENCE]"
    and "list_all kernel_neighbor_ok ns"
  shows "neighbors sysconf k family =
    Some (Ok (sort_key neighbor_key
      (filter (\<lambda>n. ip_address_matches_family (n_address n) family)
        (filter_map (neighbor_view sysconf False) ns))))"
proof -
  let ?parse = "\<lambda>message. parse_neighbor sysconf message False"
  have views: "filter_map (\<lambda>x. ?parse (neighbor_message_for RTM_NEWNEIGH REQUEST_SEQUENCE x)) ns =
      filter_map (neighbor_view sysconf False) ns"
    using assms(4) by (intro filter_map_cong) (simp add: list_all_iff parse_neighbor_message)
  have "map_option fst (receive_loop (64 * 1024) ''netlink socket closed before the dump completed''
      (until_done (\<lambda>datagram. parse_response sysconf datagram REQUEST_SEQUENCE)) (packets mss) []) =
      Some (Ok (filter_map (neighbor_view sysconf False) ns))"
    unfolding parse_response_def
    by (subst receive_until_done_complete [OF assms(2,3)])
      (simp_all add: table_type_def views [simplified])
  from after_dump_fst [OF this] show ?thesis
    using assms(1) by (simp add: answers_def neighbors_def send_neighbor_request_def)
qed

text \<open>A complete answer to a neighbor dump is returned by \<open>neighbors\<close>: exactly the resolved
  entries with an address of the requested family, ordered by interface and address.\<close>

theorem neighbors_snapshot:
  assumes "answers k (neighbor_request family) (packets mss)"
    and "packets_ok (64 * 1024) mss"
    and "concat mss = map (neighbor_message_for RTM_NEWNEIGH REQUEST_SEQUENCE) ns
      @ [done_message REQUEST_SEQUENCE]"
    and "list_all kernel_neighbor_ok ns"
  shows "neighbors sysconf k family =
    Some (Ok (sort_key neighbor_key
      (filter (\<lambda>n. ip_address_matches_family (n_address n) family)
        (filter_map (neighbor_view sysconf False) ns))))"
  using assms by (rule neighbors_complete)

lemma addresses_complete:
  assumes "answers k (address_request family) (packets mss)"
    and "packets_ok (64 * 1024) mss"
    and "concat mss = map (address_message_for RTM_NEWADDR ADDRESS_SEQUENCE) addrs
      @ [done_message ADDRESS_SEQUENCE]"
    and "list_all kernel_address_ok addrs"
  shows "addresses_for_family k family =
    Some (Ok (sort_key address_key
      (filter (\<lambda>a. ip_address_matches_family (a_local a) family) (filter_map address_view addrs))))"
proof -
  have views: "filter_map (\<lambda>x. parse_address (address_message_for RTM_NEWADDR ADDRESS_SEQUENCE x)) addrs =
      filter_map address_view addrs"
    using assms(4) by (intro filter_map_cong) (simp add: list_all_iff parse_address_message)
  have "map_option fst (receive_loop (64 * 1024) ''netlink socket closed''
      (until_done (\<lambda>datagram. parse_address_response datagram ADDRESS_SEQUENCE)) (packets mss) []) =
      Some (Ok (filter_map address_view addrs))"
    unfolding parse_address_response_def
    by (subst receive_until_done_complete [OF assms(2,3)])
      (simp_all add: table_type_def views [simplified])
  from after_dump_fst [OF this] show ?thesis
    using assms(1) by (simp add: answers_def addresses_for_family_def send_address_request_def)
qed

text \<open>A complete answer to an address dump is returned by \<open>addresses_for_family\<close>: every
  address that the message names, of the requested family, ordered by interface and address.\<close>

theorem addresses_snapshot:
  assumes "answers k (address_request family) (packets mss)"
    and "packets_ok (64 * 1024) mss"
    and "concat mss = map (address_message_for RTM_NEWADDR ADDRESS_SEQUENCE) addrs
      @ [done_message ADDRESS_SEQUENCE]"
    and "list_all kernel_address_ok addrs"
  shows "addresses_for_family k family =
    Some (Ok (sort_key address_key
      (filter (\<lambda>a. ip_address_matches_family (a_local a) family) (filter_map address_view addrs))))"
  by (rule addresses_complete [OF assms])

section \<open>Concrete replies\<close>

definition example_kernel :: "recv_outcome list \<Rightarrow> kernel" where
  "example_kernel script =
    \<lparr>k_socket = None, k_bind = \<lambda>_. None, k_sendto = \<lambda>request. Inr (length request),
     k_replies = \<lambda>_. script\<rparr>"

lemma answers_example: "answers (example_kernel script) request script"
  by (simp add: answers_def example_kernel_def open_route_socket_def send_request_def)

lemma framed_netlink_message:
  "length payload + length (concat (map attribute_bytes attrs)) < 2 ^ 31 \<Longrightarrow>
    framed (netlink_message t s payload attrs)"
proof -
  let ?n = "16 + (length payload + length (concat (map attribute_bytes attrs)))"
  assume "length payload + length (concat (map attribute_bytes attrs)) < 2 ^ 31"
  then have "unat (of_nat ?n :: u32) = ?n"
    by (simp add: unat_of_nat del: of_nat_add)
  then show ?thesis
    by (simp add: framed_def netlink_message_def Let_def del: of_nat_add)
qed

lemma framed_done [simp]: "framed (done_message s)"
  by (simp add: framed_def done_message_def)

lemma length_netlink_message:
  "length (netlink_message t s payload attrs) =
    16 + length payload + length (concat (map attribute_bytes attrs))"
  by (simp add: netlink_message_def Let_def)

lemma length_done_message [simp]: "length (done_message s) = 20" "done_message s \<noteq> []"
  by (simp_all add: done_message_def message_header_bytes_def)

definition example_route :: kernel_route where
  "example_route =
    \<lparr>kr_message = \<lparr>rm_family = AF_INET, rm_destination_prefix = 0, rm_source_prefix = 0, rm_tos = 0,
       rm_table = 254, rm_protocol = 16, rm_scope = 0, rm_route_type = 1, rm_flags = 0\<rparr>,
     kr_destination = None, kr_source = None, kr_gateway = Some (V4 0xC0A80001),
     kr_output_interface = Some 2, kr_priority = Some 100, kr_preferred_source = None,
     kr_table = Some 254, kr_multipath = None\<rparr>"

lemma example_packets:
  "packets_ok (64 * 1024)
    [[route_message_for RTM_NEWROUTE ROUTE_DUMP_SEQUENCE example_route], [done_message ROUTE_DUMP_SEQUENCE]]"
  "list_all kernel_route_ok [example_route]"
  by (simp_all add: packets_ok_def route_message_for_def framed_netlink_message length_netlink_message
      kernel_route_ok_def example_route_def is_ip_family_def of_family_def route_attributes_def
      attribute_opt_def length_attribute_bytes align_to_4_def)

lemma example_route_family: "ip_address_matches_family (r_destination (route_view example_route)) AF_INET"
  by (simp add: route_view_def example_route_def unspecified_address_def)

theorem routes_snapshot_witness:
  "routes_for_family (example_kernel (packets
      [[route_message_for RTM_NEWROUTE ROUTE_DUMP_SEQUENCE example_route],
       [done_message ROUTE_DUMP_SEQUENCE]])) AF_INET =
    Some (Ok [route_view example_route])"
  using routes_snapshot [OF answers_example example_packets(1) _ example_packets(2), of AF_INET]
    example_route_family
  by simp

definition example_rule :: kernel_rule where
  "example_rule =
    \<lparr>kp_message = \<lparr>rum_family = AF_INET, rum_destination_prefix = 0, rum_source_prefix = 24, rum_tos = 0,
       rum_table = 100, rum_action = 1, rum_flags = 0\<rparr>,
     kp_source = Some (V4 0x0A000000), kp_destination = None, kp_input_interface = Some ''eth0'',
     kp_output_interface = None, kp_priority = Some 1000, kp_fwmark = None, kp_fwmask = None,
     kp_table = Some 100, kp_goto = None\<rparr>"

theorem rules_snapshot_witness:
  "rules_for_family (example_kernel (packets
      [[rule_message_for RTM_NEWRULE RULE_DUMP_SEQUENCE example_rule, done_message 5]])) AF_INET =
    Some (Ok [rule_view example_rule])"
  by (subst rules_snapshot [where rules = "[example_rule]", OF answers_example])
    (simp_all add: packets_ok_def rule_message_for_def framed_netlink_message length_netlink_message
      kernel_rule_ok_def example_rule_def is_ip_family_def of_family_def rule_attributes_def
      attribute_opt_def length_attribute_bytes align_to_4_def rule_view_def text_ok_def
      kernel_text_def as_bytes_def byte_of_char_def)

definition example_link :: kernel_link where
  "example_link =
    \<lparr>kl_message = \<lparr>lm_family = 0, lm_link_type = 1, lm_interface_index = 7, lm_flags = 0x11043, lm_change = 0\<rparr>,
     kl_name = ''eth0.5'',
     kl_texts = [(IFLA_QDISC, Some ''noqueue''), (IFLA_IFALIAS, None), (IFLA_PHYS_PORT_NAME, None),
       (IFLA_PARENT_DEV_NAME, None), (IFLA_PARENT_DEV_BUS_NAME, None)],
     kl_numbers = map (\<lambda>kind. (kind, Some 1500)) number_kinds,
     kl_operstate = Some 6, kl_carrier = Some 1,
     kl_info = Some (Some ''vlan'', Some 5), kl_properties = Some [''uplink'']\<rparr>"

theorem links_snapshot_witness:
  "links (example_kernel (packets
      [[link_message_for RTM_NEWLINK LINK_DUMP_SEQUENCE example_link], [done_message 6]])) =
    Some (Ok [link_view example_link])"
  by (subst links_snapshot [where ls = "[example_link]", OF answers_example])
    (simp_all add: packets_ok_def link_message_for_def framed_netlink_message length_netlink_message
      kernel_link_ok_def example_link_def link_attributes_def text_kinds_def number_kinds_def
      link_info_bytes_def property_list_bytes_def comp_def
      attribute_opt_def length_attribute_bytes align_to_4_def text_ok_def
      kernel_text_def as_bytes_def byte_of_char_def)

lemma links_example:
  "links (example_kernel (packets
      [[link_message_for RTM_NEWLINK LINK_DUMP_SEQUENCE example_link], [done_message 6]])) =
    Some (Ok [link_view example_link])"
  by (subst links_complete [where ls = "[example_link]", OF answers_example])
    (simp_all add: packets_ok_def link_message_for_def framed_netlink_message length_netlink_message
      kernel_link_ok_def example_link_def link_attributes_def text_kinds_def number_kinds_def
      link_info_bytes_def property_list_bytes_def comp_def
      attribute_opt_def length_attribute_bytes align_to_4_def text_ok_def
      kernel_text_def as_bytes_def byte_of_char_def)

definition example_neighbor :: kernel_neighbor where
  "example_neighbor =
    \<lparr>kn_message = \<lparr>nm_family = AF_INET, nm_interface_index = 2, nm_state = 2, nm_flags = 0, nm_message_type = 1\<rparr>,
     kn_destination = Some (V4 0xC0A80001), kn_link_address = Some [0, 0x11, 0x22, 0x33, 0x44, 0x55],
     kn_cache = None, kn_probes = Some 1, kn_master = None, kn_protocol = None,
     kn_extended_flags = None\<rparr>"

theorem neighbors_snapshot_witness:
  "neighbors 100 (example_kernel (packets
      [[neighbor_message_for RTM_NEWNEIGH REQUEST_SEQUENCE example_neighbor], [done_message 1]])) AF_INET =
    Some (Ok [the (neighbor_view 100 False example_neighbor)])"
  by (subst neighbors_snapshot [where ns = "[example_neighbor]", OF answers_example])
    (simp_all add: packets_ok_def neighbor_message_for_def framed_netlink_message length_netlink_message
      kernel_neighbor_ok_def example_neighbor_def is_ip_family_def of_family_def
      neighbor_attribute_list_def attribute_opt_def length_attribute_bytes align_to_4_def
      neighbor_view_def)

definition example_address :: kernel_address where
  "example_address =
    \<lparr>ka_message = \<lparr>am_family = AF_INET, am_prefix = 24, am_flags = 0x80, am_scope = 0, am_interface_index = 2\<rparr>,
     ka_address = Some (V4 0xC0A80002), ka_local = Some (V4 0xC0A80002), ka_broadcast = None,
     ka_label = Some ''eth0'', ka_flags = None, ka_cache = None\<rparr>"

lemma addresses_example:
  "addresses_for_family (example_kernel (packets
      [[address_message_for RTM_NEWADDR ADDRESS_SEQUENCE example_address, done_message 3]])) AF_INET =
    Some (Ok [the (address_view example_address)])"
  by (subst addresses_complete [where addrs = "[example_address]", OF answers_example])
    (simp_all add: packets_ok_def address_message_for_def framed_netlink_message length_netlink_message
      kernel_address_ok_def example_address_def is_ip_family_def of_family_def
      address_attributes_def attribute_opt_def length_attribute_bytes align_to_4_def
      address_view_def text_ok_def kernel_text_def as_bytes_def byte_of_char_def)

theorem addresses_snapshot_witness:
  "addresses_for_family (example_kernel (packets
      [[address_message_for RTM_NEWADDR ADDRESS_SEQUENCE example_address, done_message 3]])) AF_INET =
    Some (Ok [the (address_view example_address)])"
  by (subst addresses_snapshot [where addrs = "[example_address]", OF answers_example])
    (simp_all add: packets_ok_def address_message_for_def framed_netlink_message length_netlink_message
      kernel_address_ok_def example_address_def is_ip_family_def of_family_def
      address_attributes_def attribute_opt_def length_attribute_bytes align_to_4_def
      address_view_def text_ok_def kernel_text_def as_bytes_def byte_of_char_def)

section \<open>What every dump guarantees\<close>

text \<open>C2: The nested receive loops of \<open>receive_dump\<close> implement the specification over the flat
  list of messages, for every behaviour of the socket: the result is decided by the first
  message of the dump that ends it, or by the first fault before that, and the values are the
  parsed messages of the table before it.\<close>

theorem receive_dump_refines:
  assumes "table_type expected_type"
  shows "map_option fst (receive_dump script expected_sequence expected_type name parse) =
    (case transcript (64 * 1024) (Custom UnexpectedEof ''netlink socket closed'')
        (Custom InvalidData (''invalid '' @ name @ '' message length'')) script of
       (messages, fault) \<Rightarrow>
         (case dump_spec name expected_sequence expected_type parse messages of
            Some r \<Rightarrow> Some r
          | None \<Rightarrow> map_option Err fault))"
  using assms by (rule receive_dump_spec)

theorem receive_dump_refines_witness:
  "map_option fst (receive_dump [RecvFailed 4, Received (done_message 4)] 4 RTM_NEWROUTE ''route'' parse_route) =
    Some (Ok [])"
  using receive_dump_refines [of RTM_NEWROUTE "[RecvFailed 4, Received (done_message 4)]" 4 "''route''" parse_route]
    frames_concat [of "[done_message 4]"]
  by (simp add: table_type_def dump_spec_def dump_values_def pad_to_4_id)

lemma dump_spec_sound:
  assumes "dump_spec name s t parse messages = Some (Ok acc)"
  obtains d where "d \<in> set messages" and "mh_sequence (message_header_of d) = s"
    and "type_of d = NLMSG_DONE" and "mh_flags (message_header_of d) AND NLM_F_DUMP_INTR = 0"
    and "read_i32 d header_size \<in> {None, Some 0}"
    and "\<And>v. v \<in> set acc \<Longrightarrow> \<exists>m \<in> set messages. mh_sequence (message_header_of m) = s
      \<and> type_of m = t \<and> parse m = Some v"
proof -
  let ?mine = "filter (\<lambda>m. mh_sequence (message_header_of m) = s) messages"
  let ?body = "takeWhile (\<lambda>m. \<not> ends_dump m) ?mine"
  obtain d rest where d: "dropWhile (\<lambda>m. \<not> ends_dump m) ?mine = d # rest"
    and result: "dump_ending name d (dump_values t parse ?body) = Ok acc"
    using assms by (auto simp: dump_spec_def Let_def simp del: dropWhile_eq_Nil_conv split: list.splits)
  have "d \<in> set ?mine"
    using set_dropWhileD [of d "\<lambda>m. \<not> ends_dump m" ?mine] by (simp add: d)
  moreover have "type_of d = NLMSG_DONE" "mh_flags (message_header_of d) AND NLM_F_DUMP_INTR = 0"
    "read_i32 d header_size \<in> {None, Some 0}" "acc = dump_values t parse ?body"
    using result by (auto simp: dump_ending_def dump_done_def split: if_splits option.splits)
  moreover have "\<exists>m \<in> set messages. mh_sequence (message_header_of m) = s \<and> type_of m = t \<and> parse m = Some v"
    if "v \<in> set (dump_values t parse ?body)" for v
    using that by (auto simp: dump_values_def set_filter_map dest!: set_takeWhileD)
  ultimately show ?thesis
    by (intro that [of d]) simp_all
qed

text \<open>The messages a socket delivered.\<close>

definition delivered :: "recv_outcome list \<Rightarrow> bytes list" where
  "delivered script =
    fst (transcript (64 * 1024) (Custom UnexpectedEof []) (Custom InvalidData []) script)"

lemma transcript_messages:
  "fst (transcript capacity c i script) = fst (transcript capacity c' i' script)"
proof (induction script)
  case (Cons event script)
  then show ?case
    by (cases event) (auto split: prod.splits bool.splits)
qed simp

lemma receive_dump_sound:
  assumes "table_type t" and "receive_dump script s t name parse = Some (Ok acc, rest)"
  shows "(\<exists>d \<in> set (delivered script). mh_sequence (message_header_of d) = s \<and> type_of d = NLMSG_DONE
      \<and> mh_flags (message_header_of d) AND NLM_F_DUMP_INTR = 0 \<and> read_i32 d header_size \<in> {None, Some 0})
    \<and> (\<forall>v \<in> set acc. \<exists>m \<in> set (delivered script). mh_sequence (message_header_of m) = s
      \<and> type_of m = t \<and> parse m = Some v)"
proof -
  obtain messages fault where messages: "transcript (64 * 1024) (Custom UnexpectedEof ''netlink socket closed'')
      (Custom InvalidData (''invalid '' @ name @ '' message length'')) script = (messages, fault)"
    by fastforce
  then have "delivered script = messages"
    unfolding delivered_def by (metis fst_conv transcript_messages)
  moreover have "dump_spec name s t parse messages = Some (Ok acc)"
    using receive_dump_spec [OF assms(1), of script s name parse] assms(2) messages
    by (cases fault) (auto split: option.splits)
  ultimately show ?thesis
    by (auto elim!: dump_spec_sound)
qed


lemma replies_example [simp]: "k_replies (example_kernel script) request = script"
  by (simp add: example_kernel_def)


section \<open>Both families\<close>

lemma both_families_Ok:
  "both_families key a b = Some (Ok zs) \<longleftrightarrow>
    (\<exists>xs r. a = Some (Ok xs) \<and> b = Some r \<and> extend_ipv6 key (Ok xs) r = Ok zs)"
  by (cases a) (auto simp: both_families_def split: result.splits)


section \<open>Requests and the lookup of a route\<close>

lemma route_request_message:
  "route_request destination =
    message_header_bytes (request_header 36 RTM_GETROUTE NLM_F_REQUEST ROUTE_SEQUENCE)
    @ route_message_bytes (empty_route_message AF_INET 32)
    @ concat (map attribute_bytes [(RTA_DST, ipv4_octets destination)])"
  "route_request6 destination6 =
    message_header_bytes (request_header 48 RTM_GETROUTE NLM_F_REQUEST ROUTE_SEQUENCE)
    @ route_message_bytes (empty_route_message AF_INET6 128)
    @ concat (map attribute_bytes [(RTA_DST, ipv6_octets destination6)])"
  by (simp_all add: route_request_def route_request6_def attribute_bytes_def pad_to_4_id)

text \<open>Every request carries its own length, asks for the right table, and dumps have both
  dump flags set, so that the kernel reads exactly the structure that was meant.\<close>

theorem requests_framed:
  "list_all framed
      [neighbor_request family, address_request family, route_dump_request family, rule_request family,
       link_request, route_request destination, route_request6 destination6]
    \<and> map (\<lambda>request. mh_flags (message_header_of request))
        [neighbor_request family, address_request family, route_dump_request family,
         rule_request family, link_request] = [0x301, 0x301, 0x301, 0x301, 0x301]
    \<and> attributes (route_request destination) 12 = Some [(RTA_DST, ipv4_octets destination)]
    \<and> attributes (route_request6 destination6) 12 = Some [(RTA_DST, ipv6_octets destination6)]"
proof -
  note defs = framed_def neighbor_request_def address_request_def route_dump_request_def
    rule_request_def link_request_def request_header_def route_request_def route_request6_def
  have "attributes (message_header_bytes h @ route_message_bytes m
      @ concat (map attribute_bytes [a])) 12 = Some [masked a]" if "encodable_attribute a" for h m a
    using netlink_attributes.decode_concat [of "[a]" "[]" "message_header_bytes h @ route_message_bytes m"] that
    by (simp add: attributes_def align_to_4_def)
  then have "attributes (route_request destination) 12 = Some [(RTA_DST, ipv4_octets destination)]"
    "attributes (route_request6 destination6) 12 = Some [(RTA_DST, ipv6_octets destination6)]"
    unfolding route_request_message by (simp_all add: encodable_attribute_def masked_def)
  then show ?thesis
    by (simp add: defs)
qed

definition lookup_request :: "ip_addr \<Rightarrow> bytes" where
  "lookup_request destination =
    (case destination of V4 a \<Rightarrow> route_request a | V6 a \<Rightarrow> route_request6 a)"

lemma ip_route_alt:
  "ip_route k destination =
    question (open_route_socket k 0) (\<lambda>_.
    question (send_request k (lookup_request destination)) (\<lambda>_.
    receive_route_lookup (k_replies k (lookup_request destination)) ROUTE_SEQUENCE))"
  by (cases destination) (simp_all add: ipv4_route_def ipv6_route_def lookup_request_def)

lemma receive_route_lookup_alt:
  "receive_route_lookup script sequence =
    (case transcript (16 * 1024) (Custom UnexpectedEof ''netlink socket closed'')
        (Custom InvalidData ''invalid route reply length'') script of
       (messages, fault) \<Rightarrow>
         (case run_steps (route_lookup_step sequence) messages () of
            Return r \<Rightarrow> Some r
          | Continue _ \<Rightarrow> map_option Err fault))"
  by (simp add: receive_route_lookup_def receive_messages)

lemma run_lookup_steps:
  "run_steps (route_lookup_step sequence) messages s = Return (Ok r) \<Longrightarrow>
    \<exists>m \<in> set messages. mh_sequence (message_header_of m) = sequence \<and> type_of m = RTM_NEWROUTE
      \<and> map_option normalize_route_lookup (parse_route m) = Some r"
  by (induction messages arbitrary: s)
    (auto simp: route_lookup_step_def split: if_splits option.splits result.splits)

text \<open>C34: A route lookup that succeeds returns a route the kernel sent for this request, and
  never the placeholder source selector that the IPv6 lookup code of the kernel fills in.\<close>

theorem route_lookup_sound:
  assumes "ip_route k destination = Some (Ok r)"
  shows "(\<exists>m route. m \<in> set (fst (transcript (16 * 1024) (Custom UnexpectedEof [])
      (Custom InvalidData []) (k_replies k (lookup_request destination))))
    \<and> mh_sequence (message_header_of m) = ROUTE_SEQUENCE \<and> type_of m = RTM_NEWROUTE
    \<and> parse_route m = Some route \<and> r = normalize_route_lookup route)
    \<and> (\<forall>source bits. r_source_prefix r = Some (source, bits) \<longrightarrow> \<not> is_unspecified source)"
proof -
  let ?script = "k_replies k (lookup_request destination)"
  have lookup: "receive_route_lookup ?script ROUTE_SEQUENCE = Some (Ok r)"
    using assms by (auto simp: ip_route_alt question_Ok)
  obtain messages fault where messages: "transcript (16 * 1024) (Custom UnexpectedEof ''netlink socket closed'')
      (Custom InvalidData ''invalid route reply length'') ?script = (messages, fault)"
    by fastforce
  have "run_steps (route_lookup_step ROUTE_SEQUENCE) messages () = Return (Ok r)"
    using lookup by (cases fault) (auto simp: receive_route_lookup_alt messages [simplified] split: flow.splits)
  from run_lookup_steps [OF this] obtain m route where m: "m \<in> set messages"
    "mh_sequence (message_header_of m) = ROUTE_SEQUENCE" "type_of m = RTM_NEWROUTE"
    "parse_route m = Some route" "r = normalize_route_lookup route"
    by auto
  moreover have "fst (transcript (16 * 1024) (Custom UnexpectedEof []) (Custom InvalidData []) ?script) = messages"
    using messages by (metis fst_conv transcript_messages)
  moreover have "\<forall>source bits. r_source_prefix r = Some (source, bits) \<longrightarrow> \<not> is_unspecified source"
    using m(5) by (auto simp: normalize_route_lookup_def split: option.splits prod.splits if_splits)
  ultimately show ?thesis
    by blast
qed

theorem route_lookup_sound_witness:
  "\<exists>r. ip_route (example_kernel (packets
      [[route_message_for RTM_NEWROUTE ROUTE_SEQUENCE example_route]])) (V4 0x08080808) = Some (Ok r)
    \<and> (\<forall>source bits. r_source_prefix r = Some (source, bits) \<longrightarrow> \<not> is_unspecified source)"
proof -
  let ?m = "route_message_for RTM_NEWROUTE ROUTE_SEQUENCE example_route"
  have "packets_ok (16 * 1024) [[?m]]"
    by (simp add: packets_ok_def route_message_for_def framed_netlink_message length_netlink_message
        example_route_def route_attributes_def attribute_opt_def length_attribute_bytes align_to_4_def)
  moreover have "answers (example_kernel script) request script" for script request
    by (rule answers_example)
  ultimately have lookup: "ip_route (example_kernel (packets [[?m]])) (V4 0x08080808) =
      Some (Ok (normalize_route_lookup (route_view example_route)))"
    using example_packets(2)
    by (simp add: ip_route_alt answers_def receive_route_lookup_alt transcript_packets [simplified]
        route_lookup_step_def parse_route_message)
  from route_lookup_sound [OF this] lookup show ?thesis
    by blast
qed

end
