(* ===== verification/Netlink_Events.thy ===== *)
theory Netlink_Events
  imports Netlink_Dump_Spec
begin

text \<open>
  The event stream of \<open>netlink.rs\<close>: \<open>parse_events\<close> with its per-kind parsers and the loop of
  \<open>watch_events\<close>, whose handler is a function of the caller's state. An event socket never
  ends a stream regularly, so \<open>watch_events\<close> returns only errors.
\<close>

section \<open>Events\<close>

datatype network_event =
  LinkEvent (ev_removed: bool) i32 "string option" bool
| AddressEvent (ev_removed: bool) i32 ip_addr u8
| RouteEvent (ev_removed: bool) route
| NeighborEvent (ev_removed: bool) neighbor

definition parse_link_event :: "bytes \<Rightarrow> bool \<Rightarrow> network_event option" where
  "parse_link_event message removed =
    map_option (\<lambda>link. LinkEvent removed (l_interface_index link) (Some (l_name link))
      (list_ex (\<lambda>flag. flag = ''up'') (split_char (CHR ''|'') (l_flags link))))
    (parse_link message)"

definition parse_address_event :: "bytes \<Rightarrow> bool \<Rightarrow> network_event option" where
  "parse_address_event message removed =
    map_option (\<lambda>address. AddressEvent removed (a_interface_index address) (a_local address) (a_prefix address))
    (parse_address message)"

definition parse_route_event :: "bytes \<Rightarrow> bool \<Rightarrow> network_event option" where
  "parse_route_event message removed = map_option (RouteEvent removed) (parse_route message)"

definition parse_neighbor_event :: "u64 \<Rightarrow> bytes \<Rightarrow> bool \<Rightarrow> network_event option" where
  "parse_neighbor_event sysconf message removed =
    map_option (NeighborEvent removed) (parse_neighbor sysconf message removed)"

definition push_event :: "network_event list \<Rightarrow> network_event option \<Rightarrow> (network_event list, 'r) flow" where
  "push_event events event =
    Continue (case event of Some e \<Rightarrow> events @ [e] | None \<Rightarrow> events)"

definition event_step ::
  "u64 \<Rightarrow> message_header \<Rightarrow> bytes \<Rightarrow> network_event list \<Rightarrow> (network_event list, network_event list) flow" where
  "event_step sysconf header message events =
    (let t = mh_message_type header
     in if t = NLMSG_ERROR then
          (case parse_netlink_error message of Err e \<Rightarrow> Return (Err e) | Ok _ \<Rightarrow> Continue events)
        else if t = NLMSG_OVERRUN then
          Return (Err (Custom Other ''netlink event receive buffer overrun''))
        else if t = RTM_NEWLINK then push_event events (parse_link_event message False)
        else if t = RTM_DELLINK then push_event events (parse_link_event message True)
        else if t = RTM_NEWADDR then push_event events (parse_address_event message False)
        else if t = RTM_DELADDR then push_event events (parse_address_event message True)
        else if t = RTM_NEWROUTE then push_event events (parse_route_event message False)
        else if t = RTM_DELROUTE then push_event events (parse_route_event message True)
        else if t = RTM_NEWNEIGH then push_event events (parse_neighbor_event sysconf message False)
        else if t = RTM_DELNEIGH then push_event events (parse_neighbor_event sysconf message True)
        else Continue events)"

definition parse_events :: "u64 \<Rightarrow> bytes \<Rightarrow> network_event list result" where
  "parse_events sysconf response =
    (case message_loop ''truncated netlink event header'' ''invalid netlink event length''
        (event_step sysconf) response 0 [] of
       Return r \<Rightarrow> r
     | Continue events \<Rightarrow> Ok events)"

definition watch_groups :: u32 where
  "watch_groups =
    RTMGRP_LINK OR RTMGRP_NEIGH OR RTMGRP_IPV4_IFADDR OR RTMGRP_IPV4_ROUTE OR RTMGRP_IPV6_IFADDR
    OR RTMGRP_IPV6_ROUTE"

text \<open>The state of the handler is threaded through; the error that ends the watch comes with
  what the handler has seen. An error in a datagram discards the events before it.\<close>

fun watch_loop ::
  "u64 \<Rightarrow> (network_event \<Rightarrow> 's \<Rightarrow> 's) \<Rightarrow> recv_outcome list \<Rightarrow> 's \<Rightarrow> (io_error \<times> 's) option" where
  "watch_loop sysconf handler [] s = None"
| "watch_loop sysconf handler (RecvFailed code # script) s =
    (if kind_of (Os code) = Interrupted then watch_loop sysconf handler script s
     else Some (Os code, s))"
| "watch_loop sysconf handler (Received data # script) s =
    (let datagram = take (64 * 1024) data
     in if datagram = [] then Some (Custom UnexpectedEof ''netlink event socket closed'', s)
        else
          (case parse_events sysconf datagram of
             Err e \<Rightarrow> Some (e, s)
           | Ok events \<Rightarrow> watch_loop sysconf handler script (fold handler events s)))"

definition watch_events ::
  "u64 \<Rightarrow> kernel \<Rightarrow> (network_event \<Rightarrow> 's \<Rightarrow> 's) \<Rightarrow> recv_outcome list \<Rightarrow> 's \<Rightarrow> (io_error \<times> 's) option" where
  "watch_events sysconf k handler script s =
    (case open_route_socket k watch_groups of
       Err e \<Rightarrow> Some (e, s)
     | Ok _ \<Rightarrow> watch_loop sysconf handler script s)"

text \<open>The state a watch ends with is that of its handler after some events.\<close>

lemma watch_loop_folds: "watch_loop sysconf handler script s = Some (e, s') \<Longrightarrow> \<exists>events. s' = fold handler events s"
proof (induction sysconf handler script s rule: watch_loop.induct)
  case (1 sysconf handler s)
  then show ?case
    by simp
next
  case (2 sysconf handler code script s)
  then show ?case
    by (auto split: if_splits intro: exI [of _ "[]"])
next
  case (3 sysconf handler data script s)
  let ?datagram = "take (64 * 1024) data"
  show ?case
  proof (cases "?datagram \<noteq> [] \<and> is_ok (parse_events sysconf ?datagram)")
    case True
    then obtain events where events: "parse_events sysconf ?datagram = Ok events"
      by (cases "parse_events sysconf ?datagram") auto
    with 3 True obtain more where "s' = fold handler more (fold handler events s)"
      by auto
    then show ?thesis
      by (intro exI [of _ "events @ more"]) simp
  next
    case False
    with 3 show ?thesis
      by (cases "parse_events sysconf ?datagram") (auto simp: Let_def intro: exI [of _ "[]"] split: if_splits)
  qed
qed

lemma watch_events_folds: "watch_events sysconf k handler script s = Some (e, s') \<Longrightarrow> \<exists>events. s' = fold handler events s"
  by (auto simp: watch_events_def dest: watch_loop_folds intro: exI [of _ "[]"] split: result.splits)

text \<open>When and with which error a watch ends does not depend on its handler.\<close>

lemma watch_loop_ends:
  "map_option fst (watch_loop sysconf handler script s) = map_option fst (watch_loop sysconf handler' script s')"
proof (induction sysconf handler script s arbitrary: s' rule: watch_loop.induct)
  case (2 sysconf handler code script s)
  then show ?case
    by simp
next
  case (3 sysconf handler data script s)
  then show ?case
    by (auto simp: Let_def split: result.split)
qed simp

lemma watch_events_ends:
  "map_option fst (watch_events sysconf k handler script s) = map_option fst (watch_events sysconf k handler' script s')"
  by (simp add: watch_events_def watch_loop_ends [of sysconf handler script s handler' s'] split: result.split)

section \<open>What a watch reports\<close>

definition event_kind :: "network_event \<Rightarrow> u16" where
  "event_kind e =
    (case e of
       LinkEvent r _ _ _ \<Rightarrow> if r then RTM_DELLINK else RTM_NEWLINK
     | AddressEvent r _ _ _ \<Rightarrow> if r then RTM_DELADDR else RTM_NEWADDR
     | RouteEvent r _ \<Rightarrow> if r then RTM_DELROUTE else RTM_NEWROUTE
     | NeighborEvent r _ \<Rightarrow> if r then RTM_DELNEIGH else RTM_NEWNEIGH)"

text \<open>The event of one message: decided by the type of the message alone.\<close>

definition event_of :: "u64 \<Rightarrow> bytes \<Rightarrow> network_event option" where
  "event_of sysconf m =
    (let t = mh_message_type (message_header_of m)
     in if t = RTM_NEWLINK \<or> t = RTM_DELLINK then parse_link_event m (t = RTM_DELLINK)
        else if t = RTM_NEWADDR \<or> t = RTM_DELADDR then parse_address_event m (t = RTM_DELADDR)
        else if t = RTM_NEWROUTE \<or> t = RTM_DELROUTE then parse_route_event m (t = RTM_DELROUTE)
        else if t = RTM_NEWNEIGH \<or> t = RTM_DELNEIGH then parse_neighbor_event sysconf m (t = RTM_DELNEIGH)
        else None)"

lemma event_of_kind: "event_of sysconf m = Some e \<Longrightarrow> event_kind e = mh_message_type (message_header_of m)"
  by (auto simp: event_of_def Let_def event_kind_def parse_link_event_def parse_address_event_def
      parse_route_event_def parse_neighbor_event_def split: if_splits)

lemma event_step_event_of:
  assumes "mh_message_type (message_header_of m) \<noteq> NLMSG_ERROR"
    and "mh_message_type (message_header_of m) \<noteq> NLMSG_OVERRUN"
  shows "event_step sysconf (message_header_of m) m events =
    Continue (events @ filter_map (event_of sysconf) [m])"
  using assms by (simp add: event_step_def event_of_def Let_def push_event_def split: option.splits)

lemma run_event_steps:
  assumes "list_all (\<lambda>m. mh_message_type (message_header_of m) \<notin> {NLMSG_ERROR, NLMSG_OVERRUN}) ms"
  shows "run_steps (event_step sysconf) ms events = Continue (events @ filter_map (event_of sysconf) ms)"
  using assms
proof (induction ms arbitrary: events)
  case (Cons m ms)
  then have "event_step sysconf (message_header_of m) m events =
      Continue (events @ filter_map (event_of sysconf) [m])"
    by (intro event_step_event_of) auto
  with Cons show ?case
    by (auto split: option.splits)
qed simp

lemma parse_events_frames:
  assumes "list_all framed ms"
    and "list_all (\<lambda>m. mh_message_type (message_header_of m) \<notin> {NLMSG_ERROR, NLMSG_OVERRUN}) ms"
  shows "parse_events sysconf (concat (map pad_to_4 ms)) = Ok (filter_map (event_of sysconf) ms)"
  using run_event_steps [OF assms(2), of sysconf "[]"]
  by (simp add: parse_events_def message_loop_frames frames_concat [OF assms(1)])

lemma link_event_bit:
  assumes "kernel_link_ok k"
  shows "parse_link_event (link_message_for t sequence k) removed =
    Some (LinkEvent removed (lm_interface_index (kl_message k)) (Some (kl_name k))
      (lm_flags (kl_message k) AND 1 \<noteq> 0))"
proof -
  have "(1, ''up'') \<in> set link_flag_table"
    by (simp add: link_flag_table_def)
  from link_flags.name_shown [OF this, of "lm_flags (kl_message k)"] show ?thesis
    by (simp add: parse_link_event_def parse_link_message [OF assms] link_view_def link_flags_def
        list_ex_iff Let_def)
qed

text \<open>C11: The events of a datagram are those of its messages, in order: each message of a
  known type yields the event of that type, with the removal flag its type says, and a
  message that does not parse is skipped without disturbing the others.\<close>

theorem parse_events_exact:
  assumes "list_all framed ms"
    and "list_all (\<lambda>m. mh_message_type (message_header_of m) \<notin> {NLMSG_ERROR, NLMSG_OVERRUN}) ms"
  shows "parse_events sysconf (concat (map pad_to_4 ms)) = Ok (filter_map (event_of sysconf) ms)
    \<and> list_all (\<lambda>m. case event_of sysconf m of
        None \<Rightarrow> True | Some e \<Rightarrow> event_kind e = mh_message_type (message_header_of m)) ms"
  using parse_events_frames [OF assms] event_of_kind
  by (auto simp: list_all_iff split: option.splits)

lemma example_link_ok: "kernel_link_ok example_link"
  by (simp add: kernel_link_ok_def example_link_def text_kinds_def number_kinds_def
      property_list_bytes_def length_attribute_bytes align_to_4_def text_ok_def kernel_text_def
      as_bytes_def byte_of_char_def)

lemma example_link_framed: "framed (link_message_for t s example_link)"
  by (simp add: link_message_for_def framed_netlink_message example_link_def link_attributes_def
      number_kinds_def link_info_bytes_def property_list_bytes_def attribute_opt_def
      length_attribute_bytes align_to_4_def)

theorem parse_events_exact_witness:
  "parse_events 100 (concat (map pad_to_4 [link_message_for RTM_DELLINK 0 example_link])) =
    Ok [LinkEvent True 7 (Some ''eth0.5'') True]"
proof -
  have event: "event_of 100 (link_message_for RTM_DELLINK 0 example_link) =
      Some (LinkEvent True 7 (Some ''eth0.5'') True)"
    by (simp add: event_of_def link_event_bit [OF example_link_ok]) (simp add: example_link_def)
  then show ?thesis
    using parse_events_exact [of "[link_message_for RTM_DELLINK 0 example_link]" 100]
    by (simp add: example_link_framed)
qed

text \<open>A link notification is reported as up exactly when the kernel's \<open>IFF_UP\<close> bit is set:
  the detour through the rendered flag text loses nothing.\<close>

theorem link_event_up:
  assumes "kernel_link_ok k"
  shows "parse_link_event (link_message_for t sequence k) removed =
    Some (LinkEvent removed (lm_interface_index (kl_message k)) (Some (kl_name k))
      (lm_flags (kl_message k) AND 1 \<noteq> 0))"
  using assms by (rule link_event_bit)

theorem link_event_up_witness:
  "parse_link_event (link_message_for RTM_NEWLINK 0 example_link) False =
    Some (LinkEvent False 7 (Some ''eth0.5'') True)"
  by (subst link_event_up [OF example_link_ok]) (simp add: example_link_def)

lemma watch_loop_packets:
  assumes "packets_ok (64 * 1024) mss"
    and "list_all (\<lambda>m. mh_message_type (message_header_of m) \<notin> {NLMSG_ERROR, NLMSG_OVERRUN}) (concat mss)"
  shows "watch_loop sysconf handler (packets mss @ script) s =
    watch_loop sysconf handler script (fold handler (filter_map (event_of sysconf) (concat mss)) s)"
  using assms
proof (induction mss arbitrary: s)
  case (Cons ms mss)
  then have ms: "ms \<noteq> []" "list_all framed ms" "length (concat (map pad_to_4 ms)) \<le> 65536"
    by (simp_all add: packets_ok_def)
  then have "concat (map pad_to_4 ms) \<noteq> []"
    by (cases ms) (simp_all add: framed_not_empty)
  moreover have "parse_events sysconf (concat (map pad_to_4 ms)) = Ok (filter_map (event_of sysconf) ms)"
    using Cons.prems(2) ms(2) by (intro parse_events_frames) simp_all
  moreover have "packets_ok (64 * 1024) mss"
    using Cons.prems(1) by (simp add: packets_ok_def)
  ultimately show ?case
    using Cons ms by (auto simp: packets_def Let_def)
qed (simp add: packets_def)

text \<open>A watch calls its handler once for every event of every datagram, in the order of
  arrival, until the socket fails; it never returns without an error.\<close>

theorem watch_events_complete:
  assumes "open_route_socket k watch_groups = Ok ()"
    and "packets_ok (64 * 1024) mss"
    and "list_all (\<lambda>m. mh_message_type (message_header_of m) \<notin> {NLMSG_ERROR, NLMSG_OVERRUN}) (concat mss)"
    and "kind_of (Os code) \<noteq> Interrupted"
  shows "watch_events sysconf k handler (packets mss @ [RecvFailed code]) s =
    Some (Os code, fold handler (filter_map (event_of sysconf) (concat mss)) s)"
  using assms(1,4)
  by (auto simp: watch_events_def watch_loop_packets [OF assms(2,3)] split: if_splits)

theorem watch_events_complete_witness:
  "watch_events 100 (example_kernel []) (\<lambda>e n. n + 1)
      (packets [[link_message_for RTM_NEWLINK 0 example_link]] @ [RecvFailed 9]) (0 :: nat) =
    Some (Os 9, length (filter_map (event_of 100) [link_message_for RTM_NEWLINK 0 example_link]))"
proof -
  have "packets_ok (64 * 1024) [[link_message_for RTM_NEWLINK 0 example_link]]"
    by (simp add: packets_ok_def example_link_framed)
      (simp add: link_message_for_def length_netlink_message example_link_def link_attributes_def
        number_kinds_def link_info_bytes_def property_list_bytes_def attribute_opt_def
        length_attribute_bytes align_to_4_def)
  moreover have "open_route_socket (example_kernel []) watch_groups = Ok ()"
    by (simp add: example_kernel_def open_route_socket_def)
  ultimately show ?thesis
    using watch_events_complete [of "example_kernel []" "[[link_message_for RTM_NEWLINK 0 example_link]]"
      9 100 "\<lambda>e n. n + 1" "0 :: nat"]
    by (simp split: option.splits)
qed

end
