(* ===== verification/Generic_Netlink.thy ===== *)
theory Generic_Netlink
  imports Netlink_Dump_Spec
begin

text \<open>
  \<open>generic_netlink.rs\<close>: building a request, parsing the replies of one datagram, resolving a
  family name and the request/response cycle of \<open>Client\<close>. An \<open>Attribute\<close> is the pair of its
  kind and value. The client keeps its socket's queue of pending datagrams as state: what an
  earlier request left unread is read first by the next one.
\<close>

section \<open>Constants\<close>

definition GENL_ID_CTRL :: u16 where [simp]: "GENL_ID_CTRL = 0x10"
definition CTRL_CMD_GETFAMILY :: u8 where [simp]: "CTRL_CMD_GETFAMILY = 3"
definition CTRL_ATTR_FAMILY_ID :: u16 where [simp]: "CTRL_ATTR_FAMILY_ID = 1"
definition CTRL_ATTR_FAMILY_NAME :: u16 where [simp]: "CTRL_ATTR_FAMILY_NAME = 2"
definition NLA_F_NESTED :: u16 where [simp]: "NLA_F_NESTED = push_bit 15 1"

section \<open>Attributes\<close>

type_synonym attribute = "u16 \<times> bytes"

definition attribute_u32 :: "u16 \<Rightarrow> u32 \<Rightarrow> attribute" where
  "attribute_u32 kind v = (kind, to_le_bytes 4 v)"

text \<open>\<open>append_value(header)\<close>, the value, and zero bytes up to a multiple of four of the whole
  buffer.\<close>

definition append_generic_attribute :: "bytes \<Rightarrow> attribute \<Rightarrow> bytes" where
  "append_generic_attribute target a =
    pad_to_4 (target
      @ route_attribute_bytes
          \<lparr>ra_length = of_nat (4 + length (snd a)), ra_attribute_type = fst a\<rparr>
      @ snd a)"

definition attribute_nested :: "u16 \<Rightarrow> attribute list \<Rightarrow> attribute" where
  "attribute_nested kind attrs =
    (kind OR NLA_F_NESTED, foldl append_generic_attribute [] attrs)"

text \<open>\<open>parse_attributes\<close> is, statement by statement, the walk of \<open>netlink.rs\<close>.\<close>

definition parse_attributes :: "bytes \<Rightarrow> nat \<Rightarrow> attribute list option" where
  "parse_attributes message offset = attributes_from_offset message offset"

definition nested_attributes :: "bytes \<Rightarrow> attribute list option" where
  "nested_attributes v = parse_attributes v 0"

section \<open>Messages\<close>

record generic_header =
  gh_command :: u8
  gh_version :: u8
  gh_reserved :: u16

definition generic_header_of :: "bytes \<Rightarrow> generic_header" where
  "generic_header_of bs =
    \<lparr>gh_command = field 1 0 bs, gh_version = field 1 1 bs, gh_reserved = field 2 2 bs\<rparr>"

definition generic_header_bytes :: "generic_header \<Rightarrow> bytes" where
  "generic_header_bytes h =
    to_le_bytes 1 (gh_command h) @ to_le_bytes 1 (gh_version h) @ to_le_bytes 2 (gh_reserved h)"

record generic_message =
  gm_command :: u8
  gm_attributes :: "attribute list"

definition build_message :: "u16 \<Rightarrow> u32 \<Rightarrow> u8 \<Rightarrow> u8 \<Rightarrow> u16 \<Rightarrow> attribute list \<Rightarrow> bytes" where
  "build_message message_type sequence command version flags attrs =
    (let message = replicate header_size 0 @ generic_header_bytes
           \<lparr>gh_command = command, gh_version = version, gh_reserved = 0\<rparr>;
         message = foldl append_generic_attribute message attrs;
         header = \<lparr>mh_length = of_nat (length message), mh_message_type = message_type,
           mh_flags = flags, mh_sequence = sequence, mh_port_id = 0\<rparr>
     in message_header_bytes header @ drop header_size message)"

definition parse_error :: "bytes \<Rightarrow> unit result" where
  "parse_error message =
    (case read_i32 message header_size of
       None \<Rightarrow> Err (Custom InvalidData ''truncated generic netlink error'')
     | Some error \<Rightarrow> if error = 0 then Ok () else Err (Os (- error)))"

definition parse_messages_step ::
  "u16 \<Rightarrow> u32 \<Rightarrow> message_header \<Rightarrow> bytes \<Rightarrow> generic_message list
    \<Rightarrow> (generic_message list, generic_message list) flow" where
  "parse_messages_step message_type sequence header message messages =
    (if mh_sequence header = sequence then
       if mh_message_type header = NLMSG_ERROR then
         (case parse_error message of Err e \<Rightarrow> Return (Err e) | Ok _ \<Rightarrow> Continue messages)
       else if mh_message_type header = NLMSG_OVERRUN then
         Return (Err (Custom Other ''generic netlink dump overran''))
       else if mh_message_type header = message_type then
         (case get_from header_size message of
            None \<Rightarrow> Return (Err (Custom InvalidData ''missing generic netlink header''))
          | Some payload \<Rightarrow>
              (case read_unaligned 4 generic_header_of payload of
                 None \<Rightarrow> Return (Err (Custom InvalidData ''truncated generic netlink payload''))
               | Some generic \<Rightarrow>
                   (case parse_attributes message (align_to_4 (header_size + 4)) of
                      None \<Rightarrow> Return (Err (Custom InvalidData ''invalid generic netlink attributes''))
                    | Some attrs \<Rightarrow>
                        Continue (messages @ [\<lparr>gm_command = gh_command generic, gm_attributes = attrs\<rparr>]))))
       else Continue messages
     else Continue messages)"

definition parse_messages :: "bytes \<Rightarrow> u16 \<Rightarrow> u32 \<Rightarrow> generic_message list result" where
  "parse_messages response message_type sequence =
    (case message_loop ''truncated generic netlink header'' ''invalid generic netlink message length''
        (parse_messages_step message_type sequence) response 0 [] of
       Return r \<Rightarrow> r
     | Continue messages \<Rightarrow> Ok messages)"

definition done_step :: "u32 \<Rightarrow> message_header \<Rightarrow> bytes \<Rightarrow> unit \<Rightarrow> (unit, bool) flow" where
  "done_step sequence header message s =
    (if mh_sequence header = sequence \<and> mh_message_type header = NLMSG_DONE then Return (Ok True)
     else Continue s)"

definition response_has_done :: "bytes \<Rightarrow> u32 \<Rightarrow> bool result" where
  "response_has_done response sequence =
    (case message_loop ''truncated netlink completion header'' ''invalid netlink completion length''
        (done_step sequence) response 0 () of
       Return r \<Rightarrow> r
     | Continue _ \<Rightarrow> Ok False)"

section \<open>The client\<close>

record client =
  cl_family_id :: u16
  cl_sequence :: u32
  cl_queue :: "recv_outcome list"

definition open_socket :: "kernel \<Rightarrow> unit result" where
  "open_socket k =
    (case k_socket k of
       Some code \<Rightarrow> Err (Os code)
     | None \<Rightarrow>
         (case k_bind k (socket_address_bytes
            \<lparr>sn_family = ucast AF_NETLINK, sn_padding = 0, sn_port_id = 0, sn_groups = 0\<rparr>) of
            Some code \<Rightarrow> Err (Os code)
          | None \<Rightarrow> Ok ()))"

definition send_message :: "kernel \<Rightarrow> bytes \<Rightarrow> unit result" where
  "send_message k message =
    (case k_sendto k message of
       Inl code \<Rightarrow> Err (Os code)
     | Inr sent \<Rightarrow>
         if sent \<noteq> length message then Err (Custom WriteZero ''incomplete generic netlink request'')
         else Ok ())"

definition receive_once :: "recv_outcome list \<Rightarrow> (bytes result \<times> recv_outcome list) option" where
  "receive_once queue = receive (64 * 1024) ''generic netlink socket closed'' queue"

definition family_request :: "string \<Rightarrow> bytes" where
  "family_request family_name =
    build_message GENL_ID_CTRL 1 CTRL_CMD_GETFAMILY 1 NLM_F_REQUEST
      [(CTRL_ATTR_FAMILY_NAME, as_bytes family_name @ [0])]"

definition family_id_of :: "generic_message list \<Rightarrow> u16 option" where
  "family_id_of messages =
    find_map (\<lambda>(kind, v). if kind = CTRL_ATTR_FAMILY_ID then native_u16 v else None)
      (concat (map gm_attributes messages))"

definition connect :: "kernel \<Rightarrow> string \<Rightarrow> client result option" where
  "connect k family_name =
    question (open_socket k) (\<lambda>_.
    question (send_message k (family_request family_name)) (\<lambda>_.
    (case receive_once (k_replies k (family_request family_name)) of
       None \<Rightarrow> None
     | Some (received, queue) \<Rightarrow>
         question received (\<lambda>response.
         question (parse_messages response GENL_ID_CTRL 1) (\<lambda>messages.
         Some (case family_id_of messages of
           None \<Rightarrow> Err (Custom NotFound
             (''generic netlink family '' @ family_name @ '' is unavailable''))
         | Some family_id \<Rightarrow>
             Ok \<lparr>cl_family_id = family_id, cl_sequence = 1, cl_queue = queue\<rparr>))))))"

function request_loop ::
  "u16 \<Rightarrow> u32 \<Rightarrow> bool \<Rightarrow> recv_outcome list \<Rightarrow> generic_message list
    \<Rightarrow> (generic_message list result \<times> recv_outcome list) option" where
  "request_loop family_id sequence dump queue messages =
    (case receive_once queue of
       None \<Rightarrow> None
     | Some (Err e, rest) \<Rightarrow> Some (Err e, rest)
     | Some (Ok response, rest) \<Rightarrow>
         (case parse_messages response family_id sequence of
            Err e \<Rightarrow> Some (Err e, rest)
          | Ok parsed \<Rightarrow>
              (case response_has_done response sequence of
                 Err e \<Rightarrow> Some (Err e, rest)
               | Ok complete \<Rightarrow>
                   if complete \<or> \<not> dump then Some (Ok (messages @ parsed), rest)
                   else request_loop family_id sequence dump rest (messages @ parsed))))"
  by pat_completeness auto
termination
  by (relation "measure (\<lambda>(_, _, _, queue, _). length queue)")
    (auto simp: receive_once_def dest: receive_shorter)

declare request_loop.simps [simp del]

definition request ::
  "kernel \<Rightarrow> client \<Rightarrow> u8 \<Rightarrow> u8 \<Rightarrow> bool \<Rightarrow> attribute list
    \<Rightarrow> (generic_message list result \<times> client) option" where
  "request k client command version dump attrs =
    (let sequence = cl_sequence client + 1;
         client = client\<lparr>cl_sequence := sequence\<rparr>;
         flags = NLM_F_REQUEST OR (if dump then NLM_F_DUMP else 0);
         message = build_message (cl_family_id client) sequence command version flags attrs
     in case send_message k message of
          Err e \<Rightarrow> Some (Err e, client)
        | Ok _ \<Rightarrow>
            map_option (\<lambda>(r, queue). (r, client\<lparr>cl_queue := queue\<rparr>))
              (request_loop (cl_family_id client) sequence dump
                (cl_queue client @ k_replies k message) []))"

section \<open>Round trips\<close>

lemma generic_attribute_same: "append_generic_attribute = append_attribute"
  by (simp add: fun_eq_iff append_generic_attribute_def append_attribute_def)

lemma length_generic_header_bytes [simp]: "length (generic_header_bytes h) = 4"
  by (simp add: generic_header_bytes_def)

lemma generic_header_of_bytes [simp]: "generic_header_of (generic_header_bytes h @ rest) = h"
  by (simp add: generic_header_of_def generic_header_bytes_def wire_simps)

lemma build_message_parts:
  "build_message t sequence command version flags attrs =
    message_header_bytes
      \<lparr>mh_length = of_nat (20 + length (concat (map attribute_bytes attrs))), mh_message_type = t,
       mh_flags = flags, mh_sequence = sequence, mh_port_id = 0\<rparr>
    @ generic_header_bytes \<lparr>gh_command = command, gh_version = version, gh_reserved = 0\<rparr>
    @ concat (map attribute_bytes attrs)"
proof -
  let ?g = "generic_header_bytes \<lparr>gh_command = command, gh_version = version, gh_reserved = 0\<rparr>"
  have "foldl append_attribute (replicate 16 0 @ ?g) attrs =
      (replicate 16 0 @ ?g) @ concat (map attribute_bytes attrs)"
    by (rule foldl_append_attribute) simp
  then show ?thesis
    by (simp add: build_message_def generic_attribute_same Let_def add.assoc)
qed

lemma dvd_length_attributes: "4 dvd length (concat (map attribute_bytes attrs))"
  by (induction attrs) (simp_all add: length_attribute_bytes align_to_4_dvd)

definition small_attributes :: "attribute list \<Rightarrow> bool" where
  "small_attributes attrs \<longleftrightarrow>
    list_all encodable_attribute attrs \<and> length (concat (map attribute_bytes attrs)) < 2 ^ 31"

lemma build_message_framed:
  "small_attributes attrs \<Longrightarrow> framed (build_message t sequence command version flags attrs)"
proof -
  let ?n = "20 + length (concat (map attribute_bytes attrs))"
  assume "small_attributes attrs"
  then have "unat (of_nat ?n :: u32) = ?n"
    by (simp add: small_attributes_def unat_of_nat del: of_nat_add)
  then show ?thesis
    by (simp add: framed_def build_message_parts del: of_nat_add)
qed

lemma build_message_header [simp]:
  "mh_message_type (message_header_of (build_message t sequence command version flags attrs)) = t"
  "mh_sequence (message_header_of (build_message t sequence command version flags attrs)) = sequence"
  "mh_flags (message_header_of (build_message t sequence command version flags attrs)) = flags"
  by (simp_all add: build_message_parts)

lemma parse_step_build:
  assumes "small_attributes attrs" and "t \<noteq> NLMSG_ERROR" and "t \<noteq> NLMSG_OVERRUN"
    and that: "m = build_message t sequence command version flags attrs"
  shows "parse_messages_step t sequence (message_header_of m) m acc =
      Continue (acc @ [\<lparr>gm_command = command, gm_attributes = map masked attrs\<rparr>])"
proof -
  let ?hb = "message_header_bytes
    \<lparr>mh_length = of_nat (20 + length (concat (map attribute_bytes attrs))), mh_message_type = t,
     mh_flags = flags, mh_sequence = sequence, mh_port_id = 0\<rparr>"
  let ?g = "generic_header_bytes \<lparr>gh_command = command, gh_version = version, gh_reserved = 0\<rparr>"
  have m: "m = ?hb @ ?g @ concat (map attribute_bytes attrs)"
    using that by (simp add: build_message_parts)
  have payload: "get_from 16 m = Some (?g @ concat (map attribute_bytes attrs))"
    by (simp add: m get_from_def)
  have attributes: "parse_attributes m 20 = Some (map masked attrs)"
    using netlink_attributes.decode_concat [of attrs "[]" "?hb @ ?g"] assms(1)
    by (simp add: parse_attributes_def m small_attributes_def)
  have header: "mh_sequence (message_header_of m) = sequence" "mh_message_type (message_header_of m) = t"
    by (simp_all add: that)
  show ?thesis
    using assms(2,3)
    by (simp add: parse_messages_step_def payload attributes header read_unaligned_def align_to_4_def)
qed

text \<open>A message with its command and its attributes, as a sender holds it.\<close>

definition encode_generic :: "u16 \<Rightarrow> u32 \<Rightarrow> generic_message \<Rightarrow> bytes" where
  "encode_generic family_id sequence m =
    build_message family_id sequence (gm_command m) 1 2 (gm_attributes m)"

definition generic_view :: "generic_message \<Rightarrow> generic_message" where
  "generic_view m = m\<lparr>gm_attributes := map masked (gm_attributes m)\<rparr>"

lemma encode_generic_header [simp]:
  "mh_message_type (message_header_of (encode_generic t s m)) = t"
  "mh_sequence (message_header_of (encode_generic t s m)) = s"
  by (simp_all add: encode_generic_def)

lemma parse_step_encode:
  assumes "small_attributes (gm_attributes m)" and "t \<noteq> NLMSG_ERROR" and "t \<noteq> NLMSG_OVERRUN"
  shows "parse_messages_step t s (message_header_of (encode_generic t s m)) (encode_generic t s m) acc =
    Continue (acc @ [generic_view m])"
  using parse_step_build [OF assms, of "encode_generic t s m" s "gm_command m" 1 2 acc]
  by (simp add: encode_generic_def generic_view_def)

text \<open>What a datagram contributes to the request with a given sequence number: nothing, if all
  its messages belong to other requests.\<close>

definition foreign :: "u32 \<Rightarrow> bytes \<Rightarrow> bool" where
  "foreign sequence m \<longleftrightarrow> mh_sequence (message_header_of m) \<noteq> sequence"

lemma parse_messages_frames:
  "list_all framed ms \<Longrightarrow> parse_messages (concat (map pad_to_4 ms)) t s =
    (case run_steps (parse_messages_step t s) ms [] of Return r \<Rightarrow> r | Continue acc \<Rightarrow> Ok acc)"
  by (simp add: parse_messages_def message_loop_frames frames_concat split: flow.splits)

lemma response_has_done_frames:
  assumes "list_all framed ms"
  shows "response_has_done (concat (map pad_to_4 ms)) s =
    Ok (list_ex (\<lambda>m. mh_sequence (message_header_of m) = s
      \<and> mh_message_type (message_header_of m) = NLMSG_DONE) ms)"
proof -
  have "run_steps (done_step s) ms () =
      (if list_ex (\<lambda>m. mh_sequence (message_header_of m) = s
          \<and> mh_message_type (message_header_of m) = NLMSG_DONE) ms
       then Return (Ok True) else Continue ())"
    by (induction ms) (auto simp: done_step_def)
  then show ?thesis
    by (simp add: response_has_done_def message_loop_frames frames_concat [OF assms])
qed

lemma run_parse_foreign:
  "list_all (foreign s) ms \<Longrightarrow> run_steps (parse_messages_step t s) ms acc = Continue acc"
  by (induction ms) (simp_all add: foreign_def parse_messages_step_def)

lemma run_parse_encoded:
  assumes "list_all (\<lambda>m. small_attributes (gm_attributes m)) gs"
    and "t \<noteq> NLMSG_ERROR" and "t \<noteq> NLMSG_OVERRUN"
  shows "run_steps (parse_messages_step t s) (map (encode_generic t s) gs) acc =
    Continue (acc @ map generic_view gs)"
  using assms
  by (induction gs arbitrary: acc) (simp_all add: parse_step_encode)

text \<open>What \<open>build_message\<close> writes, \<open>parse_messages\<close> reads back: the command and every
  attribute, values intact and kinds without their flag bits, whatever padding lies between.\<close>

theorem build_parse_roundtrip:
  assumes "small_attributes attrs" and "t \<noteq> NLMSG_ERROR" and "t \<noteq> NLMSG_OVERRUN"
  shows "parse_messages (build_message t sequence command version flags attrs) t sequence =
    Ok [\<lparr>gm_command = command, gm_attributes = map masked attrs\<rparr>]"
proof -
  let ?m = "build_message t sequence command version flags attrs"
  have "4 dvd length ?m"
    using dvd_length_attributes [of attrs] by (simp add: build_message_parts)
  then have "parse_messages ?m t sequence = parse_messages (concat (map pad_to_4 [?m])) t sequence"
    by (simp add: pad_to_4_id)
  also have "\<dots> = Ok [\<lparr>gm_command = command, gm_attributes = map masked attrs\<rparr>]"
    using build_message_framed [OF assms(1)]
    by (subst parse_messages_frames)
      (simp_all add: parse_step_build [OF assms refl])
  finally show ?thesis .
qed

theorem build_parse_roundtrip_witness:
  "parse_messages (build_message 42 7 5 1 1 [attribute_u32 3 123, (4, [119, 108, 97, 110, 48, 0])]) 42 7 =
    Ok [\<lparr>gm_command = 5, gm_attributes = [attribute_u32 3 123, (4, [119, 108, 97, 110, 48, 0])]\<rparr>]"
  using build_parse_roundtrip [of "[attribute_u32 3 123, (4, [119, 108, 97, 110, 48, 0])]" 42 7 5 1 1]
  by (simp add: small_attributes_def encodable_attribute_def attribute_u32_def length_attribute_bytes
      align_to_4_def masked_def)

lemma nested_decode:
  assumes "list_all encodable_attribute attrs"
  shows "nested_attributes (snd (attribute_nested kind attrs)) = Some (map masked attrs)"
proof -
  have "snd (attribute_nested kind attrs) = concat (map attribute_bytes attrs)"
    by (simp add: attribute_nested_def generic_attribute_same foldl_append_attribute)
  then show ?thesis
    using netlink_attributes.decode_buffer [OF assms]
    by (simp add: nested_attributes_def parse_attributes_def)
qed

lemma masked_nested:
  "masked (attribute_nested kind attrs) = (kind AND NLA_TYPE_MASK, snd (attribute_nested kind attrs))"
  by (simp add: masked_def attribute_nested_def bit.conj_disj_distrib2)

lemma length_nested: "length (snd (attribute_nested kind attrs)) = length (concat (map attribute_bytes attrs))"
  by (simp add: attribute_nested_def generic_attribute_same foldl_append_attribute)

text \<open>Nested attributes come back from \<open>nested_attributes\<close>, and the nesting flag that
  \<open>Attribute::nested\<close> sets is invisible to the parser of the outer level.\<close>

theorem nested_roundtrip:
  assumes "list_all encodable_attribute attrs"
  shows "nested_attributes (snd (attribute_nested kind attrs)) = Some (map masked attrs)
    \<and> masked (attribute_nested kind attrs) = (kind AND NLA_TYPE_MASK, snd (attribute_nested kind attrs))"
  using nested_decode [OF assms] masked_nested by simp

theorem nested_roundtrip_witness:
  "nested_attributes (snd (attribute_nested 1 [attribute_u32 2 9])) = Some [attribute_u32 2 9]"
  using nested_roundtrip [of "[attribute_u32 2 9]" 1]
  by (simp add: encodable_attribute_def attribute_u32_def masked_def)

section \<open>The request cycle\<close>

lemma receive_once_packet:
  assumes "packets_ok (64 * 1024) (ms # mss)"
  shows "receive_once (packets (ms # mss) @ queue) =
    Some (Ok (concat (map pad_to_4 ms)), packets mss @ queue)"
proof -
  have ms: "ms \<noteq> []" "list_all framed ms" "length (concat (map pad_to_4 ms)) \<le> 65536"
    using assms by (simp_all add: packets_ok_def)
  then have "concat (map pad_to_4 ms) \<noteq> []"
    by (cases ms) (simp_all add: framed_not_empty)
  with ms(3) show ?thesis
    by (auto simp: receive_once_def packets_def Let_def)
qed

text \<open>Datagrams of other requests do not end a dump and contribute nothing to it.\<close>

lemma request_loop_stale:
  assumes "packets_ok (64 * 1024) mss" and "list_all (foreign s) (concat mss)"
  shows "request_loop t s True (packets mss @ queue) acc = request_loop t s True queue acc"
  using assms
proof (induction mss)
  case (Cons ms mss)
  have framed: "list_all framed ms" and foreign: "list_all (foreign s) ms"
    and rest: "packets_ok (64 * 1024) mss"
    using Cons.prems by (simp_all add: packets_ok_def)
  have "\<not> list_ex (\<lambda>m. mh_sequence (message_header_of m) = s
      \<and> mh_message_type (message_header_of m) = NLMSG_DONE) ms"
    using foreign by (auto simp: list_ex_iff list_all_iff foreign_def)
  then have "response_has_done (concat (map pad_to_4 ms)) s = Ok False"
    by (simp add: response_has_done_frames [OF framed])
  moreover have "parse_messages (concat (map pad_to_4 ms)) t s = Ok []"
    by (simp add: parse_messages_frames [OF framed] run_parse_foreign [OF foreign])
  ultimately show ?case
    using Cons rest
    by (subst request_loop.simps) (simp add: receive_once_packet [OF Cons.prems(1)])
qed (simp add: packets_def)

definition ordinary_type :: "u16 \<Rightarrow> bool" where
  "ordinary_type t \<longleftrightarrow> t \<noteq> NLMSG_ERROR \<and> t \<noteq> NLMSG_DONE \<and> t \<noteq> NLMSG_OVERRUN"

lemma datagram_of_dump:
  assumes "list_all framed ms" and "ordinary_type t"
    and "list_all (\<lambda>m. small_attributes (gm_attributes m)) gs"
  shows "ms = map (encode_generic t s) gs \<Longrightarrow>
      parse_messages (concat (map pad_to_4 ms)) t s = Ok (map generic_view gs)
      \<and> response_has_done (concat (map pad_to_4 ms)) s = Ok False"
    and "ms = map (encode_generic t s) gs @ [done_message s] \<Longrightarrow>
      parse_messages (concat (map pad_to_4 ms)) t s = Ok (map generic_view gs)
      \<and> response_has_done (concat (map pad_to_4 ms)) s = Ok True"
proof -
  have run: "run_steps (parse_messages_step t s) (map (encode_generic t s) gs) [] =
      Continue (map generic_view gs)"
    using run_parse_encoded [OF assms(3), of t s "[]"] assms(2) by (simp add: ordinary_type_def)
  show "ms = map (encode_generic t s) gs \<Longrightarrow>
      parse_messages (concat (map pad_to_4 ms)) t s = Ok (map generic_view gs)
      \<and> response_has_done (concat (map pad_to_4 ms)) s = Ok False"
    using run assms(2)
    unfolding parse_messages_frames [OF assms(1)] response_has_done_frames [OF assms(1)]
    by (auto simp: list_ex_iff ordinary_type_def)
  show "ms = map (encode_generic t s) gs @ [done_message s] \<Longrightarrow>
      parse_messages (concat (map pad_to_4 ms)) t s = Ok (map generic_view gs)
      \<and> response_has_done (concat (map pad_to_4 ms)) s = Ok True"
    using run assms(2)
    unfolding parse_messages_frames [OF assms(1)] response_has_done_frames [OF assms(1)]
    by (auto simp: run_steps_append parse_messages_step_def ordinary_type_def)
qed

lemma request_loop_complete:
  assumes "packets_ok (64 * 1024) mss" and "ordinary_type t"
    and "concat mss = map (encode_generic t s) gs @ [done_message s]"
    and "list_all (\<lambda>m. small_attributes (gm_attributes m)) gs"
  shows "request_loop t s True (packets mss) acc = Some (Ok (acc @ map generic_view gs), [])"
  using assms(1,3,4)
proof (induction mss arbitrary: gs acc)
  case (Cons ms mss)
  have framed: "list_all framed ms" and rest: "packets_ok (64 * 1024) mss"
    using Cons.prems(1) by (simp_all add: packets_ok_def)
  note received = receive_once_packet [OF Cons.prems(1), of "[]", simplified]
  show ?case
  proof (cases mss)
    case Nil
    with Cons.prems(2) have "ms = map (encode_generic t s) gs @ [done_message s]"
      by simp
    from datagram_of_dump(2) [OF framed assms(2) Cons.prems(3) this] show ?thesis
      using received by (subst request_loop.simps) (simp add: Nil packets_def)
  next
    case (Cons ms' mss')
    with rest have "concat mss \<noteq> []"
      by (simp add: packets_ok_def)
    then obtain zs z where zs: "concat mss = zs @ [z]"
      by (cases "concat mss" rule: rev_cases) auto
    with Cons.prems(2) have "map (encode_generic t s) gs = ms @ zs" and z: "z = done_message s"
      by auto
    then obtain gs1 gs2 where gs: "gs = gs1 @ gs2" "ms = map (encode_generic t s) gs1"
        "zs = map (encode_generic t s) gs2"
      by (auto simp: map_eq_append_conv)
    with Cons.prems(3) have small: "list_all (\<lambda>m. small_attributes (gm_attributes m)) gs1"
      "list_all (\<lambda>m. small_attributes (gm_attributes m)) gs2"
      by simp_all
    have "request_loop t s True (packets mss) (acc @ map generic_view gs1) =
        Some (Ok ((acc @ map generic_view gs1) @ map generic_view gs2), [])"
      using rest zs z gs(3) small(2) by (intro Cons.IH) simp_all
    with datagram_of_dump(1) [OF framed assms(2) small(1) gs(2)] show ?thesis
      by (subst request_loop.simps) (simp add: received gs(1))
  qed
qed simp

text \<open>C4: A dump request returns exactly the messages the kernel sent for it, in order and
  decoded, however they are spread over datagrams; replies to earlier requests that are still
  queued are skipped, because every request has a fresh sequence number.\<close>

theorem request_complete:
  assumes "send_message k (build_message (cl_family_id c) (cl_sequence c + 1) command version
      (NLM_F_REQUEST OR NLM_F_DUMP) attrs) = Ok ()"
    and "k_replies k (build_message (cl_family_id c) (cl_sequence c + 1) command version
      (NLM_F_REQUEST OR NLM_F_DUMP) attrs) = packets mss"
    and "cl_queue c = packets stale" and "packets_ok (64 * 1024) stale"
    and "list_all (foreign (cl_sequence c + 1)) (concat stale)"
    and "packets_ok (64 * 1024) mss" and "ordinary_type (cl_family_id c)"
    and "concat mss = map (encode_generic (cl_family_id c) (cl_sequence c + 1)) gs
      @ [done_message (cl_sequence c + 1)]"
    and "list_all (\<lambda>m. small_attributes (gm_attributes m)) gs"
  shows "request k c command version True attrs =
    Some (Ok (map generic_view gs), c\<lparr>cl_sequence := cl_sequence c + 1, cl_queue := []\<rparr>)"
  using assms(1-3) request_loop_complete [OF assms(6,7,8,9), of "[]"]
    request_loop_stale [OF assms(4,5), of "cl_family_id c" "packets mss" "[]"]
  by (simp add: request_def Let_def)

theorem request_complete_witness:
  "request (example_kernel (packets
        [[encode_generic 30 2 \<lparr>gm_command = 7, gm_attributes = [attribute_u32 1 5]\<rparr>], [done_message 2]]))
      \<lparr>cl_family_id = 30, cl_sequence = 1, cl_queue = packets [[done_message 1]]\<rparr> 5 1 True [] =
    Some (Ok [\<lparr>gm_command = 7, gm_attributes = [attribute_u32 1 5]\<rparr>],
      \<lparr>cl_family_id = 30, cl_sequence = 2, cl_queue = []\<rparr>)"
proof -
  let ?g = "\<lparr>gm_command = 7, gm_attributes = [attribute_u32 1 5]\<rparr>"
  have small: "small_attributes [attribute_u32 1 5]"
    by (simp add: small_attributes_def encodable_attribute_def attribute_u32_def length_attribute_bytes
        align_to_4_def)
  then have framed: "framed (encode_generic 30 2 ?g)"
    by (simp add: encode_generic_def build_message_framed)
  have length: "length (encode_generic 30 2 ?g) \<le> 100"
    by (simp add: encode_generic_def build_message_parts attribute_u32_def length_attribute_bytes align_to_4_def)
  have "packets_ok (64 * 1024) [[encode_generic 30 2 ?g], [done_message 2]]"
    using framed length align_to_4_less [of "length (encode_generic 30 2 ?g)"] align_to_4_less [of 20]
    by (simp add: packets_ok_def)
  moreover have "packets_ok (64 * 1024) [[done_message 1]]"
    by (simp add: packets_ok_def align_to_4_def)
  moreover have "send_message (example_kernel script) m = Ok ()" for script m
    by (simp add: send_message_def example_kernel_def)
  ultimately show ?thesis
    using small request_complete [of "example_kernel (packets [[encode_generic 30 2 ?g], [done_message 2]])"
      "\<lparr>cl_family_id = 30, cl_sequence = 1, cl_queue = packets [[done_message 1]]\<rparr>" 5 1 "[]"
      "[[encode_generic 30 2 ?g], [done_message 2]]" "[[done_message 1]]" "[?g]"]
    by (simp add: foreign_def ordinary_type_def generic_view_def masked_def attribute_u32_def)
qed

end
