(* ===== verification/Text_Layout.thy ===== *)
theory Text_Layout
  imports Net_Types
begin

text \<open>
  Rows and files as their writers lay them out: fields separated by any positive number of
  blanks, lines ended by a newline. \<open>split_whitespace\<close> and \<open>lines\<close> recover them.
\<close>

definition blank :: char where
  "blank = CHR '' ''"

definition row_text :: "(nat \<times> string) list \<Rightarrow> nat \<Rightarrow> string" where
  "row_text cols trailing =
    concat (map (\<lambda>(gap, f). replicate (Suc gap) blank @ f) cols) @ replicate trailing blank"

definition plain_field :: "string \<Rightarrow> bool" where
  "plain_field f \<longleftrightarrow> f \<noteq> [] \<and> list_all (\<lambda>c. 33 \<le> (of_char c :: nat) \<and> (of_char c :: nat) < 128) f"

lemma byte_of_char_less: "(of_char c :: nat) < 128 \<Longrightarrow> byte_of_char c < 0x80"
  by (simp add: byte_of_char_def word_less_nat_alt unat_of_nat)

lemma unat_byte_of_char: "(of_char c :: nat) < 128 \<Longrightarrow> unat (byte_of_char c) = of_char c"
  by (simp add: byte_of_char_def unat_of_nat)

lemma whitespace_ascii:
  assumes "(of_char c :: nat) < 128"
  shows "whitespace [c] \<longleftrightarrow> (of_char c :: nat) \<in> {9, 10, 11, 12, 13, 32}"
proof -
  have "byte_of_char c = b \<longleftrightarrow> of_char c = unat b" for b
    using unat_byte_of_char [OF assms] by (metis unsigned_word_eqI)
  then show ?thesis
    by (auto simp: whitespace_def as_bytes_def)
qed

lemma whitespace_blank [simp]: "whitespace [blank]"
  by (simp add: whitespace_ascii blank_def)

lemma plain_not_whitespace: "plain_field f \<Longrightarrow> c \<in> set f \<Longrightarrow> \<not> whitespace [c]"
  by (auto simp: plain_field_def list_all_iff whitespace_ascii)

definition pieces_of :: "string \<Rightarrow> string list list" where
  "pieces_of s = filter (\<lambda>piece. piece \<noteq> []) (split_on whitespace (map (\<lambda>c. [c]) s))"

lemma pieces_of_blanks [simp]: "pieces_of (replicate n blank @ s) = pieces_of s"
  by (induction n) (simp_all add: pieces_of_def)

lemma pieces_of_Nil [simp]: "pieces_of [] = []"
  by (simp add: pieces_of_def)

lemma pieces_of_only_blanks [simp]: "pieces_of (replicate n blank) = []"
  using pieces_of_blanks [of n "[]"] by (simp del: pieces_of_blanks)

lemma pieces_of_field:
  assumes "plain_field f" and "rest = [] \<or> (\<exists>rest'. rest = blank # rest')"
  shows "pieces_of (f @ rest) = map (\<lambda>c. [c]) f # pieces_of rest"
proof -
  have none: "\<forall>x \<in> set (map (\<lambda>c. [c]) f). \<not> whitespace x"
    using plain_not_whitespace [OF assms(1)] by auto
  from assms(2) show ?thesis
  proof
    assume "rest = []"
    with none assms(1) show ?thesis
      by (simp add: pieces_of_def split_on_none plain_field_def)
  next
    assume "\<exists>rest'. rest = blank # rest'"
    then obtain rest' where "rest = blank # rest'" ..
    with none assms(1) show ?thesis
      by (simp add: pieces_of_def split_on_piece plain_field_def)
  qed
qed

lemma row_text_Cons: "row_text ((gap, f) # cols) n = replicate (Suc gap) blank @ f @ row_text cols n"
  by (simp add: row_text_def)

lemma row_text_start: "row_text cols n = [] \<or> (\<exists>rest. row_text cols n = blank # rest)"
  by (cases cols; cases n) (auto simp: row_text_def)

lemma pieces_of_row:
  assumes "list_all (\<lambda>(_, f). plain_field f) cols"
  shows "pieces_of (row_text cols n) = map (\<lambda>(_, f). map (\<lambda>c. [c]) f) cols"
  using assms
proof (induction cols)
  case (Cons x cols)
  obtain gap f where x: "x = (gap, f)"
    by (cases x)
  with Cons pieces_of_field [of f "row_text cols n"] row_text_start [of cols n]
    pieces_of_blanks [of "Suc gap" "f @ row_text cols n"]
  show ?case
    by (simp add: row_text_Cons)
qed (simp add: row_text_def)

lemma concat_singletons [simp]: "concat (map (\<lambda>c. [c]) s) = s"
  by (induction s) simp_all

lemma row_text_ascii:
  "list_all (\<lambda>(_, f). plain_field f) cols \<Longrightarrow> c \<in> set (row_text cols n) \<Longrightarrow>
    (of_char c :: nat) < 128 \<and> 32 \<le> (of_char c :: nat)"
  by (fastforce simp: row_text_def list_all_iff plain_field_def blank_def)

lemma split_whitespace_row:
  assumes "list_all (\<lambda>(_, f). plain_field f) cols"
  shows "split_whitespace (row_text cols n) = map snd cols"
proof -
  have "utf8_chars (row_text cols n) = map (\<lambda>c. [c]) (row_text cols n)"
    using row_text_ascii [OF assms] by (intro utf8_chars_ascii) (blast intro: byte_of_char_less)
  with pieces_of_row [OF assms, of n] show ?thesis
    by (simp add: split_whitespace_def pieces_of_def comp_def case_prod_beta)
qed

section \<open>Lines\<close>

definition file_text :: "string list \<Rightarrow> string" where
  "file_text rows = concat (map (\<lambda>row. row @ [newline]) rows)"

definition plain_line :: "string \<Rightarrow> bool" where
  "plain_line row \<longleftrightarrow> newline \<notin> set row \<and> carriage_return \<notin> set row"

lemma split_file_text:
  "list_all plain_line rows \<Longrightarrow> split_char newline (file_text rows) = rows @ [[]]"
proof (induction rows)
  case (Cons row rows)
  then have "\<forall>x \<in> set row. x \<noteq> newline"
    by (auto simp: plain_line_def)
  from split_on_piece [OF this, of newline] Cons show ?case
    by (simp add: file_text_def split_char_def)
qed (simp add: file_text_def split_char_def)

lemma lines_file_text:
  assumes "list_all plain_line rows"
  shows "lines (file_text rows) = rows"
proof -
  have "strip_cr row = row" if "row \<in> set rows" for row
  proof -
    have "plain_line row"
      using assms that by (simp add: list_all_iff)
    then have "row \<noteq> [] \<longrightarrow> last row \<noteq> carriage_return"
      using last_in_set [of row] by (metis plain_line_def)
    then show ?thesis by auto
  qed
  then show ?thesis
    using split_file_text [OF assms] by (simp add: map_idI)
qed

lemma plain_line_row: "list_all (\<lambda>(_, f). plain_field f) cols \<Longrightarrow> plain_line (row_text cols n)"
  using row_text_ascii [of cols newline n] row_text_ascii [of cols carriage_return n]
  by (auto simp: plain_line_def newline_def carriage_return_def)

lemma plain_line_printable: "list_all (\<lambda>c. 32 \<le> (of_char c :: nat)) row \<Longrightarrow> plain_line row"
  by (auto simp: plain_line_def list_all_iff newline_def carriage_return_def)

section \<open>Trimming\<close>

definition ascii_blank :: "char \<Rightarrow> bool" where
  "ascii_blank c \<longleftrightarrow> (of_char c :: nat) \<in> {9, 10, 11, 12, 13, 32}"

text \<open>Printable text that neither starts nor ends with a blank.\<close>

definition trimmed :: "string \<Rightarrow> bool" where
  "trimmed s \<longleftrightarrow> s \<noteq> [] \<and> list_all (\<lambda>c. 32 \<le> (of_char c :: nat) \<and> (of_char c :: nat) < 127) s
    \<and> hd s \<noteq> blank \<and> last s \<noteq> blank"

lemma trim_padded:
  assumes "trimmed s" and "list_all ascii_blank before" and "list_all ascii_blank after"
  shows "trim (before @ s @ after) = s"
proof -
  have ascii: "(of_char c :: nat) < 128" if "c \<in> set (before @ s @ after)" for c
    using that assms by (auto simp: trimmed_def list_all_iff ascii_blank_def)
  then have chars: "utf8_chars (before @ s @ after) = map (\<lambda>c. [c]) (before @ s @ after)"
    by (intro utf8_chars_ascii ballI byte_of_char_less)
  have blanks: "\<forall>x \<in> set (map (\<lambda>c. [c]) pad). whitespace x" if "pad = before \<or> pad = after" for pad
    using that assms(2,3) by (auto simp: list_all_iff ascii_blank_def whitespace_ascii)
  have drop: "\<forall>x \<in> set xs. whitespace x \<Longrightarrow> dropWhile whitespace (xs @ ys) = dropWhile whitespace ys" for xs ys
    by (induction xs) auto
  have ends: "\<not> whitespace [hd s]" "\<not> whitespace [last s]" and "s \<noteq> []"
  proof -
    have "(of_char c :: nat) = of_char blank \<longleftrightarrow> c = blank" for c
      by (rule of_char_eq_iff)
    then have "(of_char c :: nat) = 32 \<longleftrightarrow> c = blank" for c
      by (simp add: blank_def)
    then have visible: "\<not> whitespace [c]" if "c \<in> set s" and "c \<noteq> blank" for c
      using that assms(1) by (auto simp: trimmed_def list_all_iff whitespace_ascii)
    show "\<not> whitespace [hd s]" and "\<not> whitespace [last s]"
      using assms(1) visible [of "hd s"] visible [of "last s"] by (simp_all add: trimmed_def)
    show "s \<noteq> []"
      using assms(1) by (simp add: trimmed_def)
  qed
  have "dropWhile whitespace (map (\<lambda>c. [c]) (before @ s @ after)) = map (\<lambda>c. [c]) (s @ after)"
    using blanks [of before] ends(1) \<open>s \<noteq> []\<close> by (cases s) (simp_all add: drop)
  moreover have "dropWhile whitespace (rev (map (\<lambda>c. [c]) (s @ after))) = rev (map (\<lambda>c. [c]) s)"
    using blanks [of after] ends(2) \<open>s \<noteq> []\<close> by (cases s rule: rev_cases) (simp_all add: drop)
  ultimately show ?thesis
    by (simp add: trim_def chars)
qed

text \<open>A value followed by the newline that ends a \<open>sysfs\<close> or \<open>procfs\<close> file.\<close>

lemma trim_plain_line: "trimmed f \<Longrightarrow> trim (f @ [newline]) = f"
  using trim_padded [of f "[]" "[newline]"] by (simp add: ascii_blank_def newline_def)

lemma decimal_code: "c \<in> set (decimal n) \<Longrightarrow> 48 \<le> (of_char c :: nat) \<and> (of_char c :: nat) < 58"
proof -
  assume "c \<in> set (decimal n)"
  then obtain d where "d < 10" and "c = hex_digit d"
    using set_to_radix [of 10 c n] by (auto simp: decimal_def simp del: hex_digit.simps)
  then show ?thesis
    using hex_digit_code [of d] by (simp del: hex_digit.simps)
qed

lemma plain_field_decimal: "plain_field (decimal n)"
  using decimal_code [of _ n] by (fastforce simp: plain_field_def list_all_iff decimal_def)

lemma trimmed_decimal: "trimmed (decimal n)"
proof -
  have "decimal n \<noteq> []"
    by (simp add: decimal_def)
  moreover from this have "hd (decimal n) \<noteq> blank" and "last (decimal n) \<noteq> blank"
    using decimal_code [of "hd (decimal n)" n] decimal_code [of "last (decimal n)" n]
    by (auto simp: blank_def)
  ultimately show ?thesis
    using decimal_code [of _ n] by (fastforce simp: trimmed_def list_all_iff)
qed

section \<open>Hexadecimal fields\<close>

text \<open>\<open>%0nX\<close>: a fixed number of upper-case digits.\<close>

definition upper_hex_digit :: "nat \<Rightarrow> char" where
  "upper_hex_digit n = (if n < 10 then char_of (48 + n) else char_of (55 + n))"

primrec hex_field :: "nat \<Rightarrow> nat \<Rightarrow> string" where
  "hex_field 0 v = []"
| "hex_field (Suc n) v = hex_field n (v div 16) @ [upper_hex_digit (v mod 16)]"

lemma to_digit_upper: "n < 16 \<Longrightarrow> to_digit 16 (upper_hex_digit n) = Some n"
proof -
  assume "n < 16"
  moreover have "n < 16 \<Longrightarrow> of_char (upper_hex_digit n) = (if n < 10 then 48 + n else 55 + n)"
    by (simp add: upper_hex_digit_def)
  ultimately show ?thesis
    by (simp add: to_digit_def Let_def)
qed

lemma length_hex_field [simp]: "length (hex_field n v) = n"
  by (induction n arbitrary: v) simp_all

lemma hex_field_Nil [simp]: "hex_field n v = [] \<longleftrightarrow> n = 0"
  by (metis length_0_conv length_hex_field)

lemma digits_value_hex_field: "digits_value 16 0 (hex_field n v) = Some (v mod 16 ^ n)"
proof (induction n arbitrary: v)
  case (Suc n)
  have "v mod (16 * 16 ^ n) = 16 * (v div 16 mod 16 ^ n) + v mod 16"
    by (simp add: mod_mult2_eq)
  with Suc show ?case
    by (simp add: digits_value_append to_digit_upper)
qed simp

lemma hex_field_digits: "c \<in> set (hex_field n v) \<Longrightarrow> \<exists>d<16. c = upper_hex_digit d"
  by (induction n arbitrary: v) (auto intro: exI [of _ "_ mod 16"])

lemma upper_hex_digit_code: "d < 16 \<Longrightarrow> of_char (upper_hex_digit d) = (if d < 10 then 48 + d else 55 + d)"
  by (simp add: upper_hex_digit_def)

lemma hex_field_plain:
  assumes "c \<in> set (hex_field n v)"
  shows "48 \<le> (of_char c :: nat)" and "(of_char c :: nat) < 128" and "c \<noteq> CHR '':''"
    and "c \<noteq> CHR ''+''" and "c \<noteq> CHR ''-''"
proof -
  obtain d where d: "d < 16" "c = upper_hex_digit d"
    using hex_field_digits [OF assms] by blast
  then show "48 \<le> (of_char c :: nat)" and "(of_char c :: nat) < 128"
    by (simp_all add: upper_hex_digit_code)
  have code: "of_char c = (if d < 10 then 48 + d else 55 + d)"
    using d by (simp add: upper_hex_digit_code)
  then show "c \<noteq> CHR '':''" and "c \<noteq> CHR ''+''" and "c \<noteq> CHR ''-''"
    using d(1) by (auto split: if_splits)
qed

lemma from_str_radix_hex_field:
  assumes "0 < n" and "v < 16 ^ n" and "v < bound"
  shows "from_str_radix 16 bound (hex_field n v) = Some v"
proof -
  obtain c cs where cs: "hex_field n v = c # cs"
    using assms(1) length_hex_field [of n v] by (cases "hex_field n v") auto
  then have "c \<noteq> CHR ''+''" and "c \<noteq> CHR ''-''"
    using hex_field_plain [of c n v] by auto
  with assms cs digits_value_hex_field [of n v] show ?thesis
    by (simp add: from_str_radix_def)
qed

lemma parse_hex_fields [simp]:
  "parse_u32_hex (hex_field 8 (unat w)) = Some w"
  "parse_u16_hex (hex_field 4 (unat p)) = Some p"
  "parse_u8_hex (hex_field 2 (unat b)) = Some b"
  using unat_bounds(1) [of b] unat_bounds(2) [of p] unat_bounds(3) [of w]
  by (simp_all add: parse_u32_hex_def parse_u16_hex_def parse_u8_hex_def from_str_radix_hex_field)

end
