(* ===== verification/Sockets.thy ===== *)
theory Sockets
  imports Text_Layout Interfaces
begin

text \<open>
  \<open>sockets.rs\<close>: the procfs snapshot of TCP and UDP sockets, the views of the command line and
  the attribution of sockets to processes. The file system is a parameter: what reading a path
  returns, and the process directories with their descriptors. The row format of the kernel
  is written out (\<open>proc_row\<close>) and the parser is shown to invert it.
\<close>

section \<open>Records\<close>

datatype protocol = Tcp | Udp

instantiation protocol :: linorder
begin

fun less_eq_protocol :: "protocol \<Rightarrow> protocol \<Rightarrow> bool" where
  "less_eq_protocol Udp Tcp = False"
| "less_eq_protocol _ _ = True"

definition less_protocol :: "protocol \<Rightarrow> protocol \<Rightarrow> bool" where
  "less_protocol a b = (a \<le> b \<and> \<not> b \<le> a)"

instance
proof
  fix x y z :: protocol
  show "(x < y) = (x \<le> y \<and> \<not> y \<le> x)"
    by (simp add: less_protocol_def)
  show "x \<le> x"
    by (cases x) auto
  show "x \<le> z" if "x \<le> y" and "y \<le> z"
    using that by (cases x; cases y; cases z) auto
  show "x = y" if "x \<le> y" and "y \<le> x"
    using that by (cases x; cases y) auto
  show "x \<le> y \<or> y \<le> x"
    by (cases x; cases y) auto
qed

end

record network_socket =
  s_protocol :: protocol
  s_local :: socket_addr
  s_remote :: socket_addr
  s_state :: string
  s_uid :: u32
  s_inode :: u64

datatype view = ViewAll | ViewTcp | ViewUdp | ViewListening | ViewConnected

record socket_process =
  sp_pid :: u32
  sp_name :: string

fun protocol_name :: "protocol \<Rightarrow> string" where
  "protocol_name Tcp = ''TCP''"
| "protocol_name Udp = ''UDP''"

definition view_from_name :: "string \<Rightarrow> view option" where
  "view_from_name name =
    map_of [(''all'', ViewAll), (''tcp'', ViewTcp), (''udp'', ViewUdp), (''listening'', ViewListening),
      (''connected'', ViewConnected)] name"

definition remote_is_unspecified :: "network_socket \<Rightarrow> bool" where
  "remote_is_unspecified s \<longleftrightarrow> is_unspecified (sa_ip (s_remote s)) \<and> sa_port (s_remote s) = 0"

fun view_matches :: "view \<Rightarrow> network_socket \<Rightarrow> bool" where
  "view_matches ViewAll s = True"
| "view_matches ViewTcp s = (s_protocol s = Tcp)"
| "view_matches ViewUdp s = (s_protocol s = Udp)"
| "view_matches ViewListening s =
    (s_state s = ''listen'' \<or> (s_protocol s = Udp \<and> remote_is_unspecified s))"
| "view_matches ViewConnected s = (\<not> remote_is_unspecified s)"

definition socket_state :: "protocol \<Rightarrow> u8 \<Rightarrow> string" where
  "socket_state protocol state =
    unwrap_or ''unknown'' (map_of
      (case protocol of
         Tcp \<Rightarrow> [(0x01, ''established''), (0x02, ''syn-sent''), (0x03, ''syn-received''),
           (0x04, ''fin-wait-1''), (0x05, ''fin-wait-2''), (0x06, ''time-wait''), (0x07, ''closed''),
           (0x08, ''close-wait''), (0x09, ''last-ack''), (0x0a, ''listen''), (0x0b, ''closing''),
           (0x0c, ''new-syn-received'')]
       | Udp \<Rightarrow> [(0x01, ''connected''), (0x07, ''unconnected'')]) state)"

section \<open>Parsing\<close>

text \<open>The four words of an IPv6 address; a chunk that is cut inside a scalar contains no hex
  digits there, so the missing \<open>from_utf8\<close> check makes no difference.\<close>

definition ipv6_words :: "string \<Rightarrow> bytes option" where
  "ipv6_words s =
    do { a \<leftarrow> parse_u32_hex (take 8 s);
         b \<leftarrow> parse_u32_hex (take 8 (drop 8 s));
         c \<leftarrow> parse_u32_hex (take 8 (drop 16 s));
         d \<leftarrow> parse_u32_hex (take 8 (drop 24 s));
         Some (to_le_bytes 4 a @ to_le_bytes 4 b @ to_le_bytes 4 c @ to_le_bytes 4 d) }"

definition parse_endpoint :: "string \<Rightarrow> socket_addr option" where
  "parse_endpoint s =
    do { (address, port) \<leftarrow> split_once_char (CHR '':'') s;
         port \<leftarrow> parse_u16_hex port;
         if length address = 8 then
           do { a \<leftarrow> parse_u32_hex address;
                Some \<lparr>sa_ip = V4 (ipv4_from_octets (to_le_bytes 4 a)), sa_port = port\<rparr> }
         else if length address = 32 then
           do { octets \<leftarrow> ipv6_words address;
                Some \<lparr>sa_ip = V6 (ipv6_from_octets octets), sa_port = port\<rparr> }
         else None }"

definition parse_line :: "string \<Rightarrow> protocol \<Rightarrow> network_socket option" where
  "parse_line line protocol =
    (let fields = split_whitespace line
     in if length fields < 10 then None
        else
          do { state \<leftarrow> parse_u8_hex (fields ! 3);
               local \<leftarrow> parse_endpoint (fields ! 1);
               remote \<leftarrow> parse_endpoint (fields ! 2);
               uid \<leftarrow> parse_u32 (fields ! 7);
               inode \<leftarrow> parse_u64 (fields ! 9);
               Some \<lparr>s_protocol = protocol, s_local = local, s_remote = remote,
                 s_state = socket_state protocol state, s_uid = uid, s_inode = inode\<rparr> })"

definition parse_table :: "string \<Rightarrow> protocol \<Rightarrow> network_socket list" where
  "parse_table contents protocol =
    filter_map (\<lambda>line. parse_line line protocol) (drop 1 (lines contents))"

definition socket_key :: "network_socket \<Rightarrow> protocol \<times> u16 \<times> ip_addr \<times> u16" where
  "socket_key s =
    (s_protocol s, sa_port (s_local s), sa_ip (s_local s), sa_port (s_remote s))"

definition sort_sockets :: "network_socket list \<Rightarrow> network_socket list" where
  "sort_sockets = sort_key socket_key"

section \<open>Snapshots\<close>

definition read_sockets :: "(string \<Rightarrow> string result) \<Rightarrow> string \<Rightarrow> string \<Rightarrow> network_socket list result" where
  "read_sockets read tcp_path udp_path =
    (case read tcp_path of
       Err e \<Rightarrow> Err e
     | Ok tcp \<Rightarrow>
         (case read udp_path of
            Err e \<Rightarrow> Err e
          | Ok udp \<Rightarrow> Ok (sort_sockets (parse_table tcp Tcp @ parse_table udp Udp))))"

definition ipv4_sockets :: "(string \<Rightarrow> string result) \<Rightarrow> network_socket list result" where
  "ipv4_sockets read = read_sockets read ''/proc/net/tcp'' ''/proc/net/udp''"

definition ipv6_sockets :: "(string \<Rightarrow> string result) \<Rightarrow> network_socket list result" where
  "ipv6_sockets read = read_sockets read ''/proc/net/tcp6'' ''/proc/net/udp6''"

fun extend_sockets :: "network_socket list result \<Rightarrow> network_socket list result \<Rightarrow> network_socket list result" where
  "extend_sockets (Err e) _ = Err e"
| "extend_sockets (Ok sockets) (Ok ipv6) = Ok (sort_sockets (sockets @ ipv6))"
| "extend_sockets (Ok sockets) (Err e) =
    (if kind_of e = NotFound then Ok (sort_sockets sockets) else Err e)"

definition ip_sockets :: "(string \<Rightarrow> string result) \<Rightarrow> network_socket list result" where
  "ip_sockets read = extend_sockets (ipv4_sockets read) (ipv6_sockets read)"

interpretation socket_snapshot: dual_stack extend_sockets socket_key "\<lambda>e. kind_of e = NotFound"
  by unfold_locales (simp_all add: sort_sockets_def)

section \<open>Processes\<close>

text \<open>A directory below \<open>/proc\<close>: its name if it is text, the contents of \<open>comm\<close> if readable,
  and for a readable \<open>fd\<close> directory the targets of its links that could be read.\<close>

record proc_entry =
  pe_file_name :: "string option"
  pe_comm :: "string option"
  pe_descriptors :: "string list option"

definition parse_socket_inode :: "string \<Rightarrow> u64 option" where
  "parse_socket_inode target =
    do { rest \<leftarrow> strip_prefix ''socket:['' target; digits \<leftarrow> strip_suffix '']'' rest; parse_u64 digits }"

type_synonym attribution = "u64 \<Rightarrow> socket_process list option"

definition add_descriptor :: "u64 set \<Rightarrow> socket_process \<Rightarrow> string \<Rightarrow> attribution \<Rightarrow> attribution" where
  "add_descriptor inodes process target found =
    (case parse_socket_inode target of
       None \<Rightarrow> found
     | Some inode \<Rightarrow>
         if inode \<notin> inodes then found
         else
           (let processes = unwrap_or [] (found inode)
            in found(inode \<mapsto>
                 (if list_ex (\<lambda>p. sp_pid p = sp_pid process) processes then processes
                  else processes @ [process]))))"

definition add_process :: "u64 set \<Rightarrow> proc_entry \<Rightarrow> attribution \<Rightarrow> attribution" where
  "add_process inodes entry found =
    (case Option.bind (pe_file_name entry) parse_u32 of
       None \<Rightarrow> found
     | Some pid \<Rightarrow>
         (case pe_descriptors entry of
            None \<Rightarrow> found
          | Some targets \<Rightarrow>
              let name = (case pe_comm entry of Some comm \<Rightarrow> trim comm | None \<Rightarrow> ''unknown'')
              in fold (add_descriptor inodes \<lparr>sp_pid = pid, sp_name = name\<rparr>) targets found))"

definition socket_processes :: "proc_entry list option \<Rightarrow> u64 set \<Rightarrow> attribution" where
  "socket_processes proc_dir inodes =
    (case proc_dir of
       None \<Rightarrow> Map.empty
     | Some entries \<Rightarrow>
         map_option (sort_key sp_pid) \<circ> fold (add_process inodes) entries Map.empty)"

section \<open>Rows of the kernel\<close>

text \<open>\<open>%08X:%04X\<close> on the words of the address in network byte order.\<close>

fun address_text :: "ip_addr \<Rightarrow> string" where
  "address_text (V4 a) = hex_field 8 (unat (of_le_bytes (ipv4_octets a) :: u32))"
| "address_text (V6 a) =
    concat (map (\<lambda>i. hex_field 8 (unat (of_le_bytes (take 4 (drop (4 * i) (ipv6_octets a))) :: u32)))
      [0, 1, 2, 3])"

definition endpoint_text :: "socket_addr \<Rightarrow> string" where
  "endpoint_text a = address_text (sa_ip a) @ '':'' @ hex_field 4 (unat (sa_port a))"

lemma ipv6_words_text:
  "ipv6_words (address_text (V6 a)) = Some (ipv6_octets a)"
proof -
  have chunk: "to_le_bytes 4 (of_le_bytes (take 4 (drop n (ipv6_octets a))) :: u32) =
      take 4 (drop n (ipv6_octets a))" if "n \<le> 12" for n
    using to_of_le_bytes [of "take 4 (drop n (ipv6_octets a))", where 'a = 32] that by simp
  have chop: "take 4 (drop n xs) @ drop (n + 4) xs = drop n xs" for n and xs :: bytes
    by (metis add.commute append_take_drop_id drop_drop)
  have "take 4 (ipv6_octets a) @ take 4 (drop 4 (ipv6_octets a)) @ take 4 (drop 8 (ipv6_octets a))
      @ drop 12 (ipv6_octets a) = ipv6_octets a"
    using chop [of 0 "ipv6_octets a"] chop [of 4 "ipv6_octets a"] chop [of 8 "ipv6_octets a"]
    by simp
  with chunk [of 0] chunk [of 4] chunk [of 8] chunk [of 12] show ?thesis
    by (simp add: ipv6_words_def)
qed

lemma address_text_plain: "c \<in> set (address_text a) \<Longrightarrow> c \<noteq> CHR '':'' \<and> 48 \<le> (of_char c :: nat) \<and> (of_char c :: nat) < 128"
  by (cases a) (auto dest: hex_field_plain)

lemma parse_endpoint_text: "parse_endpoint (endpoint_text a) = Some a"
proof -
  have halves: "split_once_char (CHR '':'') (endpoint_text a) =
      Some (address_text (sa_ip a), hex_field 4 (unat (sa_port a)))"
  proof -
    have "CHR '':'' \<notin> set (address_text (sa_ip a))"
      using address_text_plain by blast
    then show ?thesis
      by (simp add: endpoint_text_def split_once_char_append)
  qed
  show ?thesis
  proof (cases "sa_ip a")
    case (V4 v)
    have "to_le_bytes 4 (of_le_bytes (ipv4_octets v) :: u32) = ipv4_octets v"
      using to_of_le_bytes [of "ipv4_octets v", where 'a = 32] by simp
    with V4 show ?thesis
      by (simp add: parse_endpoint_def halves)
  next
    case (V6 v)
    then have "length (address_text (sa_ip a)) = 32"
      by simp
    with V6 ipv6_words_text [of v] show ?thesis
      by (simp add: parse_endpoint_def halves del: address_text.simps)
  qed
qed

text \<open>A row of \<open>/proc/net/tcp\<close> and the like, with any column widths. The columns the parser does
  not read are arbitrary.\<close>

record proc_row =
  pr_slot :: nat
  pr_local :: socket_addr
  pr_remote :: socket_addr
  pr_state :: u8
  pr_uid :: u32
  pr_inode :: u64
  pr_gaps :: "nat list"
  pr_trailing :: nat

definition proc_columns :: "proc_row \<Rightarrow> string list" where
  "proc_columns r =
    [decimal (pr_slot r) @ '':'', endpoint_text (pr_local r), endpoint_text (pr_remote r),
     hex_field 2 (unat (pr_state r)), ''00000000:00000000'', ''00:00000000'', ''00000000'',
     decimal (unat (pr_uid r)), ''0'', decimal (unat (pr_inode r))]"

definition proc_row_text :: "proc_row \<Rightarrow> string" where
  "proc_row_text r = row_text (zip (pr_gaps r) (proc_columns r)) (pr_trailing r)"

definition proc_row_ok :: "proc_row \<Rightarrow> bool" where
  "proc_row_ok r \<longleftrightarrow> length (pr_gaps r) = 10"

definition row_socket :: "protocol \<Rightarrow> proc_row \<Rightarrow> network_socket" where
  "row_socket protocol r =
    \<lparr>s_protocol = protocol, s_local = pr_local r, s_remote = pr_remote r,
     s_state = socket_state protocol (pr_state r), s_uid = pr_uid r, s_inode = pr_inode r\<rparr>"

lemma decimal_plain: "c \<in> set (decimal n) \<Longrightarrow> 48 \<le> (of_char c :: nat) \<and> (of_char c :: nat) < 58"
proof -
  assume "c \<in> set (decimal n)"
  then obtain d where "d < 10" "c = hex_digit d"
    using set_to_radix [of 10 c n] by (auto simp: decimal_def)
  with hex_digit_code [of d] show ?thesis
    by (simp del: hex_digit.simps)
qed

lemma plain_columns:
  "plain_field (decimal n)" "plain_field (decimal n @ '':'')" "plain_field (endpoint_text a)"
  "0 < k \<Longrightarrow> plain_field (hex_field k v)"
  by (auto simp: plain_field_def list_all_iff endpoint_text_def decimal_def [symmetric]
      dest: decimal_plain address_text_plain hex_field_plain)
    (simp_all add: decimal_def)

lemma parse_proc_row:
  assumes "proc_row_ok r"
  shows "parse_line (proc_row_text r) protocol = Some (row_socket protocol r)"
    and "plain_line (proc_row_text r)"
proof -
  have columns: "list_all plain_field (proc_columns r)"
    by (simp add: proc_columns_def plain_columns) (simp add: plain_field_def)
  have "length (proc_columns r) = 10"
    by (simp add: proc_columns_def)
  with assms have zip: "map snd (zip (pr_gaps r) (proc_columns r)) = proc_columns r"
    by (simp add: proc_row_ok_def)
  have plain: "list_all (\<lambda>(_, f). plain_field f) (zip (pr_gaps r) (proc_columns r))"
    using columns by (auto simp: list_all_iff dest: set_zip_rightD)
  from split_whitespace_row [OF plain, of "pr_trailing r"] zip
  have "split_whitespace (proc_row_text r) = proc_columns r"
    by (simp add: proc_row_text_def)
  then show "parse_line (proc_row_text r) protocol = Some (row_socket protocol r)"
    by (simp add: parse_line_def proc_columns_def parse_endpoint_text row_socket_def)
  show "plain_line (proc_row_text r)"
    unfolding proc_row_text_def by (rule plain_line_row [OF plain])
qed


definition example_row :: proc_row where
  "example_row =
    \<lparr>pr_slot = 0, pr_local = \<lparr>sa_ip = V4 0x7F000001, sa_port = 1314\<rparr>,
     pr_remote = \<lparr>sa_ip = V4 0, sa_port = 0\<rparr>, pr_state = 0x0A, pr_uid = 0, pr_inode = 26014,
     pr_gaps = replicate 10 0, pr_trailing = 20\<rparr>"


text \<open>A joined snapshot of both families is ordered by protocol, local endpoint and remote
  port and contains exactly the sockets of both tables; only a missing IPv6 table is ignored,
  every other read error is reported.\<close>

theorem ip_sockets_complete:
  "(ip_sockets read = Ok ss \<longleftrightarrow>
    (\<exists>v4. ipv4_sockets read = Ok v4 \<and>
      ((\<exists>v6. ipv6_sockets read = Ok v6 \<and> ss = sort_sockets (v4 @ v6)) \<or>
       (\<exists>e. ipv6_sockets read = Err e \<and> kind_of e = NotFound \<and> ss = sort_sockets v4))))
   \<and> sorted (map socket_key (sort_sockets xs))"
  unfolding ip_sockets_def socket_snapshot.merge_result sort_sockets_def by auto

section \<open>Attribution\<close>

text \<open>The processes of the directory that hold a descriptor of an inode.\<close>

definition holds :: "proc_entry list \<Rightarrow> u64 \<Rightarrow> u32 \<Rightarrow> bool" where
  "holds entries inode pid \<longleftrightarrow>
    list_ex (\<lambda>entry. Option.bind (pe_file_name entry) parse_u32 = Some pid
      \<and> (case pe_descriptors entry of
           None \<Rightarrow> False
         | Some targets \<Rightarrow> list_ex (\<lambda>t. parse_socket_inode t = Some inode) targets)) entries"

definition attributed :: "attribution \<Rightarrow> u64 \<Rightarrow> u32 set" where
  "attributed found inode = sp_pid ` set (unwrap_or [] (found inode))"

definition attribution_ok :: "attribution \<Rightarrow> bool" where
  "attribution_ok found \<longleftrightarrow>
    (\<forall>inode ps. found inode = Some ps \<longrightarrow> ps \<noteq> [] \<and> distinct (map sp_pid ps))"

lemma add_descriptor_attributed:
  "attributed (add_descriptor inodes process target found) inode =
    attributed found inode \<union>
    (if parse_socket_inode target = Some inode \<and> inode \<in> inodes then {sp_pid process} else {})"
  by (auto simp: add_descriptor_def attributed_def Let_def list_ex_iff image_iff split: option.splits)
    metis

lemma add_descriptor_ok:
  "attribution_ok found \<Longrightarrow> attribution_ok (add_descriptor inodes process target found)"
  by (cases "parse_socket_inode target"; cases "found (the (parse_socket_inode target))")
    (auto simp: add_descriptor_def attribution_ok_def Let_def list_ex_iff)

lemma fold_descriptors_attributed:
  "attributed (fold (add_descriptor inodes process) targets found) inode =
    attributed found inode \<union>
    (if inode \<in> inodes \<and> list_ex (\<lambda>t. parse_socket_inode t = Some inode) targets
     then {sp_pid process} else {})"
  by (induction targets arbitrary: found) (auto simp: add_descriptor_attributed)

lemma fold_descriptors_ok:
  "attribution_ok found \<Longrightarrow> attribution_ok (fold (add_descriptor inodes process) targets found)"
  by (induction targets arbitrary: found) (simp_all add: add_descriptor_ok)

lemma fold_processes_attributed:
  "attributed (fold (add_process inodes) entries found) inode =
    attributed found inode \<union> (if inode \<in> inodes then {pid. holds entries inode pid} else {})"
proof (induction entries arbitrary: found)
  case (Cons entry entries)
  show ?case
    unfolding fold_Cons comp_def Cons
    by (auto simp: add_process_def holds_def Let_def fold_descriptors_attributed split: option.splits)
qed (auto simp: holds_def)

lemma fold_processes_ok:
  "attribution_ok found \<Longrightarrow> attribution_ok (fold (add_process inodes) entries found)"
  by (induction entries arbitrary: found)
    (auto simp: add_process_def Let_def fold_descriptors_ok split: option.splits)

text \<open>C26: Process attribution is exact: an inode is mapped to exactly the processes whose
  readable descriptors refer to it, each listed once and in ascending order; inodes that were
  not asked for, or that nobody holds, have no entry.\<close>

theorem socket_processes_exact:
  "attributed (socket_processes (Some entries) inodes) inode =
      (if inode \<in> inodes then {pid. holds entries inode pid} else {})
    \<and> (case socket_processes (Some entries) inodes inode of
         None \<Rightarrow> True
       | Some ps \<Rightarrow> ps \<noteq> [] \<and> distinct (map sp_pid ps) \<and> sorted (map sp_pid ps))"
proof -
  let ?found = "fold (add_process inodes) entries Map.empty"
  have result: "socket_processes (Some entries) inodes inode = map_option (sort_key sp_pid) (?found inode)"
    by (simp add: socket_processes_def)
  then have "attributed (socket_processes (Some entries) inodes) inode = attributed ?found inode"
    by (cases "?found inode") (simp_all add: attributed_def)
  moreover have "attribution_ok ?found"
    by (rule fold_processes_ok) (simp add: attribution_ok_def)
  moreover have "distinct (map sp_pid (sort_key sp_pid ps)) = distinct (map sp_pid ps)" for ps
    by (metis mset_map mset_sort mset_eq_imp_distinct_iff)
  moreover have "sort_key sp_pid ps = [] \<longleftrightarrow> ps = []" for ps
    by (metis length_sort length_0_conv)
  ultimately show ?thesis
    using fold_processes_attributed [of inodes entries Map.empty inode]
    by (cases "?found inode") (auto simp: result attributed_def attribution_ok_def)
qed

end
