(* ===== verification/Sock_Diag.thy ===== *)
theory Sock_Diag
  imports Netlink_Dump_Spec Sockets
begin

text \<open>
  \<open>sock_diag.rs\<close>: the diagnostic request, the dump of one family and protocol, the decoding of
  \<open>inet_diag_msg\<close> with its \<open>tcp_info\<close> and congestion attributes, and the joined snapshots.
  The states and the kernel parameter are those of \<open>Sockets\<close> and \<open>Netlink_Dump\<close>.
\<close>

section \<open>Constants and records\<close>

definition NETLINK_SOCK_DIAG :: i32 where [simp]: "NETLINK_SOCK_DIAG = 4"
definition SOCK_DIAG_BY_FAMILY :: u16 where [simp]: "SOCK_DIAG_BY_FAMILY = 20"
definition INET_DIAG_INFO :: u16 where [simp]: "INET_DIAG_INFO = 2"
definition INET_DIAG_CONG :: u16 where [simp]: "INET_DIAG_CONG = 4"

record tcp_diagnostic =
  td_rto_us :: u32
  td_send_mss :: u32
  td_receive_mss :: u32
  td_unacked :: u32
  td_lost :: u32
  td_retransmitted :: u32
  td_rtt_us :: u32
  td_rtt_variance_us :: u32
  td_send_ssthresh :: u32
  td_send_cwnd :: u32
  td_path_mtu :: u32
  td_total_retransmits :: u32

record socket_diagnostic =
  sd_protocol :: protocol
  sd_local :: socket_addr
  sd_remote :: socket_addr
  sd_state :: string
  sd_uid :: u32
  sd_inode :: u64
  sd_interface_index :: u32
  sd_timer :: string
  sd_expires_ms :: u32
  sd_retransmits :: u8
  sd_receive_queue :: u32
  sd_send_queue :: u32
  sd_congestion :: "string option"
  sd_tcp :: "tcp_diagnostic option"

record socket_id =
  id_source_port :: u16
  id_destination_port :: u16
  id_source :: "u32 list"
  id_destination :: "u32 list"
  id_interface_index :: u32
  id_cookie :: "u32 list"

definition words_of :: "nat \<Rightarrow> nat \<Rightarrow> bytes \<Rightarrow> u32 list" where
  "words_of n offset bs = map (\<lambda>i. field 4 (offset + 4 * i) bs) [0..<n]"

definition words_bytes :: "u32 list \<Rightarrow> bytes" where
  "words_bytes ws = concat (map (to_le_bytes 4) ws)"

definition socket_id_of :: "bytes \<Rightarrow> socket_id" where
  "socket_id_of bs =
    \<lparr>id_source_port = field 2 0 bs, id_destination_port = field 2 2 bs,
     id_source = words_of 4 4 bs, id_destination = words_of 4 20 bs,
     id_interface_index = field 4 36 bs, id_cookie = words_of 2 40 bs\<rparr>"

definition socket_id_bytes :: "socket_id \<Rightarrow> bytes" where
  "socket_id_bytes i =
    to_le_bytes 2 (id_source_port i) @ to_le_bytes 2 (id_destination_port i)
    @ words_bytes (id_source i) @ words_bytes (id_destination i)
    @ to_le_bytes 4 (id_interface_index i) @ words_bytes (id_cookie i)"

record diagnostic_request =
  dr_family :: u8
  dr_protocol :: u8
  dr_extensions :: u8
  dr_padding :: u8
  dr_states :: u32
  dr_id :: socket_id

definition diagnostic_request_bytes :: "diagnostic_request \<Rightarrow> bytes" where
  "diagnostic_request_bytes r =
    to_le_bytes 1 (dr_family r) @ to_le_bytes 1 (dr_protocol r) @ to_le_bytes 1 (dr_extensions r)
    @ to_le_bytes 1 (dr_padding r) @ to_le_bytes 4 (dr_states r) @ socket_id_bytes (dr_id r)"

record diagnostic_message =
  dm_family :: u8
  dm_state :: u8
  dm_timer :: u8
  dm_retransmits :: u8
  dm_id :: socket_id
  dm_expires_ms :: u32
  dm_receive_queue :: u32
  dm_send_queue :: u32
  dm_uid :: u32
  dm_inode :: u32

definition diagnostic_message_of :: "bytes \<Rightarrow> diagnostic_message" where
  "diagnostic_message_of bs =
    \<lparr>dm_family = field 1 0 bs, dm_state = field 1 1 bs, dm_timer = field 1 2 bs,
     dm_retransmits = field 1 3 bs, dm_id = socket_id_of (drop 4 bs), dm_expires_ms = field 4 52 bs,
     dm_receive_queue = field 4 56 bs, dm_send_queue = field 4 60 bs, dm_uid = field 4 64 bs,
     dm_inode = field 4 68 bs\<rparr>"

definition diagnostic_message_bytes :: "diagnostic_message \<Rightarrow> bytes" where
  "diagnostic_message_bytes m =
    to_le_bytes 1 (dm_family m) @ to_le_bytes 1 (dm_state m) @ to_le_bytes 1 (dm_timer m)
    @ to_le_bytes 1 (dm_retransmits m) @ socket_id_bytes (dm_id m) @ to_le_bytes 4 (dm_expires_ms m)
    @ to_le_bytes 4 (dm_receive_queue m) @ to_le_bytes 4 (dm_send_queue m)
    @ to_le_bytes 4 (dm_uid m) @ to_le_bytes 4 (dm_inode m)"

section \<open>Decoding\<close>

definition native_u32_at :: "bytes \<Rightarrow> nat \<Rightarrow> u32 option" where
  "native_u32_at v offset = map_option of_le_bytes (get_range offset (offset + 4) v)"

definition parse_tcp_info :: "bytes \<Rightarrow> tcp_diagnostic option" where
  "parse_tcp_info v =
    do { rto_us \<leftarrow> native_u32_at v 8;
         send_mss \<leftarrow> native_u32_at v 16;
         receive_mss \<leftarrow> native_u32_at v 20;
         unacked \<leftarrow> native_u32_at v 24;
         lost \<leftarrow> native_u32_at v 32;
         retransmitted \<leftarrow> native_u32_at v 36;
         path_mtu \<leftarrow> native_u32_at v 60;
         rtt_us \<leftarrow> native_u32_at v 68;
         rtt_variance_us \<leftarrow> native_u32_at v 72;
         send_ssthresh \<leftarrow> native_u32_at v 76;
         send_cwnd \<leftarrow> native_u32_at v 80;
         total_retransmits \<leftarrow> native_u32_at v 100;
         Some \<lparr>td_rto_us = rto_us, td_send_mss = send_mss, td_receive_mss = receive_mss,
           td_unacked = unacked, td_lost = lost, td_retransmitted = retransmitted,
           td_rtt_us = rtt_us, td_rtt_variance_us = rtt_variance_us,
           td_send_ssthresh = send_ssthresh, td_send_cwnd = send_cwnd, td_path_mtu = path_mtu,
           td_total_retransmits = total_retransmits\<rparr> }"

text \<open>\<open>u16::from_be\<close> of a value read in host order.\<close>

definition from_be :: "u16 \<Rightarrow> u16" where
  "from_be w = of_be_bytes (to_le_bytes 2 w)"

definition endpoint :: "u8 \<Rightarrow> u32 list \<Rightarrow> u16 \<Rightarrow> socket_addr option" where
  "endpoint family address port =
    (if family = AF_INET then
       Some \<lparr>sa_ip = V4 (ipv4_from_octets (to_le_bytes 4 (address ! 0))), sa_port = from_be port\<rparr>
     else if family = AF_INET6 then
       Some \<lparr>sa_ip = V6 (ipv6_from_octets (words_bytes address)), sa_port = from_be port\<rparr>
     else None)"

definition timer_name :: "u8 \<Rightarrow> string" where
  "timer_name timer =
    unwrap_or ''unknown'' (map_of
      [(0, ''off''), (1, ''retransmit''), (2, ''keepalive''), (3, ''time-wait''),
       (4, ''zero-window-probe''), (5, ''delayed-ack'')] timer)"

definition parse_diagnostic :: "bytes \<Rightarrow> protocol \<Rightarrow> socket_diagnostic option" where
  "parse_diagnostic message protocol =
    do { payload \<leftarrow> get_from header_size message;
         d \<leftarrow> read_unaligned 72 diagnostic_message_of payload;
         if \<not> is_ip_family (dm_family d) then None
         else do {
           attrs \<leftarrow> attributes message 72;
           let tcp = option_filter (\<lambda>_. protocol = Tcp)
             (find_attribute attrs INET_DIAG_INFO parse_tcp_info);
           let congestion = find_attribute attrs INET_DIAG_CONG nul_terminated_string;
           local \<leftarrow> endpoint (dm_family d) (id_source (dm_id d)) (id_source_port (dm_id d));
           remote \<leftarrow> endpoint (dm_family d) (id_destination (dm_id d)) (id_destination_port (dm_id d));
           Some \<lparr>sd_protocol = protocol, sd_local = local, sd_remote = remote,
             sd_state = socket_state protocol (dm_state d), sd_uid = dm_uid d,
             sd_inode = ucast (dm_inode d), sd_interface_index = id_interface_index (dm_id d),
             sd_timer = timer_name (dm_timer d), sd_expires_ms = dm_expires_ms d,
             sd_retransmits = dm_retransmits d, sd_receive_queue = dm_receive_queue d,
             sd_send_queue = dm_send_queue d, sd_congestion = congestion, sd_tcp = tcp\<rparr> } }"

section \<open>Dumps\<close>

definition diag_parse_error :: "bytes \<Rightarrow> unit result" where
  "diag_parse_error message =
    (case read_i32 message header_size of
       None \<Rightarrow> Err (Custom InvalidData ''truncated netlink error'')
     | Some error \<Rightarrow> if error = 0 then Ok () else Err (Os (- error)))"

definition diag_step ::
  "protocol \<Rightarrow> u32 \<Rightarrow> message_header \<Rightarrow> bytes \<Rightarrow> socket_diagnostic list
    \<Rightarrow> (socket_diagnostic list, socket_diagnostic list) flow" where
  "diag_step protocol sequence header message diagnostics =
    (if mh_sequence header = sequence then
       if mh_message_type header = NLMSG_DONE then Return (Ok diagnostics)
       else if mh_message_type header = NLMSG_ERROR then
         (case diag_parse_error message of Err e \<Rightarrow> Return (Err e) | Ok _ \<Rightarrow> Continue diagnostics)
       else if mh_message_type header = NLMSG_OVERRUN then
         Return (Err (Custom Other ''socket diagnostic dump overran''))
       else if mh_message_type header = SOCK_DIAG_BY_FAMILY then
         Continue (case parse_diagnostic message protocol of
           Some d \<Rightarrow> diagnostics @ [d] | None \<Rightarrow> diagnostics)
       else Continue diagnostics
     else Continue diagnostics)"

definition diag_receive_dump ::
  "recv_outcome list \<Rightarrow> protocol \<Rightarrow> u32 \<Rightarrow> socket_diagnostic list result option" where
  "diag_receive_dump script protocol sequence =
    map_option fst
      (receive_loop (64 * 1024) ''socket diagnostic netlink socket closed''
        (\<lambda>datagram diagnostics.
          message_loop ''truncated socket diagnostic header'' ''invalid socket diagnostic message length''
            (diag_step protocol sequence) datagram 0 diagnostics)
        script [])"

definition diag_open_socket :: "kernel \<Rightarrow> unit result" where
  "diag_open_socket k =
    (case k_socket k of
       Some code \<Rightarrow> Err (Os code)
     | None \<Rightarrow>
         (case k_bind k (socket_address_bytes
            \<lparr>sn_family = ucast AF_NETLINK, sn_padding = 0, sn_port_id = 0, sn_groups = 0\<rparr>) of
            Some code \<Rightarrow> Err (Os code)
          | None \<Rightarrow> Ok ()))"

definition diag_send_request :: "kernel \<Rightarrow> bytes \<Rightarrow> unit result" where
  "diag_send_request k request =
    (case k_sendto k request of
       Inl code \<Rightarrow> Err (Os code)
     | Inr sent \<Rightarrow>
         if sent \<noteq> length request then
           Err (Custom WriteZero ''incomplete socket diagnostic request'')
         else Ok ())"

definition diag_request :: "u8 \<Rightarrow> protocol \<Rightarrow> u8 \<Rightarrow> u32 \<Rightarrow> bytes" where
  "diag_request family protocol protocol_number sequence =
    message_header_bytes
      (request_header 72 SOCK_DIAG_BY_FAMILY (NLM_F_REQUEST OR NLM_F_DUMP) sequence)
    @ diagnostic_request_bytes
      \<lparr>dr_family = family, dr_protocol = protocol_number,
       dr_extensions = (if protocol = Tcp then push_bit 1 1 OR push_bit 3 1 else 0),
       dr_padding = 0, dr_states = 0xFFFFFFFF,
       dr_id = \<lparr>id_source_port = 0, id_destination_port = 0, id_source = [0, 0, 0, 0],
         id_destination = [0, 0, 0, 0], id_interface_index = 0,
         id_cookie = [0xFFFFFFFF, 0xFFFFFFFF]\<rparr>\<rparr>"

definition diagnostic_dump ::
  "kernel \<Rightarrow> u8 \<Rightarrow> protocol \<Rightarrow> u8 \<Rightarrow> u32 \<Rightarrow> socket_diagnostic list result option" where
  "diagnostic_dump k family protocol protocol_number sequence =
    question (diag_open_socket k) (\<lambda>_.
    question (diag_send_request k (diag_request family protocol protocol_number sequence)) (\<lambda>_.
    diag_receive_dump (k_replies k (diag_request family protocol protocol_number sequence))
      protocol sequence))"

definition diagnostic_key :: "socket_diagnostic \<Rightarrow> protocol \<times> u16 \<times> ip_addr \<times> u16" where
  "diagnostic_key d =
    (sd_protocol d, sa_port (sd_local d), sa_ip (sd_local d), sa_port (sd_remote d))"

definition sort_diagnostics :: "socket_diagnostic list \<Rightarrow> socket_diagnostic list" where
  "sort_diagnostics = sort_key diagnostic_key"

text \<open>The two dumps of a family, TCP before UDP; every dump has its own socket.\<close>

definition diagnostics_of ::
  "kernel \<Rightarrow> kernel \<Rightarrow> u8 \<Rightarrow> u32 \<Rightarrow> u32 \<Rightarrow> socket_diagnostic list result option" where
  "diagnostics_of tcp_kernel udp_kernel family tcp_sequence udp_sequence =
    (case diagnostic_dump tcp_kernel family Tcp 6 tcp_sequence of
       None \<Rightarrow> None
     | Some (Err e) \<Rightarrow> Some (Err e)
     | Some (Ok tcp) \<Rightarrow>
         (case diagnostic_dump udp_kernel family Udp 17 udp_sequence of
            None \<Rightarrow> None
          | Some (Err e) \<Rightarrow> Some (Err e)
          | Some (Ok udp) \<Rightarrow> Some (Ok (sort_diagnostics (tcp @ udp)))))"

definition ipv4_diagnostics :: "kernel \<Rightarrow> kernel \<Rightarrow> socket_diagnostic list result option" where
  "ipv4_diagnostics k1 k2 = diagnostics_of k1 k2 AF_INET 1 2"

definition ipv6_diagnostics :: "kernel \<Rightarrow> kernel \<Rightarrow> socket_diagnostic list result option" where
  "ipv6_diagnostics k3 k4 = diagnostics_of k3 k4 AF_INET6 3 4"

definition ip_diagnostics ::
  "kernel \<Rightarrow> kernel \<Rightarrow> kernel \<Rightarrow> kernel \<Rightarrow> socket_diagnostic list result option" where
  "ip_diagnostics k1 k2 k3 k4 =
    both_families diagnostic_key (ipv4_diagnostics k1 k2) (ipv6_diagnostics k3 k4)"

section \<open>What the kernel sends\<close>

text \<open>A socket as the kernel knows it; \<open>struct tcp_info\<close> grows at its end from release to
  release, so anything may follow the fields that are read.\<close>

record kernel_socket =
  ks_local :: socket_addr
  ks_remote :: socket_addr
  ks_state :: u8
  ks_timer :: u8
  ks_retransmits :: u8
  ks_interface_index :: u32
  ks_cookie :: "u32 \<times> u32"
  ks_expires_ms :: u32
  ks_receive_queue :: u32
  ks_send_queue :: u32
  ks_uid :: u32
  ks_inode :: u32
  ks_tcp :: "(tcp_diagnostic \<times> bytes) option"
  ks_congestion :: "string option"

fun address_words :: "ip_addr \<Rightarrow> u32 list" where
  "address_words (V4 a) = [of_le_bytes (ipv4_octets a), 0, 0, 0]"
| "address_words (V6 a) =
    map (\<lambda>i. of_le_bytes (take 4 (drop (4 * i) (ipv6_octets a)))) [0, 1, 2, 3]"

definition port_be :: "u16 \<Rightarrow> u16" where
  "port_be p = of_le_bytes (to_be_bytes 2 p)"

definition tcp_info_bytes :: "tcp_diagnostic \<times> bytes \<Rightarrow> bytes" where
  "tcp_info_bytes x = (case x of (t, later) \<Rightarrow>
    replicate 8 0 @ u32_bytes (td_rto_us t) @ replicate 4 0 @ u32_bytes (td_send_mss t)
    @ u32_bytes (td_receive_mss t) @ u32_bytes (td_unacked t) @ replicate 4 0 @ u32_bytes (td_lost t)
    @ u32_bytes (td_retransmitted t) @ replicate 20 0 @ u32_bytes (td_path_mtu t) @ replicate 4 0
    @ u32_bytes (td_rtt_us t) @ u32_bytes (td_rtt_variance_us t) @ u32_bytes (td_send_ssthresh t)
    @ u32_bytes (td_send_cwnd t) @ replicate 16 0 @ u32_bytes (td_total_retransmits t) @ later)"

definition kernel_diagnostic :: "kernel_socket \<Rightarrow> diagnostic_message" where
  "kernel_diagnostic k =
    \<lparr>dm_family = family_of (sa_ip (ks_local k)), dm_state = ks_state k, dm_timer = ks_timer k,
     dm_retransmits = ks_retransmits k,
     dm_id = \<lparr>id_source_port = port_be (sa_port (ks_local k)),
       id_destination_port = port_be (sa_port (ks_remote k)),
       id_source = address_words (sa_ip (ks_local k)),
       id_destination = address_words (sa_ip (ks_remote k)),
       id_interface_index = ks_interface_index k,
       id_cookie = [fst (ks_cookie k), snd (ks_cookie k)]\<rparr>,
     dm_expires_ms = ks_expires_ms k, dm_receive_queue = ks_receive_queue k,
     dm_send_queue = ks_send_queue k, dm_uid = ks_uid k, dm_inode = ks_inode k\<rparr>"

definition diagnostic_attributes :: "kernel_socket \<Rightarrow> attributes" where
  "diagnostic_attributes k =
    attribute_opt INET_DIAG_INFO tcp_info_bytes (ks_tcp k) @
    attribute_opt INET_DIAG_CONG text_value (ks_congestion k)"

definition diagnostic_for :: "u32 \<Rightarrow> kernel_socket \<Rightarrow> bytes" where
  "diagnostic_for sequence k =
    netlink_message SOCK_DIAG_BY_FAMILY sequence (diagnostic_message_bytes (kernel_diagnostic k))
      (diagnostic_attributes k)"

definition kernel_socket_ok :: "kernel_socket \<Rightarrow> bool" where
  "kernel_socket_ok k \<longleftrightarrow>
    family_of (sa_ip (ks_local k)) = family_of (sa_ip (ks_remote k))
    \<and> text_ok (ks_congestion k)
    \<and> (case ks_tcp k of None \<Rightarrow> True | Some (_, later) \<Rightarrow> length later < 2 ^ 15)"

definition diagnostic_view :: "protocol \<Rightarrow> kernel_socket \<Rightarrow> socket_diagnostic" where
  "diagnostic_view protocol k =
    \<lparr>sd_protocol = protocol, sd_local = ks_local k, sd_remote = ks_remote k,
     sd_state = socket_state protocol (ks_state k), sd_uid = ks_uid k,
     sd_inode = ucast (ks_inode k), sd_interface_index = ks_interface_index k,
     sd_timer = timer_name (ks_timer k), sd_expires_ms = ks_expires_ms k,
     sd_retransmits = ks_retransmits k, sd_receive_queue = ks_receive_queue k,
     sd_send_queue = ks_send_queue k, sd_congestion = ks_congestion k,
     sd_tcp = (if protocol = Tcp then map_option fst (ks_tcp k) else None)\<rparr>"

lemma four_words: "length ws = 4 \<Longrightarrow> \<exists>a b c d. ws = [a, b, c, d]"
  by (simp add: length_4_conv)

lemma length_address_words [simp]: "length (address_words a) = 4"
  by (cases a) simp_all

lemma length_words_bytes [simp]: "length (words_bytes ws) = 4 * length ws"
  by (induction ws) (simp_all add: words_bytes_def)

lemma words_of_bytes:
  "words_of (length ws) 0 (words_bytes ws @ rest) = ws"
proof (rule nth_equalityI)
  fix i
  assume "i < length (words_of (length ws) 0 (words_bytes ws @ rest))"
  then have "i < length ws"
    by (simp add: words_of_def)
  then have "field 4 (4 * i) (words_bytes ws @ rest) = ws ! i"
  proof (induction ws arbitrary: i)
    case (Cons w ws)
    then show ?case
      by (cases i) (simp_all add: words_bytes_def wire_simps)
  qed simp
  with \<open>i < length ws\<close> show "words_of (length ws) 0 (words_bytes ws @ rest) ! i = ws ! i"
    by (simp add: words_of_def)
qed (simp add: words_of_def)

lemma words_of_skip [wire_simps]:
  "length xs \<le> offset \<Longrightarrow> words_of n offset (xs @ ys) = words_of n (offset - length xs) ys"
  by (simp add: words_of_def field_skip)

lemma words_of_bytes_exact [wire_simps]:
  "n = length ws \<Longrightarrow> words_of n 0 (words_bytes ws @ rest) = ws"
  by (simp add: words_of_bytes)

lemma length_socket_id_bytes:
  "length (id_source i) = 4 \<Longrightarrow> length (id_destination i) = 4 \<Longrightarrow> length (id_cookie i) = 2 \<Longrightarrow>
    length (socket_id_bytes i) = 48"
  by (simp add: socket_id_bytes_def)

lemma socket_id_roundtrip:
  "length (id_source i) = 4 \<Longrightarrow> length (id_destination i) = 4 \<Longrightarrow> length (id_cookie i) = 2 \<Longrightarrow>
    socket_id_of (socket_id_bytes i @ rest) = i"
  by (simp add: socket_id_of_def socket_id_bytes_def wire_simps)

lemma kernel_id_lengths:
  "length (id_source (dm_id (kernel_diagnostic k))) = 4"
  "length (id_destination (dm_id (kernel_diagnostic k))) = 4"
  "length (id_cookie (dm_id (kernel_diagnostic k))) = 2"
  by (simp_all add: kernel_diagnostic_def)

lemma length_diagnostic_message:
  "length (diagnostic_message_bytes (kernel_diagnostic k)) = 72"
  by (simp add: diagnostic_message_bytes_def length_socket_id_bytes kernel_id_lengths)

lemma diagnostic_message_roundtrip:
  "diagnostic_message_of (diagnostic_message_bytes (kernel_diagnostic k) @ rest) = kernel_diagnostic k"
  by (simp add: diagnostic_message_of_def diagnostic_message_bytes_def wire_simps
      length_socket_id_bytes socket_id_roundtrip kernel_id_lengths)

lemma from_be_port [simp]: "from_be (port_be p) = p"
proof -
  have "to_le_bytes 2 (of_le_bytes (to_be_bytes 2 p) :: u16) = to_be_bytes 2 p"
    using to_of_le_bytes [of "to_be_bytes 2 p", where 'a = 16] by simp
  then show ?thesis
    by (simp add: from_be_def port_be_def)
qed

lemma endpoint_words:
  assumes "family = family_of (sa_ip a)"
  shows "endpoint family (address_words (sa_ip a)) (port_be (sa_port a)) = Some a"
proof (cases "sa_ip a")
  case (V4 v)
  have "to_le_bytes 4 (of_le_bytes (ipv4_octets v) :: u32) = ipv4_octets v"
    using to_of_le_bytes [of "ipv4_octets v", where 'a = 32] by simp
  with V4 assms show ?thesis
    by (simp add: endpoint_def)
next
  case (V6 v)
  have chunk: "to_le_bytes 4 (of_le_bytes (take 4 (drop n (ipv6_octets v))) :: u32) =
      take 4 (drop n (ipv6_octets v))" if "n \<le> 12" for n
    using to_of_le_bytes [of "take 4 (drop n (ipv6_octets v))", where 'a = 32] that by simp
  have chop: "take 4 (drop n xs) @ drop (n + 4) xs = drop n xs" for n and xs :: bytes
    by (metis add.commute append_take_drop_id drop_drop)
  have "words_bytes (address_words (V6 v)) = ipv6_octets v"
    using chop [of 0 "ipv6_octets v"] chop [of 4 "ipv6_octets v"] chop [of 8 "ipv6_octets v"]
      chunk [of 0] chunk [of 4] chunk [of 8] chunk [of 12]
    by (simp add: words_bytes_def)
  with V6 assms show ?thesis
    by (simp add: endpoint_def del: address_words.simps)
qed

lemma native_u32_at_skip:
  "length xs \<le> offset \<Longrightarrow> native_u32_at (xs @ ys) offset = native_u32_at ys (offset - length xs)"
  by (auto simp: native_u32_at_def get_range_def)

lemma native_u32_at_0: "native_u32_at (u32_bytes w @ rest) 0 = Some w"
  by (simp add: native_u32_at_def get_range_def)

lemma parse_tcp_info_bytes: "parse_tcp_info (tcp_info_bytes (t, later)) = Some t"
  by (simp add: parse_tcp_info_def tcp_info_bytes_def native_u32_at_skip native_u32_at_0
      del: replicate.simps)

lemma parse_diagnostic_for:
  assumes "kernel_socket_ok k"
  shows "parse_diagnostic (diagnostic_for sequence k) protocol = Some (diagnostic_view protocol k)"
proof -
  let ?d = "kernel_diagnostic k" and ?as = "map masked (diagnostic_attributes k)"
  have families: "family_of (sa_ip (ks_local k)) = family_of (sa_ip (ks_remote k))"
    and congestion: "text_ok (ks_congestion k)"
    and later: "\<And>t later. ks_tcp k = Some (t, later) \<Longrightarrow> length later < 2 ^ 15"
    using assms by (auto simp: kernel_socket_ok_def)
  have "list_all encodable_attribute (diagnostic_attributes k)"
    using congestion later
    by (fastforce simp: diagnostic_attributes_def encodable_opt text_ok_length tcp_info_bytes_def
        split: prod.splits)
  then have attrs: "attributes (diagnostic_for sequence k) 72 = Some ?as"
    unfolding diagnostic_for_def
    by (intro netlink_message_attributes) (simp_all add: length_diagnostic_message)
  have "Option.bind (ks_tcp k) (\<lambda>v. parse_tcp_info (tcp_info_bytes v)) = map_option fst (ks_tcp k)"
    by (cases "ks_tcp k") (auto simp: parse_tcp_info_bytes)
  then have found: "find_attribute ?as INET_DIAG_INFO parse_tcp_info = map_option fst (ks_tcp k)"
    "find_attribute ?as INET_DIAG_CONG nul_terminated_string = ks_congestion k"
    by (simp_all add: diagnostic_attributes_def attribute_opt_simps text_ok_parse congestion)
  have payload: "get_from 16 (diagnostic_for sequence k) =
      Some (diagnostic_message_bytes ?d @ concat (map attribute_bytes (diagnostic_attributes k)))"
    unfolding diagnostic_for_def by (simp add: netlink_message_payload)
  have read: "read_unaligned 72 diagnostic_message_of
      (diagnostic_message_bytes ?d @ concat (map attribute_bytes (diagnostic_attributes k))) = Some ?d"
    by (simp add: read_payload length_diagnostic_message diagnostic_message_roundtrip)
  have family: "is_ip_family (family_of a)" for a
    by (cases a) (simp_all add: is_ip_family_def)
  have ends: "endpoint (dm_family ?d) (id_source (dm_id ?d)) (id_source_port (dm_id ?d)) = Some (ks_local k)"
    "endpoint (dm_family ?d) (id_destination (dm_id ?d)) (id_destination_port (dm_id ?d)) = Some (ks_remote k)"
    using families by (simp_all add: kernel_diagnostic_def endpoint_words)
  have filter: "option_filter (\<lambda>_. protocol = Tcp) x = (if protocol = Tcp then x else None)" for x :: "'x option"
    by (cases x) auto
  show ?thesis
    unfolding parse_diagnostic_def payload
    by (simp add: read attrs found ends filter del: INET_DIAG_INFO_def INET_DIAG_CONG_def)
      (simp add: kernel_diagnostic_def diagnostic_view_def family Let_def)
qed

section \<open>Complete and interrupted dumps\<close>

lemma diagnostic_for_header [simp]:
  "mh_message_type (message_header_of (diagnostic_for s k)) = 20"
  "mh_sequence (message_header_of (diagnostic_for s k)) = s"
  by (simp_all add: diagnostic_for_def)

lemma run_diag_steps:
  assumes "list_all kernel_socket_ok ks"
  shows "run_steps (diag_step protocol s) (map (diagnostic_for s) ks) acc =
    Continue (acc @ map (diagnostic_view protocol) ks)"
  using assms
  by (induction ks arbitrary: acc) (simp_all add: diag_step_def parse_diagnostic_for)

lemma diag_receive_complete:
  assumes "packets_ok (64 * 1024) mss" and "list_all kernel_socket_ok ks"
    and "concat mss = map (diagnostic_for s) ks @ [m]"
    and "mh_sequence (message_header_of m) = s" and "type_of m = NLMSG_DONE"
  shows "diag_receive_dump (packets mss) protocol s = Some (Ok (map (diagnostic_view protocol) ks))"
  using assms(4,5)
  by (simp add: diag_receive_dump_def receive_messages [simplified]
      transcript_packets [OF assms(1), simplified] assms(3) run_steps_append
      run_diag_steps [OF assms(2)] diag_step_def)

text \<open>C27: A complete diagnostic dump returns every socket the kernel sent, with endpoints, state,
  queues, timer, congestion algorithm and, for TCP only, the transport metrics; \<open>tcp_info\<close> of a
  newer kernel is read by its stable prefix.\<close>

theorem diagnostic_dump_complete:
  assumes "diag_open_socket k = Ok ()"
    and "diag_send_request k (diag_request family protocol number s) = Ok ()"
    and "k_replies k (diag_request family protocol number s) = packets mss"
    and "packets_ok (64 * 1024) mss" and "list_all kernel_socket_ok ks"
    and "concat mss = map (diagnostic_for s) ks @ [done_message s]"
  shows "diagnostic_dump k family protocol number s = Some (Ok (map (diagnostic_view protocol) ks))"
  using assms(1-3) diag_receive_complete [OF assms(4-6), of protocol]
  by (simp add: diagnostic_dump_def)

definition example_socket :: kernel_socket where
  "example_socket =
    \<lparr>ks_local = \<lparr>sa_ip = V4 0x7F000001, sa_port = 443\<rparr>, ks_remote = \<lparr>sa_ip = V4 0x7F000001, sa_port = 50000\<rparr>,
     ks_state = 1, ks_timer = 0, ks_retransmits = 0, ks_interface_index = 0, ks_cookie = (1, 2),
     ks_expires_ms = 0, ks_receive_queue = 0, ks_send_queue = 7, ks_uid = 1000, ks_inode = 4711,
     ks_tcp = Some (\<lparr>td_rto_us = 1, td_send_mss = 2, td_receive_mss = 3, td_unacked = 4, td_lost = 5,
       td_retransmitted = 6, td_rtt_us = 7, td_rtt_variance_us = 8, td_send_ssthresh = 9,
       td_send_cwnd = 10, td_path_mtu = 1500, td_total_retransmits = 11\<rparr>, [0, 0, 0, 0]),
     ks_congestion = Some ''cubic''\<rparr>"

lemma example_socket_packets:
  "kernel_socket_ok example_socket" "packets_ok (64 * 1024) [[diagnostic_for s example_socket, done_message s]]"
  by (simp_all add: packets_ok_def diagnostic_for_def framed_netlink_message length_netlink_message
      length_diagnostic_message diagnostic_attributes_def kernel_socket_ok_def example_socket_def
      attribute_opt_def length_attribute_bytes tcp_info_bytes_def align_to_4_def text_ok_def
      kernel_text_def as_bytes_def byte_of_char_def)

theorem diagnostic_dump_complete_witness:
  "diagnostic_dump (example_kernel (packets [[diagnostic_for 1 example_socket, done_message 1]]))
      AF_INET Tcp 6 1 = Some (Ok [diagnostic_view Tcp example_socket])"
proof -
  have "diag_open_socket (example_kernel script) = Ok ()"
    "diag_send_request (example_kernel script) request = Ok ()" for script request
    by (simp_all add: diag_open_socket_def diag_send_request_def example_kernel_def)
  then show ?thesis
    using diagnostic_dump_complete [of
        "example_kernel (packets [[diagnostic_for 1 example_socket, done_message 1]])" AF_INET Tcp 6 1
        "[[diagnostic_for 1 example_socket, done_message 1]]" "[example_socket]"]
      example_socket_packets
    by simp
qed

definition final_message :: "u16 \<Rightarrow> i32 \<Rightarrow> u32 \<Rightarrow> bytes" where
  "final_message flags error sequence =
    message_header_bytes
      \<lparr>mh_length = 20, mh_message_type = NLMSG_DONE, mh_flags = flags, mh_sequence = sequence, mh_port_id = 0\<rparr>
    @ u32_bytes error"

text \<open>C37: The diagnostic dump does not look at what the final message says: when the kernel flags
  the dump as interrupted, or ends it with an error number, the entries received so far are
  returned as a complete result, unlike the dumps of \<open>netlink.rs\<close>.\<close>

theorem interrupted_diagnostic_accepted:
  assumes "diag_open_socket k = Ok ()"
    and "diag_send_request k (diag_request family protocol number s) = Ok ()"
    and "k_replies k (diag_request family protocol number s) = packets mss"
    and "packets_ok (64 * 1024) mss" and "list_all kernel_socket_ok ks"
    and "concat mss = map (diagnostic_for s) ks @ [final_message flags error s]"
    and "flags AND NLM_F_DUMP_INTR \<noteq> 0 \<or> error \<noteq> 0"
  shows "diagnostic_dump k family protocol number s = Some (Ok (map (diagnostic_view protocol) ks))
    \<and> \<not> is_ok (dump_done name (message_header_of (final_message flags error s))
        (final_message flags error s) ())"
proof -
  have header: "message_header_of (final_message flags error s) =
      \<lparr>mh_length = 20, mh_message_type = NLMSG_DONE, mh_flags = flags, mh_sequence = s, mh_port_id = 0\<rparr>"
    by (simp add: final_message_def)
  have error: "read_i32 (final_message flags error s) 16 = Some error"
    by (simp add: final_message_def read_i32_def get_from_def read_unaligned_def field_def)
  have "diag_receive_dump (packets mss) protocol s = Some (Ok (map (diagnostic_view protocol) ks))"
    by (rule diag_receive_complete [OF assms(4-6)]) (simp_all add: header)
  with assms(1-3,7) show ?thesis
    by (simp add: diagnostic_dump_def dump_done_def header error)
qed

theorem interrupted_diagnostic_accepted_witness:
  "diagnostic_dump (example_kernel (packets [[final_message 0x10 0 1]])) AF_INET Tcp 6 1 = Some (Ok [])"
proof -
  have "packets_ok (64 * 1024) [[final_message 0x10 0 1]]"
    by (simp add: packets_ok_def framed_def) (simp add: final_message_def align_to_4_def)
  moreover have "diag_open_socket (example_kernel script) = Ok ()"
    "diag_send_request (example_kernel script) request = Ok ()" for script request
    by (simp_all add: diag_open_socket_def diag_send_request_def example_kernel_def)
  ultimately show ?thesis
    using interrupted_diagnostic_accepted [of "example_kernel (packets [[final_message 0x10 0 1]])"
      AF_INET Tcp 6 1 "[[final_message 0x10 0 1]]" "[]" "0x10" 0 "[]"]
    by simp
qed

text \<open>The snapshot of both families and protocols is ordered by protocol, local endpoint and
  remote port; only an IPv6 family the kernel does not support is left out silently.\<close>

theorem ip_diagnostics_merge:
  "(ip_diagnostics k1 k2 k3 k4 = Some (Ok ds) \<longleftrightarrow>
    (\<exists>d4. ipv4_diagnostics k1 k2 = Some (Ok d4) \<and>
      ((\<exists>d6. ipv6_diagnostics k3 k4 = Some (Ok d6) \<and> ds = sort_diagnostics (d4 @ d6)) \<or>
       (\<exists>e. ipv6_diagnostics k3 k4 = Some (Err e) \<and> ipv6_unavailable e \<and> ds = sort_diagnostics d4))))
   \<and> sorted (map diagnostic_key (sort_diagnostics xs))"
  unfolding ip_diagnostics_def both_families_Ok ip_snapshot.merge_result sort_diagnostics_def
  by auto

end
