(* ===== verification/Scanner.thy ===== *)
theory Scanner
  imports Netlink_Dump_Spec
begin

text \<open>
  \<open>scanner.rs\<close>: the arithmetic of a connected network, the bound on the targets of a scan, the
  probes it sends and the neighbors it reports. The probes are the output trace of the scan;
  the neighbor table before and after them comes from two kernels of \<open>Netlink_Dump\<close>.
\<close>

section \<open>Networks\<close>

record network =
  w_interface :: string
  w_interface_index :: i32
  w_address :: ipv4_addr
  w_prefix :: u32
  w_network :: u32
  w_broadcast :: u32

text \<open>\<open>u32::MAX << (32 - prefix)\<close>; the shift amount is taken modulo the width.\<close>

definition network_mask :: "u32 \<Rightarrow> u32" where
  "network_mask prefix_length =
    (if prefix_length = 0 then 0 else push_bit (unat (32 - prefix_length) mod 32) (- 1))"

definition for_cidr :: "string \<Rightarrow> i32 \<Rightarrow> ipv4_addr \<Rightarrow> ipv4_addr \<Rightarrow> u32 \<Rightarrow> network" where
  "for_cidr interface interface_index address cidr_address prefix_length =
    (let bits = network_mask prefix_length; network = cidr_address AND bits
     in \<lparr>w_interface = interface, w_interface_index = interface_index, w_address = address,
         w_prefix = prefix_length, w_network = network, w_broadcast = network OR NOT bits\<rparr>)"

definition network_new :: "string \<Rightarrow> i32 \<Rightarrow> ipv4_addr \<Rightarrow> u32 \<Rightarrow> network" where
  "network_new interface interface_index address prefix_length =
    for_cidr interface interface_index address address prefix_length"

definition host_bounds :: "network \<Rightarrow> u32 \<times> u32" where
  "host_bounds n =
    (if w_prefix n \<le> 30 then (w_network n + 1, w_broadcast n - 1) else (w_network n, w_broadcast n))"

definition target_count :: "network \<Rightarrow> u64" where
  "target_count n =
    (case host_bounds n of (lo, hi) \<Rightarrow>
       ucast hi - ucast lo + 1
       - (if lo \<le> w_address n \<and> w_address n \<le> hi then 1 else 0))"

definition network_contains :: "network \<Rightarrow> ipv4_addr \<Rightarrow> bool" where
  "network_contains n address \<longleftrightarrow> w_network n \<le> address \<and> address \<le> w_broadcast n"

section \<open>Scanning\<close>

record options =
  o_wait :: nat
  o_retries :: u32
  o_excluded :: "ipv4_addr set"

record scan_result =
  sr_neighbors :: "neighbor list"
  sr_changed :: "ipv4_addr set"
  sr_elapsed :: nat

definition MAX_TARGETS :: u64 where [simp]: "MAX_TARGETS = 4096"

text \<open>\<open>first..=last\<close>.\<close>

definition address_range :: "u32 \<Rightarrow> u32 \<Rightarrow> ipv4_addr list" where
  "address_range lo hi = map of_nat [unat lo ..< Suc (unat hi)]"

definition is_neighbor_on_networks :: "network list \<Rightarrow> neighbor \<Rightarrow> bool" where
  "is_neighbor_on_networks networks n \<longleftrightarrow>
    (case n_address n of
       V6 _ \<Rightarrow> False
     | V4 address \<Rightarrow>
         n_link_address n \<noteq> None
         \<and> list_ex (\<lambda>w. w_interface_index w = n_interface_index n \<and> network_contains w address) networks)"

definition probes_of_network :: "options \<Rightarrow> network \<Rightarrow> ipv4_addr list" where
  "probes_of_network options n =
    (case host_bounds n of (lo, hi) \<Rightarrow>
       filter (\<lambda>a. a \<noteq> w_address n \<and> a \<notin> o_excluded options) (address_range lo hi))"

text \<open>One pass over all networks per retry, in order.\<close>

definition probe_trace :: "options \<Rightarrow> network list \<Rightarrow> ipv4_addr list" where
  "probe_trace options networks =
    concat (replicate (unat (o_retries options)) (concat (map (probes_of_network options) networks)))"

definition v4_link_addresses :: "neighbor list \<Rightarrow> (ipv4_addr \<times> string option) list" where
  "v4_link_addresses ns =
    filter_map (\<lambda>n. case n_address n of V4 a \<Rightarrow> Some (a, n_link_address n) | V6 _ \<Rightarrow> None) ns"

text \<open>The counts, the snapshot before, the socket (an error or nothing) and the probes, and the
  snapshot after; the result comes with the probes that were sent.\<close>

definition scan ::
  "u64 \<Rightarrow> kernel \<Rightarrow> kernel \<Rightarrow> i32 option \<Rightarrow> nat \<Rightarrow> network list \<Rightarrow> options
    \<Rightarrow> (scan_result result \<times> ipv4_addr list) option" where
  "scan sysconf k_before k_after bind_error elapsed networks options =
    (let targets = sum_list (map target_count networks)
     in if targets = 0 then
          Some (Err (Custom NotFound ''no other addresses exist on the connected IPv4 network''), [])
        else if MAX_TARGETS < targets then
          Some (Err (Custom InvalidInput
            (''refusing to probe '' @ decimal (unat targets) @ '' addresses; the current limit is ''
             @ decimal (unat MAX_TARGETS))), [])
        else
          (case neighbors sysconf k_before AF_INET of
             None \<Rightarrow> None
           | Some (Err e) \<Rightarrow> Some (Err e, [])
           | Some (Ok before) \<Rightarrow>
               (case bind_error of
                  Some code \<Rightarrow> Some (Err (Os code), [])
                | None \<Rightarrow>
                    let known = map_of (rev (v4_link_addresses
                          (filter (is_neighbor_on_networks networks) before)));
                        trace = probe_trace options networks
                    in (case neighbors sysconf k_after AF_INET of
                          None \<Rightarrow> None
                        | Some (Err e) \<Rightarrow> Some (Err e, trace)
                        | Some (Ok after) \<Rightarrow>
                            let found = filter (is_neighbor_on_networks networks) after
                            in Some (Ok \<lparr>sr_neighbors = found,
                                 sr_changed = set (filter_map (\<lambda>n. case n_address n of
                                     V6 _ \<Rightarrow> None
                                   | V4 a \<Rightarrow> if known a \<noteq> Some (n_link_address n) then Some a else None) found),
                                 sr_elapsed = elapsed\<rparr>, trace)))))"

section \<open>Network arithmetic\<close>

lemma network_mask_not_mask:
  assumes "prefix_length \<le> 32"
  shows "network_mask prefix_length = NOT (mask (32 - unat prefix_length))"
proof (cases "prefix_length = 0")
  case True
  then show ?thesis
    by (simp add: network_mask_def mask_eq_exp_minus_1 flip: not_one_eq)
next
  case False
  with assms have "0 < unat prefix_length" "unat prefix_length \<le> 32"
    by (simp_all add: word_le_nat_alt unat_gt_0)
  moreover from assms have "unat (32 - prefix_length) = 32 - unat prefix_length"
    by (simp add: unat_sub word_le_nat_alt)
  ultimately show ?thesis
    using False by (simp add: network_mask_def push_bit_minus_one_eq_not_mask)
qed

lemma and_not_mask_split: "(a AND NOT (mask k)) + (a AND mask k) = a" for a :: "'a::len word"
proof -
  have "(a AND NOT (mask k)) + (a AND mask k) = (a AND NOT (mask k)) OR (a AND mask k)"
    by (rule disjunctive_add) (auto simp: bit_simps)
  also have "\<dots> = a"
    by (rule bit_word_eqI) (auto simp: bit_simps)
  finally show ?thesis .
qed

lemma unat_and_not_mask: "unat (a AND NOT (mask k)) = unat a div 2 ^ k * 2 ^ k" for a :: u32
proof -
  have "a AND NOT (mask k) = a - (a AND mask k)"
    using and_not_mask_split [of a k] by (simp add: eq_diff_eq)
  moreover have "(a AND mask k) \<le> a"
    by (simp add: word_le_nat_alt unat_and_mask)
  ultimately have "unat (a AND NOT (mask k)) = unat a - unat a mod 2 ^ k"
    by (simp add: unat_sub unat_and_mask word_le_nat_alt)
  then show ?thesis
    by (simp add: minus_mod_eq_div_mult)
qed

lemma unat_or_mask:
  fixes a :: u32
  assumes "k \<le> 32"
  shows "unat ((a AND NOT (mask k)) OR mask k) = unat a div 2 ^ k * 2 ^ k + (2 ^ k - 1)"
proof -
  have "(a AND NOT (mask k)) OR mask k = (a AND NOT (mask k)) + mask k"
    by (rule disjunctive_add [symmetric]) (auto simp: bit_simps)
  moreover have "unat (mask k :: u32) = 2 ^ k - 1"
  proof -
    have "(2 ^ 32 - 1 :: nat) mod 2 ^ k = 2 ^ k - 1"
      using assms mask_mod_exp [where n = 32 and m = k and 'a = nat] by (simp add: min_absorb2)
    with unat_and_mask [of "- 1" k] show ?thesis
      by (simp add: unsigned_minus_1_eq_mask mask_eq_exp_minus_1)
  qed
  moreover have "unat a div 2 ^ k * 2 ^ k + (2 ^ k - 1) < 2 ^ 32"
  proof -
    have "unat a < 2 ^ 32"
      using unat_bounds(3) [of a] by simp
    have "unat a div 2 ^ k < 2 ^ (32 - k)"
    proof -
      have "unat a < 2 ^ (32 - k) * 2 ^ k"
        using \<open>unat a < 2 ^ 32\<close> assms by (simp flip: power_add)
      then show ?thesis
        by (simp add: less_mult_imp_div_less)
    qed
    then have "(unat a div 2 ^ k + 1) * 2 ^ k \<le> 2 ^ (32 - k) * 2 ^ k"
      by (intro mult_right_mono) simp_all
    then have "(unat a div 2 ^ k + 1) * 2 ^ k \<le> 2 ^ 32"
      using assms by (simp flip: power_add)
    moreover have "0 < (2 :: nat) ^ k"
      by simp
    ultimately show ?thesis
      by (simp add: add_mult_distrib)
  qed
  ultimately show ?thesis
    by (simp add: unat_word_ariths unat_and_not_mask)
qed

text \<open>The bounds of a network in arithmetic: the block of the prefix that contains the address.\<close>

lemma network_bounds:
  assumes "prefix_length \<le> 32" and "n = for_cidr interface index address cidr prefix_length"
    and "block = 2 ^ (32 - unat prefix_length)"
  shows "unat (w_network n) = unat cidr div block * block"
    and "unat (w_broadcast n) = unat cidr div block * block + (block - 1)"
    and "w_prefix n = prefix_length" and "w_address n = address" and "w_interface_index n = index"
  using assms unat_and_not_mask [of cidr "32 - unat prefix_length"]
    unat_or_mask [of "32 - unat prefix_length" cidr]
  by (simp_all add: for_cidr_def Let_def network_mask_not_mask)

lemma host_bounds_unat:
  assumes "prefix_length \<le> 32" and "n = for_cidr interface index address cidr prefix_length"
    and "block = 2 ^ (32 - unat prefix_length)" and "host_bounds n = (lo, hi)"
  shows "prefix_length \<le> 30 \<Longrightarrow> unat lo = unat cidr div block * block + 1
      \<and> unat hi = unat cidr div block * block + block - 2"
    and "30 < prefix_length \<Longrightarrow> unat lo = unat cidr div block * block
      \<and> unat hi = unat cidr div block * block + block - 1"
    and "unat lo \<le> unat hi"
proof -
  note bounds = network_bounds [OF assms(1-3)]
  have positive: "0 < block"
    by (simp add: assms(3))
  show small: "unat lo = unat cidr div block * block + 1 \<and> unat hi = unat cidr div block * block + block - 2"
    if "prefix_length \<le> 30"
  proof -
    have "4 \<le> block"
    proof -
      have "(2 :: nat) ^ 2 \<le> 2 ^ (32 - unat prefix_length)"
        using that by (intro power_increasing) (simp_all add: word_le_nat_alt)
      then show ?thesis
        by (simp add: assms(3))
    qed
    moreover have "lo = w_network n + 1" and "hi = w_broadcast n - 1"
      using assms(4) that by (simp_all add: host_bounds_def bounds(3))
    moreover have "unat (w_broadcast n) < 2 ^ 32"
      using unat_bounds(3) [of "w_broadcast n"] by simp
    ultimately show ?thesis
      using bounds(1,2) by (simp add: unat_word_ariths unat_sub word_le_nat_alt)
  qed
  show large: "unat lo = unat cidr div block * block \<and> unat hi = unat cidr div block * block + block - 1"
    if "30 < prefix_length"
  proof -
    have "\<not> w_prefix n \<le> 30"
      using that bounds(3) by simp
    then have "lo = w_network n" and "hi = w_broadcast n"
      using assms(4) by (auto simp: host_bounds_def)
    then show ?thesis
      using bounds(1,2) positive by simp
  qed
  show "unat lo \<le> unat hi"
  proof (cases "prefix_length \<le> 30")
    case True
    have "(2 :: nat) ^ 2 \<le> 2 ^ (32 - unat prefix_length)"
      using True by (intro power_increasing) (simp_all add: word_le_nat_alt)
    with small [OF True] show ?thesis
      by (simp add: assms(3))
  next
    case False
    with large positive show ?thesis by simp
  qed
qed

text \<open>The addresses a network stands for: its hosts without its own address.\<close>

definition targets :: "network \<Rightarrow> ipv4_addr list" where
  "targets n = (case host_bounds n of (lo, hi) \<Rightarrow> filter (\<lambda>a. a \<noteq> w_address n) (address_range lo hi))"

lemma set_address_range: "set (address_range lo hi) = {a. lo \<le> a \<and> a \<le> hi}"
proof (rule set_eqI)
  fix a
  show "a \<in> set (address_range lo hi) \<longleftrightarrow> a \<in> {a. lo \<le> a \<and> a \<le> hi}"
  proof
    assume "a \<in> set (address_range lo hi)"
    then obtain i where i: "unat lo \<le> i" "i \<le> unat hi" "a = of_nat i"
      by (auto simp: address_range_def)
    have "unat hi < 2 ^ 32"
      using unat_bounds(3) [of hi] by simp
    with i have "unat a = i"
      by (simp add: unat_of_nat)
    with i show "a \<in> {a. lo \<le> a \<and> a \<le> hi}"
      by (simp add: word_le_nat_alt)
  next
    assume "a \<in> {a. lo \<le> a \<and> a \<le> hi}"
    then have "unat a \<in> {unat lo ..< Suc (unat hi)}" and "a = of_nat (unat a)"
      by (simp_all add: word_le_nat_alt less_Suc_eq_le)
    then show "a \<in> set (address_range lo hi)"
      unfolding address_range_def by (metis atLeastLessThan_upt image_eqI list.set_map)
  qed
qed

lemma distinct_address_range: "distinct (address_range lo hi)"
proof -
  have bound: "unat hi < 2 ^ 32"
    using unat_bounds(3) [of hi] by simp
  have "unat (of_nat i :: u32) = i" if "i \<in> {unat lo ..< Suc (unat hi)}" for i
    using that bound by (simp add: unat_of_nat)
  then have "inj_on (of_nat :: nat \<Rightarrow> u32) {unat lo ..< Suc (unat hi)}"
    by (rule inj_on_inverseI)
  then show ?thesis
    unfolding address_range_def distinct_map by (simp del: upt_Suc)
qed

lemma address_range_pair:
  assumes "unat lo < 2 ^ 32 - 1"
  shows "address_range lo (lo + 1) = [lo, lo + 1]"
proof -
  have "unat (lo + 1) = Suc (unat lo)"
    using assms by (simp add: unat_word_ariths)
  then show ?thesis
    by (simp add: address_range_def upt_conv_Cons add.commute)
qed

section \<open>Counting targets\<close>

text \<open>A network as \<open>for_cidr\<close> builds it from a prefix length that fits.\<close>

definition network_ok :: "network \<Rightarrow> bool" where
  "network_ok n \<longleftrightarrow>
    w_prefix n \<le> 32
    \<and> n = for_cidr (w_interface n) (w_interface_index n) (w_address n) (w_network n) (w_prefix n)"

lemma for_cidr_ok:
  assumes "prefix_length \<le> 32"
  shows "network_ok (for_cidr interface index address cidr prefix_length)"
  using assms by (simp add: network_ok_def for_cidr_def Let_def and.assoc)

lemma length_filter_neq:
  assumes "distinct xs"
  shows "length (filter (\<lambda>x. x \<noteq> a) xs) = length xs - (if a \<in> set xs then 1 else 0)"
  using assms
proof (induction xs)
  case (Cons x xs)
  show ?case
  proof (cases "x = a")
    case True
    with Cons.prems have "filter (\<lambda>x. x \<noteq> a) xs = xs"
      by (auto simp: filter_id_conv)
    with True show ?thesis by simp
  next
    case False
    then show ?thesis
      using Cons length_pos_if_in_set [of a xs] by auto
  qed
qed simp

lemma target_count_targets:
  assumes "network_ok n"
  shows "unat (target_count n) = length (targets n)"
proof -
  obtain lo hi where bounds: "host_bounds n = (lo, hi)"
    by (cases "host_bounds n")
  have order: "unat lo \<le> unat hi"
    using assms host_bounds_unat(3) [OF _ _ refl bounds] by (auto simp: network_ok_def)
  let ?inside = "lo \<le> w_address n \<and> w_address n \<le> hi"
  have range: "length (address_range lo hi) = Suc (unat hi) - unat lo"
    by (simp add: address_range_def del: upt_Suc)
  have "unat (ucast hi - ucast lo + 1 :: u64) = Suc (unat hi) - unat lo"
  proof -
    have sizes: "unat (ucast w :: u64) = unat w" for w :: u32
      using unat_bounds(3) [of w] by (simp add: unsigned_ucast_eq take_bit_nat_eq_self)
    have "unat (ucast hi - ucast lo :: u64) = unat hi - unat lo"
      using order by (subst unat_sub) (simp_all add: word_le_nat_alt sizes)
    moreover have "unat hi - unat lo < 2 ^ 32"
      using unat_bounds(3) [of hi] by simp
    ultimately show ?thesis
      using order by (simp add: unat_word_ariths Suc_diff_le)
  qed
  moreover from this order have "1 \<le> unat (ucast hi - ucast lo + 1 :: u64)"
    by simp
  ultimately have "unat (target_count n) = (Suc (unat hi) - unat lo) - (if ?inside then 1 else 0)"
    by (simp add: target_count_def bounds unat_sub word_le_nat_alt)
  then show ?thesis
    by (simp add: targets_def bounds length_filter_neq [OF distinct_address_range] set_address_range range)
qed

text \<open>The number of targets announced for a network is the number of its host addresses
  without the scanner's own address, with the 32-bit bounds never wrapping, and no address is
  listed twice.\<close>

theorem target_count_exact:
  assumes "prefix_length \<le> 32"
  shows "let n = for_cidr interface index address cidr prefix_length
    in unat (target_count n) = length (targets n) \<and> distinct (targets n)
      \<and> set (targets n) = {a. fst (host_bounds n) \<le> a \<and> a \<le> snd (host_bounds n) \<and> a \<noteq> address}"
  using target_count_targets [OF for_cidr_ok [OF assms]] distinct_address_range
  by (auto simp: Let_def targets_def set_address_range for_cidr_def split: prod.splits)

theorem target_count_exact_witness:
  "length (targets (network_new ''eth0'' 2 0xC0A8012A 24)) = 253"
proof -
  have "target_count (for_cidr ''eth0'' 2 0xC0A8012A 0xC0A8012A 24) = 253"
    by code_simp
  with target_count_exact [of 24 "''eth0''" 2 "0xC0A8012A" "0xC0A8012A"] show ?thesis
    by (simp add: network_new_def Let_def)
qed

lemma block_div:
  fixes b q x :: nat
  assumes "0 < b"
  shows "q * b \<le> x \<and> x \<le> q * b + (b - 1) \<longleftrightarrow> x div b = q"
proof
  assume "q * b \<le> x \<and> x \<le> q * b + (b - 1)"
  then have "b * q \<le> x" and "x < b * q + b"
    using assms by (auto simp: mult.commute)
  then show "x div b = q"
    by (intro div_nat_eqI) simp_all
next
  assume "x div b = q"
  moreover have "x = x div b * b + x mod b" and "x mod b \<le> b - 1"
    using assms mod_less_divisor [of b x] by (simp, linarith)
  ultimately show "q * b \<le> x \<and> x \<le> q * b + (b - 1)"
    by simp
qed

text \<open>A network contains exactly the addresses that agree with it on the prefix bits.\<close>

theorem network_contains_prefix:
  assumes "prefix_length \<le> 32"
  shows "network_contains (for_cidr interface index address cidr prefix_length) a \<longleftrightarrow>
    a AND network_mask prefix_length = cidr AND network_mask prefix_length"
proof -
  let ?k = "32 - unat prefix_length"
  let ?block = "2 ^ ?k :: nat"
  have "network_contains (for_cidr interface index address cidr prefix_length) a \<longleftrightarrow>
      unat cidr div ?block * ?block \<le> unat a \<and> unat a \<le> unat cidr div ?block * ?block + (?block - 1)"
    using network_bounds [OF assms refl refl]
    by (simp add: network_contains_def word_le_nat_alt)
  also have "\<dots> \<longleftrightarrow> unat a div ?block = unat cidr div ?block"
    by (rule block_div) simp
  also have "\<dots> \<longleftrightarrow> a AND network_mask prefix_length = cidr AND network_mask prefix_length"
    unfolding network_mask_not_mask [OF assms] word_unat_eq_iff unat_and_not_mask by simp
  finally show ?thesis .
qed

theorem network_contains_prefix_witness:
  "network_contains (network_new ''eth0'' 2 0xC0A8012A 24) 0xC0A801FE
    \<and> \<not> network_contains (network_new ''eth0'' 2 0xC0A8012A 24) 0xC0A802FE"
proof -
  have masks: "(0xC0A801FE :: u32) AND network_mask 24 = 0xC0A8012A AND network_mask 24"
    "(0xC0A802FE :: u32) AND network_mask 24 \<noteq> 0xC0A8012A AND network_mask 24"
    by code_simp+
  show ?thesis
    unfolding network_new_def
    using masks network_contains_prefix [of 24 "''eth0''" 2 "0xC0A8012A" "0xC0A8012A"] by simp
qed

section \<open>A scan\<close>

lemma set_probes:
  "set (probes_of_network options n) = set (targets n) - o_excluded options"
  by (auto simp: probes_of_network_def targets_def split: prod.splits)

lemma length_probes: "length (probes_of_network options n) \<le> length (targets n)"
proof -
  have "probes_of_network options n = filter (\<lambda>a. a \<notin> o_excluded options) (targets n)"
    by (simp add: probes_of_network_def targets_def split: prod.splits)
  then show ?thesis
    by simp
qed

lemma length_pass: "length (concat (map (probes_of_network options) networks)) \<le>
    sum_list (map (\<lambda>n. length (targets n)) networks)"
  by (induction networks) (auto intro: add_mono length_probes)

lemma target_count_bound: "unat (target_count n) \<le> 2 ^ 32" if "network_ok n"
proof -
  obtain lo hi where bounds: "host_bounds n = (lo, hi)"
    by (cases "host_bounds n")
  have "length (targets n) \<le> length (address_range lo hi)"
    by (simp add: targets_def bounds)
  also have "\<dots> \<le> 2 ^ 32"
    using unat_bounds(3) [of hi] by (simp add: address_range_def del: upt_Suc)
  finally show ?thesis
    using target_count_targets [OF that] by simp
qed

text \<open>The 64-bit sum of the counts does not wrap for any list of networks that fits memory.\<close>

lemma sum_target_counts:
  assumes "list_all network_ok networks" and "length networks < 2 ^ 31"
  shows "unat (sum_list (map target_count networks)) = sum_list (map (\<lambda>n. length (targets n)) networks)"
    and "sum_list (map (\<lambda>n. length (targets n)) networks) \<le> length networks * 2 ^ 32"
proof -
  have "unat (sum_list (map target_count networks)) = sum_list (map (\<lambda>n. length (targets n)) networks)
    \<and> sum_list (map (\<lambda>n. length (targets n)) networks) \<le> length networks * 2 ^ 32"
    using assms
  proof (induction networks)
    case (Cons n networks)
    have n: "unat (target_count n) = length (targets n)" "length (targets n) \<le> 2 ^ 32"
      using Cons.prems(1) target_count_targets target_count_bound [of n] by auto
    have "length networks * 2 ^ 32 \<le> 2 ^ 31 * 2 ^ 32"
      using Cons.prems(2) by (intro mult_right_mono) simp_all
    with n Cons show ?case
      by (auto simp: unat_word_ariths)
  qed simp
  then show "unat (sum_list (map target_count networks)) = sum_list (map (\<lambda>n. length (targets n)) networks)"
    and "sum_list (map (\<lambda>n. length (targets n)) networks) \<le> length networks * 2 ^ 32"
    by simp_all
qed

lemma length_probe_trace:
  "length (probe_trace options networks) =
    unat (o_retries options) * length (concat (map (probes_of_network options) networks))"
  unfolding probe_trace_def by (induction "unat (o_retries options)" arbitrary: options)
    (simp_all add: length_concat sum_list_replicate)

lemma scan_trace:
  assumes "list_all network_ok networks" and "length networks < 2 ^ 31"
    and "scan sysconf k_before k_after bind_error elapsed networks options = Some (outcome, trace)"
  shows "length trace \<le> unat (o_retries options) * 4096"
    and "set trace \<subseteq> (\<Union>n \<in> set networks. set (targets n)) - o_excluded options"
proof -
  let ?pass = "concat (map (probes_of_network options) networks)"
  have trace: "trace = [] \<or> (trace = probe_trace options networks
      \<and> unat (sum_list (map target_count networks)) \<le> 4096)"
    using assms(3) by (auto simp: scan_def Let_def word_le_nat_alt not_less split: if_splits option.splits result.splits)
  then show "length trace \<le> unat (o_retries options) * 4096"
  proof
    assume t: "trace = probe_trace options networks
      \<and> unat (sum_list (map target_count networks)) \<le> 4096"
    then have "length ?pass \<le> 4096"
      using length_pass [of options networks] sum_target_counts(1) [OF assms(1,2)] by linarith
    then show ?thesis
      using t by (simp add: length_probe_trace)
  qed simp
  show "set trace \<subseteq> (\<Union>n \<in> set networks. set (targets n)) - o_excluded options"
    using trace by (auto simp: probe_trace_def set_probes split: if_splits)
qed

lemma scan_outcome:
  assumes "scan sysconf k_before k_after bind_error elapsed networks options = Some (Ok r, trace)"
  shows "trace = probe_trace options networks"
    and "list_all (is_neighbor_on_networks networks) (sr_neighbors r)"
    and "sorted (map neighbor_key (sr_neighbors r))"
  using assms
  by (auto simp: scan_def Let_def list_all_iff neighbors_def question_Ok after_dump_Ok
      split: if_splits option.splits result.splits intro!: sorted_filter)

text \<open>A scan stays within its limit and its targets: whatever its outcome it sends at most 4096
  probes per retry (none at all when it refuses), each to a host address of one of the networks
  that is neither that network's own address nor excluded; and when it succeeds, every such
  address was probed in every pass, and the neighbors it reports are resolved, on one of the
  networks by interface and by subnet, and in order.\<close>

theorem scan_bounded:
  assumes "list_all network_ok networks" and "length networks < 2 ^ 31"
    and "scan sysconf k_before k_after bind_error elapsed networks options = Some (outcome, trace)"
  shows "length trace \<le> unat (o_retries options) * 4096
    \<and> set trace \<subseteq> (\<Union>n \<in> set networks. set (targets n)) - o_excluded options
    \<and> (case outcome of
         Err _ \<Rightarrow> True
       | Ok r \<Rightarrow>
           trace = concat (replicate (unat (o_retries options))
             (concat (map (probes_of_network options) networks)))
           \<and> list_all (is_neighbor_on_networks networks) (sr_neighbors r)
           \<and> sorted (map neighbor_key (sr_neighbors r)))"
proof (cases outcome)
  case (Ok r)
  with assms(3) show ?thesis
    using scan_trace [OF assms] scan_outcome [OF assms(3) [unfolded Ok]]
    by (simp add: probe_trace_def)
next
  case (Err e)
  then show ?thesis
    using scan_trace [OF assms] by simp
qed

theorem scan_bounded_witness:
  "let k = example_kernel (packets [[done_message REQUEST_SEQUENCE]])
    in \<exists>r. scan 100 k k None 5 [network_new ''ppp0'' 2 0x0A000000 31]
        \<lparr>o_wait = 0, o_retries = 2, o_excluded = {}\<rparr> = Some (Ok r, [0x0A000001, 0x0A000001])
      \<and> sorted (map neighbor_key (sr_neighbors r))"
proof -
  let ?k = "example_kernel (packets [[done_message REQUEST_SEQUENCE]])"
  let ?n = "network_new ''ppp0'' 2 0x0A000000 31"
  let ?o = "\<lparr>o_wait = 0, o_retries = 2, o_excluded = {}\<rparr>"
  have "packets_ok (64 * 1024) [[done_message REQUEST_SEQUENCE]]"
    by (simp add: packets_ok_def align_to_4_def)
  from neighbors_complete [OF answers_example this, where ns = "[]" and sysconf = 100]
  have empty: "neighbors 100 ?k AF_INET = Some (Ok [])"
    by simp
  have count: "target_count ?n = 1"
    by code_simp
  have "host_bounds ?n = (0x0A000000, 0x0A000001)"
    by code_simp
  then have probes: "probes_of_network ?o ?n = [0x0A000001]"
    using address_range_pair [of "0x0A000000"]
    by (simp add: probes_of_network_def network_new_def for_cidr_def Let_def)
  have "replicate 2 x = [x, x]" for x :: "u32 list"
    by (simp add: numeral_2_eq_2)
  then have passes: "probe_trace ?o [?n] = [0x0A000001, 0x0A000001]"
    by (simp add: probe_trace_def probes)
  have run: "scan 100 ?k ?k None 5 [?n] ?o =
      Some (Ok \<lparr>sr_neighbors = [], sr_changed = {}, sr_elapsed = 5\<rparr>, [0x0A000001, 0x0A000001])"
    using empty by (simp add: scan_def count passes)
  have ok: "list_all network_ok [?n]"
    by (simp add: network_new_def for_cidr_ok)
  from scan_bounded [OF ok _ run] run show ?thesis
    by (simp add: Let_def)
qed

end
