(* ===== verification/Paths.thy ===== *)
theory Paths
  imports Text_Ops
begin

text \<open>
  \<open>std::path::Path\<close> as far as the readers of \<open>sysfs\<close> use it. A path is the list of its
  bytes, which need not be UTF-8.
\<close>

text \<open>\<open>Path::join\<close>: an absolute argument replaces the base.\<close>

definition path_join :: "string \<Rightarrow> string \<Rightarrow> string" where
  "path_join base part =
    (if prefix ''/'' part then part
     else if base = [] \<or> last base = CHR ''/'' then base @ part
     else base @ ''/'' @ part)"

text \<open>\<open>Path::file_name\<close>: the last component, unless it is \<open>..\<close>.\<close>

definition file_name :: "string \<Rightarrow> string option" where
  "file_name path =
    (case filter (\<lambda>c. c \<noteq> [] \<and> c \<noteq> ''.'') (split_char (CHR ''/'') path) of
       [] \<Rightarrow> None
     | c # cs \<Rightarrow> if last (c # cs) = ''..'' then None else Some (last (c # cs)))"

text \<open>\<open>OsStr::to_str\<close>.\<close>

definition to_str :: "string \<Rightarrow> string option" where
  "to_str name = from_utf8 (as_bytes name)"

end
