(* ===== verification/Traffic.thy ===== *)
theory Traffic
  imports Text_Layout Paths
begin

text \<open>
  \<open>traffic.rs\<close>: the interface counters that the kernel publishes under \<open>/sys/class/net\<close>, and
  the rates between two readings of them. The file system is a parameter, once per reading;
  the measured time is a number of nanoseconds.
\<close>

section \<open>Data\<close>

record counters =
  c_bytes :: u64
  c_packets :: u64
  c_errors :: u64
  c_dropped :: u64

record direction_rate =
  dr_bytes_per_second :: u64
  dr_packets_per_second :: u64
  dr_errors :: u64
  dr_dropped :: u64

record interface_rate =
  ir_interface :: string
  ir_received :: direction_rate
  ir_transmitted :: direction_rate

record sample =
  s_elapsed :: nat
  s_interfaces :: "interface_rate list"

record file_system =
  fs_is_dir :: "string \<Rightarrow> bool"
  fs_read_dir :: "string \<Rightarrow> string result list result"
  fs_read_to_string :: "string \<Rightarrow> string result"

section \<open>Interfaces\<close>

definition SYS_CLASS_NET :: string where
  "SYS_CLASS_NET = ''/sys/class/net''"

definition interface_of_path :: "string \<Rightarrow> string option" where
  "interface_of_path path = Option.bind (file_name path) to_str"

definition interface_paths :: "file_system \<Rightarrow> string option \<Rightarrow> string list result" where
  "interface_paths fs selection =
    (case selection of
       Some interface \<Rightarrow>
         let path = path_join SYS_CLASS_NET interface
         in if \<not> fs_is_dir fs path
            then Err (Custom NotFound (''interface '' @ interface @ '' does not exist''))
            else Ok [path]
     | None \<Rightarrow>
         (case fs_read_dir fs SYS_CLASS_NET of
            Err e \<Rightarrow> Err e
          | Ok entries \<Rightarrow>
              let paths = sort (filter_map result_option entries)
              in if paths = [] then Err (Custom NotFound ''no network interfaces found'')
                 else Ok paths))"

section \<open>Counters\<close>

text \<open>The display form of the \<open>ParseIntError\<close> of a text that is not a \<open>u64\<close>.\<close>

fun digits_error :: "nat \<Rightarrow> string \<Rightarrow> string" where
  "digits_error acc [] = ''number too large to fit in target type''"
| "digits_error acc (c # cs) =
    (case to_digit 10 c of
       None \<Rightarrow> ''invalid digit found in string''
     | Some d \<Rightarrow>
         if 2 ^ 64 \<le> 10 * acc + d then ''number too large to fit in target type''
         else digits_error (10 * acc + d) cs)"

definition parse_int_error :: "string \<Rightarrow> string" where
  "parse_int_error s =
    (if s = [] then ''cannot parse integer from empty string''
     else if s = ''+'' \<or> s = ''-'' then ''invalid digit found in string''
     else digits_error 0 (if hd s = CHR ''+'' then tl s else s))"

definition read_counter :: "file_system \<Rightarrow> string \<Rightarrow> u64 result" where
  "read_counter fs path =
    (case fs_read_to_string fs path of
       Err e \<Rightarrow> Err e
     | Ok contents \<Rightarrow>
         ok_or_else (Custom InvalidData (parse_int_error (trim contents))) (parse_u64 (trim contents)))"

definition read_direction :: "file_system \<Rightarrow> string \<Rightarrow> string \<Rightarrow> counters result" where
  "read_direction fs path direction =
    (let statistics = path_join path ''statistics'';
         read = (\<lambda>what. read_counter fs (path_join statistics (direction @ what)))
     in case read ''_bytes'' of
          Err e \<Rightarrow> Err e
        | Ok transferred \<Rightarrow>
     (case read ''_packets'' of
          Err e \<Rightarrow> Err e
        | Ok packets \<Rightarrow>
     (case read ''_errors'' of
          Err e \<Rightarrow> Err e
        | Ok errors \<Rightarrow>
     (case read ''_dropped'' of
          Err e \<Rightarrow> Err e
        | Ok dropped \<Rightarrow>
            Ok \<lparr>c_bytes = transferred, c_packets = packets, c_errors = errors, c_dropped = dropped\<rparr>))))"

text \<open>\<open>collect\<close> into a \<open>Result\<close> stops at the first error.\<close>

fun read_all :: "file_system \<Rightarrow> string list \<Rightarrow> (counters \<times> counters) list result" where
  "read_all fs [] = Ok []"
| "read_all fs (path # paths) =
    (case read_direction fs path ''rx'' of
       Err e \<Rightarrow> Err e
     | Ok received \<Rightarrow>
         (case read_direction fs path ''tx'' of
            Err e \<Rightarrow> Err e
          | Ok transmitted \<Rightarrow>
              (case read_all fs paths of
                 Err e \<Rightarrow> Err e
               | Ok rest \<Rightarrow> Ok ((received, transmitted) # rest))))"

section \<open>Rates\<close>

text \<open>The product is taken in 128 bits, where it fits (\<open>per_second_fits\<close>); a quotient that does
  not fit 64 bits is replaced by the largest value.\<close>

definition per_second :: "u64 \<Rightarrow> nat \<Rightarrow> u64" where
  "per_second delta nanos =
    (if nanos = 0 then 0
     else let quotient = unat delta * 1000000000 div nanos
          in if quotient < 2 ^ 64 then of_nat quotient else - 1)"

definition rate :: "counters \<Rightarrow> counters \<Rightarrow> nat \<Rightarrow> direction_rate" where
  "rate before after elapsed =
    \<lparr>dr_bytes_per_second = per_second (saturating_sub (c_bytes after) (c_bytes before)) elapsed,
     dr_packets_per_second = per_second (saturating_sub (c_packets after) (c_packets before)) elapsed,
     dr_errors = saturating_sub (c_errors after) (c_errors before),
     dr_dropped = saturating_sub (c_dropped after) (c_dropped before)\<rparr>"

definition sample_traffic :: "file_system \<Rightarrow> file_system \<Rightarrow> nat \<Rightarrow> string option \<Rightarrow> sample result" where
  "sample_traffic fs_before fs_after elapsed selection =
    (case interface_paths fs_before selection of
       Err e \<Rightarrow> Err e
     | Ok paths \<Rightarrow>
         (case read_all fs_before paths of
            Err e \<Rightarrow> Err e
          | Ok before \<Rightarrow>
              (case read_all fs_after paths of
                 Err e \<Rightarrow> Err e
               | Ok after \<Rightarrow>
                   Ok \<lparr>s_elapsed = elapsed,
                     s_interfaces = filter_map (\<lambda>(path, (b, a)).
                       map_option (\<lambda>interface.
                         \<lparr>ir_interface = interface, ir_received = rate (fst b) (fst a) elapsed,
                          ir_transmitted = rate (snd b) (snd a) elapsed\<rparr>)
                         (interface_of_path path))
                       (zip paths (zip before after))\<rparr>)))"

section \<open>Rates are exact\<close>

lemma per_second_fits: "unat (delta :: u64) * 1000000000 < 2 ^ 128"
  using unat_bounds(4) [of delta] by simp

lemma unat_per_second:
  assumes "0 < nanos"
  shows "unat (per_second delta nanos) = min (unat delta * 1000000000 div nanos) (2 ^ 64 - 1)"
proof (cases "unat delta * 1000000000 div nanos < 2 ^ 64")
  case True
  then have "unat (of_nat (unat delta * 1000000000 div nanos) :: u64) = unat delta * 1000000000 div nanos"
    by (simp add: unat_of_nat)
  with True assms show ?thesis
    by (simp add: per_second_def)
next
  case False
  then show ?thesis
    using assms by (simp add: per_second_def unsigned_minus_1_eq_mask mask_eq_exp_minus_1)
qed

text \<open>A rate is the counter increase per second rounded down: over the measured time it never
  accounts for more than the increase and for less than one unit per second too little, and a
  counter that was reset counts as no increase. It is never undefined, even for an interval of
  no time.\<close>

theorem rate_exact:
  "let delta = unat (c_bytes after) - unat (c_bytes before);
       r = unat (dr_bytes_per_second (rate before after nanos))
    in unat (dr_errors (rate before after nanos)) = unat (c_errors after) - unat (c_errors before)
      \<and> unat (dr_dropped (rate before after nanos)) = unat (c_dropped after) - unat (c_dropped before)
      \<and> r * nanos \<le> delta * 1000000000
      \<and> (nanos = 0 \<and> r = 0 \<or> r = 2 ^ 64 - 1 \<or> delta * 1000000000 < (r + 1) * nanos)"
proof -
  let ?delta = "saturating_sub (c_bytes after) (c_bytes before)"
  let ?product = "unat ?delta * 1000000000"
  let ?r = "unat (per_second ?delta nanos)"
  have "?r * nanos \<le> ?product \<and> (nanos = 0 \<and> ?r = 0 \<or> ?r = 2 ^ 64 - 1 \<or> ?product < (?r + 1) * nanos)"
  proof (cases "nanos = 0")
    case True
    then show ?thesis
      by (simp add: per_second_def)
  next
    case False
    then have r: "?r = min (?product div nanos) (2 ^ 64 - 1)"
      by (simp add: unat_per_second)
    then have "?r * nanos \<le> ?product div nanos * nanos"
      by (intro mult_right_mono) simp_all
    then have "?r * nanos \<le> ?product"
      by (rule order_trans) simp
    moreover have "?product < (?product div nanos + 1) * nanos"
      using False dividend_less_div_times [of nanos ?product] by (simp add: add.commute)
    ultimately show ?thesis
      using r False by (auto simp: min_def)
  qed
  then show ?thesis
    by (simp add: rate_def Let_def unat_saturating_sub)
qed

section \<open>A sample\<close>

text \<open>What the kernel publishes for an interface: each counter in decimal on a line.\<close>

definition publishes :: "file_system \<Rightarrow> string \<Rightarrow> string \<Rightarrow> counters \<Rightarrow> bool" where
  "publishes fs path direction c \<longleftrightarrow>
    list_all (\<lambda>(what, n). fs_read_to_string fs
        (path_join (path_join path ''statistics'') (direction @ what)) = Ok (decimal (unat n) @ [newline]))
      [(''_bytes'', c_bytes c), (''_packets'', c_packets c), (''_errors'', c_errors c),
       (''_dropped'', c_dropped c)]"

lemma read_counter_published:
  "fs_read_to_string fs path = Ok (decimal (unat n) @ [newline]) \<Longrightarrow> read_counter fs path = Ok n"
  by (simp add: read_counter_def trim_plain_line trimmed_decimal)

lemma read_direction_published: "publishes fs path direction c \<Longrightarrow> read_direction fs path direction = Ok c"
  by (simp add: read_direction_def Let_def publishes_def read_counter_published)

lemma read_all_published:
  "list_all (\<lambda>path. publishes fs path ''rx'' (rx path) \<and> publishes fs path ''tx'' (tx path)) paths \<Longrightarrow>
    read_all fs paths = Ok (map (\<lambda>path. (rx path, tx path)) paths)"
proof (induction paths)
  case (Cons path paths)
  then show ?case
    using read_direction_published [of fs path "''rx''" "rx path"]
      read_direction_published [of fs path "''tx''" "tx path"] by simp
qed simp

lemma zip_same_maps: "zip xs (zip (map f xs) (map g xs)) = map (\<lambda>x. (x, (f x, g x))) xs"
  by (induction xs) simp_all

lemma filter_map_map: "filter_map f (map g xs) = filter_map (f \<circ> g) xs"
  by (induction xs) (auto split: option.splits)

text \<open>C40: When the kernel publishes counters for every interface at both readings, a sample reports
  every interface with a UTF-8 name, in the order of the names, with the rate of each direction
  computed from that direction's own counters.\<close>

theorem sample_exact:
  assumes "fs_read_dir fs_before SYS_CLASS_NET = Ok (map Ok paths)" and "paths \<noteq> []"
    and "list_all (\<lambda>path. publishes fs_before path ''rx'' (rx0 path)
      \<and> publishes fs_before path ''tx'' (tx0 path)) paths"
    and "list_all (\<lambda>path. publishes fs_after path ''rx'' (rx1 path)
      \<and> publishes fs_after path ''tx'' (tx1 path)) paths"
  shows "sample_traffic fs_before fs_after elapsed None =
    Ok \<lparr>s_elapsed = elapsed,
      s_interfaces = filter_map (\<lambda>path. map_option (\<lambda>interface.
          \<lparr>ir_interface = interface, ir_received = rate (rx0 path) (rx1 path) elapsed,
           ir_transmitted = rate (tx0 path) (tx1 path) elapsed\<rparr>) (interface_of_path path))
        (sort paths)\<rparr>"
proof -
  have "sort paths \<noteq> []"
    using assms(2) by (metis set_empty set_sort)
  moreover have "filter_map result_option (map Ok paths) = paths"
    by (induction paths) simp_all
  ultimately have "interface_paths fs_before None = Ok (sort paths)"
    using assms(1) by (simp add: interface_paths_def Let_def)
  moreover have "read_all fs_before (sort paths) = Ok (map (\<lambda>path. (rx0 path, tx0 path)) (sort paths))"
    and "read_all fs_after (sort paths) = Ok (map (\<lambda>path. (rx1 path, tx1 path)) (sort paths))"
    using assms(3,4) by (auto intro!: read_all_published simp: list_all_iff)
  ultimately show ?thesis
    by (simp add: sample_traffic_def zip_same_maps filter_map_map comp_def)
qed

text \<open>A sample succeeds only if all eight counters of every selected interface could be read
  at both moments; an interface that disappears in between, or a counter that is no number, is an
  error and never a missing or zero row.\<close>

theorem sample_all_or_error:
  assumes "sample_traffic fs_before fs_after elapsed selection = Ok s"
  shows "\<exists>paths. interface_paths fs_before selection = Ok paths \<and> paths \<noteq> []
    \<and> map ir_interface (s_interfaces s) = filter_map interface_of_path paths
    \<and> list_all (\<lambda>path. list_all (\<lambda>fs. is_ok (read_direction fs path ''rx'')
        \<and> is_ok (read_direction fs path ''tx'')) [fs_before, fs_after]) paths"
proof -
  obtain paths before after where steps: "interface_paths fs_before selection = Ok paths"
      "read_all fs_before paths = Ok before" "read_all fs_after paths = Ok after"
    and s: "s_interfaces s = filter_map (\<lambda>(path, (b, a)). map_option (\<lambda>interface.
        \<lparr>ir_interface = interface, ir_received = rate (fst b) (fst a) elapsed,
         ir_transmitted = rate (snd b) (snd a) elapsed\<rparr>) (interface_of_path path))
      (zip paths (zip before after))"
    using assms by (auto simp: sample_traffic_def split: result.splits)
  have read: "read_all fs paths = Ok cs \<Longrightarrow> length cs = length paths
      \<and> list_all (\<lambda>path. is_ok (read_direction fs path ''rx'') \<and> is_ok (read_direction fs path ''tx'')) paths"
    for fs paths cs
    by (induction paths arbitrary: cs) (auto split: result.splits)
  have names: "length bs = length paths \<Longrightarrow> length as = length paths \<Longrightarrow>
      map ir_interface (filter_map (\<lambda>(path, (b, a)). map_option (\<lambda>interface.
        \<lparr>ir_interface = interface, ir_received = rate (fst b) (fst a) elapsed,
         ir_transmitted = rate (snd b) (snd a) elapsed\<rparr>) (interface_of_path path))
      (zip paths (zip bs as))) = filter_map interface_of_path paths" for paths bs as
  proof (induction paths arbitrary: bs as)
    case (Cons p ps)
    then show ?case
      by (cases bs; cases as) (auto split: option.splits)
  qed simp
  have "paths \<noteq> []"
    using steps(1) by (auto simp: interface_paths_def Let_def split: option.splits if_splits result.splits)
  with steps read [OF steps(2)] read [OF steps(3)] names [of before paths after] s show ?thesis
    by (auto simp: list_all_iff)
qed

definition example_sysfs :: "u64 \<Rightarrow> file_system" where
  "example_sysfs n =
    \<lparr>fs_is_dir = (\<lambda>path. True),
     fs_read_dir = (\<lambda>path. Ok [Ok ''/sys/class/net/lo'', Ok ''/sys/class/net/eth0'']),
     fs_read_to_string = (\<lambda>path. Ok (decimal (unat n) @ [newline]))\<rparr>"

definition equal_counters :: "u64 \<Rightarrow> counters" where
  "equal_counters n = \<lparr>c_bytes = n, c_packets = n, c_errors = n, c_dropped = n\<rparr>"

lemma example_published: "publishes (example_sysfs n) path direction (equal_counters n)"
  by (simp add: publishes_def example_sysfs_def equal_counters_def)

lemma example_interfaces:
  "interface_of_path ''/sys/class/net/lo'' = Some ''lo''"
  "interface_of_path ''/sys/class/net/eth0'' = Some ''eth0''"
  "sort [''/sys/class/net/lo'', ''/sys/class/net/eth0''] = [''/sys/class/net/eth0'', ''/sys/class/net/lo'']"
  by code_simp+

theorem sample_exact_witness:
  "sample_traffic (example_sysfs 100) (example_sysfs 2100) 500000000 None =
    Ok \<lparr>s_elapsed = 500000000,
      s_interfaces = map (\<lambda>name. \<lparr>ir_interface = name,
          ir_received = rate (equal_counters 100) (equal_counters 2100) 500000000,
          ir_transmitted = rate (equal_counters 100) (equal_counters 2100) 500000000\<rparr>)
        [''eth0'', ''lo'']\<rparr>"
proof -
  let ?paths = "[''/sys/class/net/lo'', ''/sys/class/net/eth0'']"
  have "fs_read_dir (example_sysfs 100) SYS_CLASS_NET = Ok (map Ok ?paths)"
    by (simp add: example_sysfs_def)
  from sample_exact [OF this, where fs_after = "example_sysfs 2100" and elapsed = 500000000
      and ?rx0.0 = "\<lambda>_. equal_counters 100" and ?tx0.0 = "\<lambda>_. equal_counters 100"
      and ?rx1.0 = "\<lambda>_. equal_counters 2100" and ?tx1.0 = "\<lambda>_. equal_counters 2100"]
  show ?thesis
    by (simp add: example_published example_interfaces del: sort_key_simps)
qed

theorem sample_all_or_error_witness:
  "\<exists>s. sample_traffic (example_sysfs 1) (example_sysfs 1) 1000 (Some ''lo'') = Ok s
    \<and> map ir_interface (s_interfaces s) = [''lo'']"
proof -
  have paths: "interface_paths (example_sysfs 1) (Some ''lo'') = Ok [''/sys/class/net/lo'']"
    by (simp add: interface_paths_def Let_def example_sysfs_def path_join_def SYS_CLASS_NET_def)
  have "read_all (example_sysfs 1) [''/sys/class/net/lo''] =
      Ok (map (\<lambda>path. (equal_counters 1, equal_counters 1)) [''/sys/class/net/lo''])"
    by (rule read_all_published) (simp add: example_published)
  with paths obtain s where s: "sample_traffic (example_sysfs 1) (example_sysfs 1) 1000 (Some ''lo'') = Ok s"
    by (simp add: sample_traffic_def)
  with sample_all_or_error [OF s] paths show ?thesis
    by (auto simp: example_interfaces)
qed

end
