(* ===== verification/Ping.thy ===== *)
theory Ping
  imports Message_Loop Net_Types
begin

text \<open>
  \<open>ping.rs\<close>: the internet checksum, the echo request, and the measurement loop of \<open>echo\<close> over
  an unprivileged ICMP socket. The socket is a parameter: the answers to its calls and the
  datagrams that arrive during each attempt; those that are not read stay queued for the next.
\<close>

section \<open>The checksum\<close>

text \<open>\<open>bytes.chunks(2)\<close>, with a missing second byte read as zero.\<close>

fun be_words :: "bytes \<Rightarrow> u16 list" where
  "be_words [] = []"
| "be_words [a] = [of_be_bytes [a, 0]]"
| "be_words (a # b # rest) = of_be_bytes [a, b] # be_words rest"

lemma fold_carries_decreases:
  "(0xFFFF :: u32) < tally \<Longrightarrow> unat ((tally AND 0xFFFF) + drop_bit 16 tally) < unat tally"
proof -
  assume "0xFFFF < tally"
  then have large: "65536 \<le> unat tally"
    by (simp add: word_less_nat_alt)
  have "(mask 16 :: u32) = 0xFFFF"
    by (simp add: mask_eq_exp_minus_1)
  then have "unat (tally AND 0xFFFF) = unat tally mod 65536"
    using unat_and_mask [of tally 16] by simp
  moreover have "unat (drop_bit 16 tally) = unat tally div 65536"
    by (simp add: drop_bit_eq_div unat_div_distrib)
  moreover have "unat tally mod 65536 + unat tally div 65536 < unat tally"
    using large div_mult_mod_eq [of "unat tally" 65536] mod_less_divisor [of 65536 "unat tally"]
    by linarith
  moreover have "unat tally < 2 ^ 32"
    using unat_bounds(3) [of tally] by simp
  ultimately show ?thesis
    by (simp add: unat_word_ariths)
qed

function fold_carries :: "u32 \<Rightarrow> u32" where
  "fold_carries tally =
    (if 0xFFFF < tally then fold_carries ((tally AND 0xFFFF) + drop_bit 16 tally) else tally)"
  by pat_completeness auto
termination
  by (relation "measure unat") (simp_all only: in_measure wf_measure fold_carries_decreases)

declare fold_carries.simps [simp del]

definition word_sum :: "bytes \<Rightarrow> u32" where
  "word_sum bs = foldl (\<lambda>tally word. tally + ucast word) 0 (be_words bs)"

definition checksum :: "bytes \<Rightarrow> u16" where
  "checksum bs = NOT (ucast (fold_carries (word_sum bs)))"

section \<open>The request\<close>

definition echo_request :: "u16 \<Rightarrow> bytes" where
  "echo_request sequence =
    (let packet = [8, 0, 0, 0, 0, 0] @ to_be_bytes 2 sequence @ as_bytes ''networkr''
     in take 2 packet @ to_be_bytes 2 (checksum packet) @ drop 4 packet)"

section \<open>The measurement\<close>

record ping_result =
  p_transmitted :: u32
  p_received :: u32
  p_minimum :: "nat option"
  p_average :: "nat option"
  p_maximum :: "nat option"

text \<open>One attempt: what \<open>sendto\<close> and \<open>poll\<close> answer, the datagrams that arrive before \<open>poll\<close>
  returns, and the time that has passed when \<open>recv\<close> has returned.\<close>

record attempt =
  at_send :: "i32 option"
  at_poll :: "i32 option"
  at_arrivals :: "recv_outcome list"
  at_elapsed :: nat

text \<open>\<open>received >= 8 && response[0] == 0 && ...\<close> on the zeroed buffer of 256 bytes.\<close>

definition is_reply_to :: "u16 \<Rightarrow> recv_outcome \<Rightarrow> bool" where
  "is_reply_to sequence outcome =
    (case outcome of
       RecvFailed _ \<Rightarrow> False
     | Received datagram \<Rightarrow>
         let response = take 256 datagram
         in 8 \<le> length response \<and> response ! 0 = 0 \<and> of_be_bytes [response ! 6, response ! 7] = sequence)"

text \<open>The loop, with the queue of the socket and the times measured so far.\<close>

fun echo_loop ::
  "attempt list \<Rightarrow> u32 \<Rightarrow> recv_outcome list \<Rightarrow> nat list \<Rightarrow> nat list result" where
  "echo_loop [] sequence queue elapsed = Ok elapsed"
| "echo_loop (a # attempts) sequence queue elapsed =
    (case at_send a of
       Some code \<Rightarrow> Err (Os code)
     | None \<Rightarrow>
         (case at_poll a of
            Some code \<Rightarrow> Err (Os code)
          | None \<Rightarrow>
              (case queue @ at_arrivals a of
                 [] \<Rightarrow> echo_loop attempts (sequence + 1) [] elapsed
               | outcome # queue' \<Rightarrow>
                   echo_loop attempts (sequence + 1) queue'
                     (if is_reply_to (ucast sequence) outcome then elapsed @ [at_elapsed a]
                      else elapsed))))"

definition statistics :: "u32 \<Rightarrow> nat list \<Rightarrow> ping_result" where
  "statistics transmitted measured =
    (let elapsed = sort measured
     in \<lparr>p_transmitted = transmitted,
         p_received = of_nat (length elapsed),
         p_minimum = first_opt elapsed,
         p_average =
           (if elapsed = [] then None
            else let mean = sum_list elapsed div length elapsed
                 in Some (if mean < 2 ^ 64 then mean else 2 ^ 64 - 1)),
         p_maximum = last_opt elapsed\<rparr>)"

text \<open>\<open>attempts\<close> has one entry for each of the \<open>count\<close> requests.\<close>

definition echo :: "i32 option \<Rightarrow> attempt list \<Rightarrow> ping_result result" where
  "echo socket_error attempts =
    (case socket_error of
       Some code \<Rightarrow> Err (Os code)
     | None \<Rightarrow>
         (case echo_loop attempts 0 [] [] of
            Err e \<Rightarrow> Err e
          | Ok elapsed \<Rightarrow> Ok (statistics (of_nat (length attempts)) elapsed)))"

section \<open>Ones' complement arithmetic\<close>

lemma unat_fold_carries:
  "unat (fold_carries tally) =
    (if tally = 0 then 0 else if unat tally mod 65535 = 0 then 65535 else unat tally mod 65535)"
proof (induction tally rule: fold_carries.induct)
  case (1 tally)
  show ?case
  proof (cases "0xFFFF < tally")
    case True
    let ?next = "(tally AND 0xFFFF) + drop_bit 16 tally"
    have "(mask 16 :: u32) = 0xFFFF"
      by (simp add: mask_eq_exp_minus_1)
    then have low: "unat (tally AND 0xFFFF) = unat tally mod 65536"
      using unat_and_mask [of tally 16] by simp
    have high: "unat (drop_bit 16 tally) = unat tally div 65536"
      by (simp add: drop_bit_eq_div unat_div_distrib)
    have large: "65536 \<le> unat tally"
      using True by (simp add: word_less_nat_alt)
    have bound: "unat tally < 2 ^ 32"
      using unat_bounds(3) [of tally] by simp
    have sum: "unat ?next = unat tally mod 65536 + unat tally div 65536"
    proof -
      have "unat tally mod 65536 + unat tally div 65536 < 2 ^ 32"
        using bound mod_less_eq_dividend [of "unat tally" 65536]
          div_mult_mod_eq [of "unat tally" 65536] mod_less_divisor [of 65536 "unat tally"]
        by linarith
      then show ?thesis
        by (simp add: unat_word_ariths low high)
    qed
    have "unat tally = unat ?next + unat tally div 65536 * 65535"
      using div_mult_mod_eq [of "unat tally" 65536] sum by simp
    then have "unat ?next mod 65535 = unat tally mod 65535"
      by (metis mod_mult_self1)
    moreover have "unat ?next \<noteq> 0"
      using large sum div_mult_mod_eq [of "unat tally" 65536] by (auto simp: div_eq_0_iff)
    moreover have "tally \<noteq> 0"
      using large by auto
    ultimately show ?thesis
      using 1 [OF True] True by (subst fold_carries.simps) (auto simp: unat_eq_0)
  next
    case False
    then have small: "unat tally \<le> 65535"
      by (simp add: word_less_nat_alt not_less)
    then have "unat tally mod 65535 = (if unat tally = 65535 then 0 else unat tally)"
      by auto
    then show ?thesis
      using False by (subst fold_carries.simps) (auto simp: unat_eq_0)
  qed
qed

lemma be_words_append: "even (length a) \<Longrightarrow> be_words (a @ b) = be_words a @ be_words b"
  by (induction a rule: be_words.induct) simp_all

lemma length_be_words: "length (be_words bs) = (length bs + 1) div 2"
  by (induction bs rule: be_words.induct) simp_all

definition word_total :: "u16 list \<Rightarrow> nat" where
  "word_total ws = sum_list (map unat ws)"

lemma word_total_bound: "word_total ws \<le> length ws * 65535"
proof (induction ws)
  case (Cons w ws)
  then show ?case
    using unat_bounds(2) [of w] by (simp add: word_total_def)
qed (simp add: word_total_def)

lemma unat_word_sum:
  assumes "length bs < 2 ^ 17"
  shows "unat (word_sum bs) = word_total (be_words bs)"
proof -
  have steps: "unat s + length ws * 65535 < 2 ^ 32 \<Longrightarrow>
      unat (foldl (\<lambda>tally word. tally + ucast word) s ws) = unat s + word_total ws" for s :: u32 and ws
  proof (induction ws arbitrary: s)
    case (Cons w ws)
    have "unat (ucast w :: u32) = unat w"
      using unat_bounds(2) [of w] by (simp add: unsigned_ucast_eq take_bit_nat_eq_self)
    moreover have "unat w \<le> 65535"
      using unat_bounds(2) [of w] by linarith
    ultimately have "unat (s + ucast w) = unat s + unat w"
      using Cons.prems by (simp add: unat_word_ariths)
    with Cons \<open>unat w \<le> 65535\<close> show ?case
      by (simp add: word_total_def)
  qed (simp add: word_total_def)
  have "length (be_words bs) * 65535 < 2 ^ 32"
    using assms by (simp add: length_be_words)
  then show ?thesis
    using steps [of 0 "be_words bs"] by (simp add: word_sum_def)
qed

lemma unat_checksum:
  assumes "length bs < 2 ^ 17"
  shows "unat (checksum bs) =
    65535 - (if word_total (be_words bs) = 0 then 0
      else if word_total (be_words bs) mod 65535 = 0 then 65535 else word_total (be_words bs) mod 65535)"
proof -
  let ?f = "fold_carries (word_sum bs)"
  have f: "unat ?f = (if word_total (be_words bs) = 0 then 0
      else if word_total (be_words bs) mod 65535 = 0 then 65535 else word_total (be_words bs) mod 65535)"
    by (simp add: unat_fold_carries unat_word_sum [OF assms] flip: unat_eq_0)
  then have "unat ?f \<le> 65535"
    by (auto intro: less_imp_le)
  then have "unat (ucast ?f :: u16) = unat ?f"
    by (simp add: unsigned_ucast_eq take_bit_nat_eq_self)
  moreover have "unat (NOT w) = 65535 - unat w" for w :: u16
  proof -
    have "NOT w = - 1 - w"
      by (simp add: not_eq_complement)
    moreover have "unat w \<le> 65535"
      using unat_bounds(2) [of w] by linarith
    then have "unat (- 1 - w) = unat (- 1 :: u16) - unat w"
      by (intro unat_sub) (simp add: word_le_nat_alt unsigned_minus_1_eq_mask mask_eq_exp_minus_1)
    ultimately show ?thesis
      by (simp add: unsigned_minus_1_eq_mask mask_eq_exp_minus_1)
  qed
  ultimately show ?thesis
    using f by (simp add: checksum_def)
qed

lemma of_to_be_bytes_2: "be_words (to_be_bytes 2 w @ rest) = w # be_words rest" for w :: u16
proof -
  obtain a b where bytes: "to_be_bytes 2 w = [a, b]"
    by (simp add: to_be_bytes_def numeral_2_eq_2)
  then have "rev [a, b] = to_le_bytes 2 w"
    by (metis rev_rev_ident to_be_bytes_def)
  then have "of_be_bytes [a, b] = w"
    by (simp only: of_be_bytes_def) simp
  with bytes show ?thesis
    by simp
qed

lemma complement_mod:
  fixes n m :: nat
  assumes "0 < m"
  shows "(n + (m - n mod m)) mod m = 0"
proof -
  have "n + (m - n mod m) = (n div m + 1) * m"
    using mod_less_divisor [OF assms, of n] div_mult_mod_eq [of n m]
    unfolding add_mult_distrib mult_1 by linarith
  then show ?thesis
    by simp
qed

lemma checksum_inserted:
  assumes "even (length a)" and "length a + length b + 2 < 2 ^ 17"
  shows "checksum (a @ to_be_bytes 2 (checksum (a @ [0, 0] @ b)) @ b) = 0"
proof -
  let ?c = "checksum (a @ [0, 0] @ b)"
  let ?total = "word_total (be_words a) + word_total (be_words b)"
  have "of_be_bytes [0, 0 :: byte] = (0 :: u16)"
    by (simp add: of_be_bytes_def)
  then have before: "word_total (be_words (a @ [0, 0] @ b)) = ?total"
    using assms(1) by (simp add: be_words_append word_total_def)
  have after: "word_total (be_words (a @ to_be_bytes 2 ?c @ b)) = ?total + unat ?c"
    using assms(1) by (simp add: be_words_append of_to_be_bytes_2 word_total_def)
  have c: "unat ?c = 65535 - (if ?total = 0 then 0 else if ?total mod 65535 = 0 then 65535 else ?total mod 65535)"
    using unat_checksum [of "a @ [0, 0] @ b"] assms(2) by (simp only: before) simp
  have complement: "(?total + (65535 - ?total mod 65535)) mod 65535 = 0"
    by (rule complement_mod) simp
  have "?total + unat ?c \<noteq> 0"
    unfolding c by (simp only: add_eq_0_iff_both_eq_0) simp
  moreover have "(?total + unat ?c) mod 65535 = 0"
    unfolding c using complement by (simp only: split: if_split) simp
  ultimately have "unat (checksum (a @ to_be_bytes 2 ?c @ b)) = 0"
    using unat_checksum [of "a @ to_be_bytes 2 ?c @ b"] assms(2) by (simp only: after) simp
  then show ?thesis
    by (simp add: unat_eq_0)
qed

lemma is_reply_to_bytes:
  "is_reply_to sequence (Received ([kind, b, c, d, e, f, g, h] @ rest)) \<longleftrightarrow>
    kind = 0 \<and> of_be_bytes [g, h] = sequence"
proof -
  have "take 256 ([kind, b, c, d, e, f, g, h] @ rest) = [kind, b, c, d, e, f, g, h] @ take 248 rest"
    by simp
  then show ?thesis
    by (simp add: is_reply_to_def Let_def)
qed

text \<open>C31: Writing the checksum of a packet into its zeroed checksum field gives a packet whose
  checksum is zero, wherever the field is and whatever the carries; the echo request of every
  sequence number is such a packet.\<close>

theorem checksum_valid:
  assumes "even (length a)" and "length a + length b + 2 < 2 ^ 17"
  shows "checksum (a @ to_be_bytes 2 (checksum (a @ [0, 0] @ b)) @ b) = 0
    \<and> checksum (echo_request sequence) = 0
    \<and> length (echo_request sequence) = 16
    \<and> is_reply_to sequence (Received (0 # tl (echo_request sequence)))"
proof -
  let ?tail = "[0, 0] @ to_be_bytes 2 sequence @ as_bytes ''networkr''"
  have request: "echo_request sequence = [8, 0] @ to_be_bytes 2 (checksum ([8, 0] @ [0, 0] @ ?tail)) @ ?tail"
    by (simp add: echo_request_def Let_def)
  have length: "length (echo_request sequence) = 16"
    by (simp add: request as_bytes_def)
  have zero: "checksum (echo_request sequence) = 0"
    unfolding request by (rule checksum_inserted) (simp_all add: as_bytes_def)
  obtain c d where field: "to_be_bytes 2 (checksum ([8, 0] @ [0, 0] @ ?tail)) = [c, d]"
    by (simp add: to_be_bytes_def numeral_2_eq_2)
  obtain e f where bytes: "to_be_bytes 2 sequence = [e, f]"
    by (simp add: to_be_bytes_def numeral_2_eq_2)
  have "of_be_bytes [e, f] = sequence"
    using of_to_be_bytes_2 [of sequence "[]"] bytes by simp
  moreover have "0 # tl (echo_request sequence) = [0, 0, c, d, 0, 0, e, f] @ as_bytes ''networkr''"
    unfolding request field by (simp add: bytes)
  ultimately have "is_reply_to sequence (Received (0 # tl (echo_request sequence)))"
    by (simp add: is_reply_to_bytes del: append.simps)
  then show ?thesis
    using checksum_inserted [OF assms] length zero by simp
qed

theorem checksum_valid_witness:
  "checksum (echo_request 7) = 0 \<and> checksum ([69, 0] @ to_be_bytes 2 (checksum ([69, 0] @ [0, 0] @ [1])) @ [1]) = 0"
  using checksum_valid [of "[69, 0]" "[1]" 7] by simp

section \<open>The statistics\<close>

lemma echo_loop_length:
  "echo_loop attempts sequence queue elapsed = Ok measured \<Longrightarrow>
    length measured \<le> length elapsed + length attempts
    \<and> set measured \<subseteq> set elapsed \<union> at_elapsed ` set attempts"
  by (induction attempts sequence queue elapsed rule: echo_loop.induct)
    (fastforce split: option.splits list.splits if_splits)+

lemma mean_bounds:
  fixes xs :: "nat list"
  assumes "xs \<noteq> []" and "\<And>x. x \<in> set xs \<Longrightarrow> lo \<le> x \<and> x \<le> hi"
  shows "lo \<le> sum_list xs div length xs \<and> sum_list xs div length xs \<le> hi"
proof -
  have "lo * length ys \<le> sum_list ys \<and> sum_list ys \<le> hi * length ys"
    if "\<And>x. x \<in> set ys \<Longrightarrow> lo \<le> x \<and> x \<le> hi" for ys
    using that by (induction ys) (auto intro: add_mono)
  then have "lo * length xs \<le> sum_list xs" and "sum_list xs \<le> hi * length xs"
    using assms(2) by auto
  then show ?thesis
    using assms(1) div_le_mono [of "lo * length xs" "sum_list xs" "length xs"]
      div_le_mono [of "sum_list xs" "hi * length xs" "length xs"] by simp
qed

lemma sorted_first_last:
  fixes xs :: "nat list"
  assumes "sorted xs" and "xs \<noteq> []"
  shows "\<exists>lo hi. first_opt xs = Some lo \<and> last_opt xs = Some hi \<and> (\<forall>x \<in> set xs. lo \<le> x \<and> x \<le> hi)"
proof -
  obtain y ys where xs: "xs = y # ys"
    using assms(2) by (cases xs) auto
  have "x \<le> last xs" if "x \<in> set xs" for x
    using assms that by (cases xs rule: rev_cases) (auto simp: sorted_append)
  then show ?thesis
    using assms(1) by (auto simp: xs)
qed

lemma first_last_members: "first_opt xs = Some a \<Longrightarrow> a \<in> set xs" "last_opt xs = Some a \<Longrightarrow> a \<in> set xs"
  using last_in_set [of xs] by (cases xs; force)+

text \<open>C39: The summary of a measurement is consistent: it never counts more replies than requests,
  reports times exactly when a reply arrived, and the lowest, mean and highest time are in
  order and were measured.\<close>

theorem echo_statistics:
  assumes "echo socket_error attempts = Ok r" and "length attempts < 2 ^ 32"
    and "list_all (\<lambda>a. at_elapsed a < 2 ^ 64) attempts"
  shows "unat (p_transmitted r) = length attempts \<and> unat (p_received r) \<le> length attempts
    \<and> (if p_received r = 0 then p_minimum r = None \<and> p_average r = None \<and> p_maximum r = None
       else \<exists>lo mean hi. p_minimum r = Some lo \<and> p_average r = Some mean \<and> p_maximum r = Some hi
         \<and> lo \<le> mean \<and> mean \<le> hi \<and> {lo, hi} \<subseteq> at_elapsed ` set attempts)"
proof -
  obtain measured where loop: "echo_loop attempts 0 [] [] = Ok measured"
    and r: "r = statistics (of_nat (length attempts)) measured"
    using assms(1) by (auto simp: echo_def split: option.splits result.splits)
  have len: "length measured \<le> length attempts" and sub: "set measured \<subseteq> at_elapsed ` set attempts"
    using echo_loop_length [OF loop] by auto
  then have received: "unat (of_nat (length measured) :: u32) = length measured"
    using assms(2) by (simp add: unat_of_nat)
  then have none: "(of_nat (length measured) :: u32) = 0 \<longleftrightarrow> measured = []"
    by (metis length_0_conv unat_0 unat_eq_0)
  show ?thesis
  proof (cases "measured = []")
    case True
    then show ?thesis
      using assms(2) by (simp add: r statistics_def unat_of_nat)
  next
    case False
    then have "sort measured \<noteq> []"
      by (metis set_empty set_sort)
    from sorted_first_last [OF sorted_sort this]
    obtain lo hi where ends: "first_opt (sort measured) = Some lo" "last_opt (sort measured) = Some hi"
        "\<forall>x \<in> set measured. lo \<le> x \<and> x \<le> hi"
      by auto
    have members: "{lo, hi} \<subseteq> set measured"
      using first_last_members(1) [OF ends(1)] first_last_members(2) [OF ends(2)] by simp
    let ?mean = "sum_list (sort measured) div length (sort measured)"
    from \<open>sort measured \<noteq> []\<close> have mean: "lo \<le> ?mean \<and> ?mean \<le> hi"
      by (rule mean_bounds) (simp add: ends(3))
    have "hi < 2 ^ 64"
      using members sub assms(3) by (auto simp: list_all_iff)
    with mean have small: "?mean < 2 ^ 64"
      by linarith
    have "p_minimum r = Some lo" "p_maximum r = Some hi" "p_average r = Some ?mean"
      using \<open>sort measured \<noteq> []\<close> ends(1,2) small by (simp_all add: r statistics_def Let_def del: length_sort)
    moreover have "unat (p_transmitted r) = length attempts" "p_received r = of_nat (length measured)"
      using assms(2) by (simp_all add: r statistics_def unat_of_nat Let_def)
    moreover have "{lo, hi} \<subseteq> at_elapsed ` set attempts"
      using members sub by (rule subset_trans)
    ultimately show ?thesis
      using mean len received none False by simp
  qed
qed

definition attempt_with :: "recv_outcome list \<Rightarrow> nat \<Rightarrow> attempt" where
  "attempt_with arrivals elapsed =
    \<lparr>at_send = None, at_poll = None, at_arrivals = arrivals, at_elapsed = elapsed\<rparr>"

text \<open>The kernel's answer to a request: the same packet with type 0.\<close>

definition echo_reply :: "u16 \<Rightarrow> recv_outcome" where
  "echo_reply sequence = Received (0 # tl (echo_request sequence))"

lemma echo_reply_matches: "is_reply_to t (echo_reply s) \<longleftrightarrow> s = t"
proof -
  obtain g h where bytes: "to_be_bytes 2 s = [g, h]"
    by (simp add: to_be_bytes_def numeral_2_eq_2)
  have seq: "of_be_bytes [g, h] = s"
    using of_to_be_bytes_2 [of s "[]"] bytes by simp
  let ?tail = "[0, 0] @ to_be_bytes 2 s @ as_bytes ''networkr''"
  obtain c d where field: "to_be_bytes 2 (checksum ([8, 0] @ [0, 0] @ ?tail)) = [c, d]"
    by (simp add: to_be_bytes_def numeral_2_eq_2)
  have "echo_request s = [8, 0] @ to_be_bytes 2 (checksum ([8, 0] @ [0, 0] @ ?tail)) @ ?tail"
    by (simp add: echo_request_def Let_def)
  then have "0 # tl (echo_request s) = [0, 0, c, d, 0, 0, g, h] @ as_bytes ''networkr''"
    unfolding field by (simp add: bytes)
  then show ?thesis
    by (simp add: echo_reply_def is_reply_to_bytes seq del: append.simps)
qed

theorem echo_statistics_witness:
  "\<exists>r. echo None [attempt_with [echo_reply 0] 30, attempt_with [] 99, attempt_with [echo_reply 2] 11] = Ok r
    \<and> p_minimum r = Some 11 \<and> p_average r = Some 20 \<and> p_maximum r = Some 30
    \<and> unat (p_received r) \<le> 3"
proof -
  let ?attempts = "[attempt_with [echo_reply 0] 30, attempt_with [] 99, attempt_with [echo_reply 2] 11]"
  have run: "echo None ?attempts = Ok (statistics 3 [30, 11])"
    by (simp add: echo_def attempt_with_def echo_reply_matches)
  have "statistics 3 [30, 11] =
      \<lparr>p_transmitted = 3, p_received = 2, p_minimum = Some 11, p_average = Some 20, p_maximum = Some 30\<rparr>"
    by (simp add: statistics_def Let_def flip: numeral_2_eq_2)
  then show ?thesis
    using echo_statistics [OF run] run by (simp add: attempt_with_def)
qed

section \<open>Replies and requests\<close>

fun answered_in_time :: "u32 \<Rightarrow> attempt list \<Rightarrow> bool" where
  "answered_in_time sequence [] = True"
| "answered_in_time sequence (a # attempts) \<longleftrightarrow>
    at_send a = None \<and> at_poll a = None
    \<and> (case at_arrivals a of
         [] \<Rightarrow> True
       | [outcome] \<Rightarrow> is_reply_to (ucast sequence) outcome
       | _ \<Rightarrow> False)
    \<and> answered_in_time (sequence + 1) attempts"

lemma echo_loop_in_time:
  "answered_in_time sequence attempts \<Longrightarrow> echo_loop attempts sequence [] elapsed =
    Ok (elapsed @ map at_elapsed (filter (\<lambda>a. at_arrivals a \<noteq> []) attempts))"
  by (induction attempts arbitrary: sequence elapsed) (auto split: list.splits)

text \<open>As long as no reply is late, the measurement counts exactly the requests that were
  answered, each with its own time.\<close>

theorem echo_in_time:
  assumes "answered_in_time 0 attempts"
  shows "echo None attempts =
    Ok (statistics (of_nat (length attempts)) (map at_elapsed (filter (\<lambda>a. at_arrivals a \<noteq> []) attempts)))"
  using echo_loop_in_time [OF assms, of "[]"] by (simp add: echo_def)

theorem echo_in_time_witness:
  "echo None [attempt_with [echo_reply 0] 30, attempt_with [] 99, attempt_with [echo_reply 2] 11] =
    Ok (statistics 3 [30, 11])"
  by (subst echo_in_time) (simp_all add: attempt_with_def echo_reply_matches)

fun answered_at_once :: "(u32 \<Rightarrow> recv_outcome) \<Rightarrow> u32 \<Rightarrow> attempt list \<Rightarrow> bool" where
  "answered_at_once reply sequence [] = True"
| "answered_at_once reply sequence (a # attempts) \<longleftrightarrow>
    at_send a = None \<and> at_poll a = None \<and> at_arrivals a = [reply sequence]
    \<and> answered_at_once reply (sequence + 1) attempts"

lemma is_reply_to_unique: "is_reply_to s outcome \<Longrightarrow> is_reply_to t outcome \<Longrightarrow> s = t"
  by (auto simp: is_reply_to_def Let_def split: recv_outcome.splits)

lemma ucast_Suc_neq: "(ucast (s + 1) :: u16) \<noteq> ucast s" for s :: u32
proof
  assume "(ucast (s + 1) :: u16) = ucast s"
  moreover have low: "unat (ucast w :: u16) = unat w mod 65536" for w :: u32
    by (simp add: unsigned_ucast_eq take_bit_eq_mod)
  moreover have "unat (s + 1) mod 65536 = Suc (unat s) mod 65536"
    by (simp add: unat_word_ariths mod_mod_cancel)
  ultimately have "Suc (unat s) mod 65536 = unat s mod 65536"
    by metis
  then show False
    by (simp add: mod_Suc split: if_splits)
qed

lemma echo_loop_behind:
  assumes "\<And>i. is_reply_to (ucast i) (reply i)"
  shows "answered_at_once reply (sequence + 1) attempts \<Longrightarrow>
    echo_loop attempts (sequence + 1) [reply sequence] elapsed = Ok elapsed"
proof (induction attempts arbitrary: sequence)
  case (Cons a attempts)
  have "\<not> is_reply_to (ucast (sequence + 1)) (reply sequence)"
    using is_reply_to_unique [OF assms [of sequence]] ucast_Suc_neq [of sequence] by metis
  then show ?case
    using Cons.prems Cons.IH [of "sequence + 1"] by simp
qed simp

text \<open>C38: One late reply makes the rest of the measurement count as lost: when the reply to the
  first request arrives only after its timeout, each later attempt reads the reply of the
  attempt before it, so no reply is ever counted although every one of them arrived in time.\<close>

theorem late_reply_desynchronises:
  assumes "\<And>i. is_reply_to (ucast i) (reply i)"
    and "answered_at_once reply 2 rest"
  shows "echo None (attempt_with [] t0 # attempt_with [reply 0, reply 1] t1 # rest) =
    Ok (statistics (of_nat (length rest + 2)) [])"
proof -
  have "\<not> is_reply_to (ucast (1 :: u32)) (reply 0)"
    using is_reply_to_unique [OF assms(1) [of 0]] ucast_Suc_neq [of 0] by (metis add_0)
  moreover have "echo_loop rest 2 [reply 1] [] = Ok []"
    using echo_loop_behind [of reply 1 rest "[]"] assms by simp
  ultimately show ?thesis
    by (simp add: echo_def attempt_with_def numeral_2_eq_2 [symmetric])
qed

theorem late_reply_desynchronises_witness:
  "\<exists>r. echo None (attempt_with [] 9 # attempt_with [echo_reply 0, echo_reply 1] 5
      # map (\<lambda>i. attempt_with [echo_reply i] 5) [2, 3, 4]) = Ok r
    \<and> p_transmitted r = 5 \<and> p_received r = 0"
  using late_reply_desynchronises [of "\<lambda>i. echo_reply (ucast i)"
      "map (\<lambda>i. attempt_with [echo_reply i] 5) [2, 3, 4]" 9 5]
  by (simp add: echo_reply_matches attempt_with_def statistics_def)

end
