(* ===== verification/Resolver.thy ===== *)
theory Resolver
  imports Text_Layout
begin

text \<open>
  \<open>resolver.rs\<close>: reverse lookups spread over at most eight workers, the socket addresses they
  are made with, and the name servers of \<open>resolv.conf\<close>. The library function \<open>getnameinfo\<close>
  and the file are parameters.
\<close>

section \<open>Workers\<close>

text \<open>\<open>slice.chunks(n)\<close>; the source asks for a positive size.\<close>

function chunks :: "nat \<Rightarrow> 'a list \<Rightarrow> 'a list list" where
  "chunks n xs = (if xs = [] \<or> n = 0 then [] else take n xs # chunks n (drop n xs))"
  by pat_completeness auto
termination
  by (relation "measure (\<lambda>(n, xs). length xs)") auto

declare chunks.simps [simp del]

definition div_ceil :: "nat \<Rightarrow> nat \<Rightarrow> nat" where
  "div_ceil a b = (if a mod b = 0 then a div b else a div b + 1)"

definition MAX_WORKERS :: nat where
  "MAX_WORKERS = 8"

definition worker_chunks :: "ip_addr list \<Rightarrow> ip_addr list list" where
  "worker_chunks addresses =
    (let worker_count = min (length addresses) MAX_WORKERS
     in chunks (div_ceil (length addresses) worker_count) addresses)"

text \<open>One worker collects its answers into a map; a worker that panics is left out.\<close>

definition worker_names :: "(ip_addr \<Rightarrow> string option) \<Rightarrow> ip_addr list \<Rightarrow> ip_addr \<rightharpoonup> string" where
  "worker_names reverse_name chunk =
    map_of (rev (filter_map (\<lambda>a. map_option (\<lambda>name. (a, name)) (reverse_name a)) chunk))"

definition reverse_names ::
  "(nat \<Rightarrow> bool) \<Rightarrow> (ip_addr \<Rightarrow> string option) \<Rightarrow> ip_addr list \<Rightarrow> ip_addr \<rightharpoonup> string" where
  "reverse_names panics reverse_name addresses =
    (if addresses = [] then Map.empty
     else foldl (\<lambda>names (i, chunk). if panics i then names else names ++ worker_names reverse_name chunk)
       Map.empty (enumerate 0 (worker_chunks addresses)))"

section \<open>One lookup\<close>

definition sockaddr_bytes :: "ip_addr \<Rightarrow> bytes" where
  "sockaddr_bytes address =
    (case address of
       V4 a \<Rightarrow> to_le_bytes 2 (2 :: u16) @ to_le_bytes 2 (0 :: u16)
         @ to_le_bytes 4 (of_le_bytes (ipv4_octets a) :: u32) @ replicate 8 0
     | V6 a \<Rightarrow> to_le_bytes 2 (10 :: u16) @ to_le_bytes 2 (0 :: u16) @ to_le_bytes 4 (0 :: u32)
         @ ipv6_octets a @ to_le_bytes 4 (0 :: u32))"

text \<open>\<open>to_string_lossy\<close>: the longest prefix of a scalar at a malformed position becomes one
  replacement character U+FFFD.\<close>

definition second_ok :: "byte \<Rightarrow> byte \<Rightarrow> bool" where
  "second_ok b c \<longleftrightarrow> continuation c \<and> (b = 0xE0 \<longrightarrow> 0xA0 \<le> c) \<and> (b = 0xED \<longrightarrow> c \<le> 0x9F)
    \<and> (b = 0xF0 \<longrightarrow> 0x90 \<le> c) \<and> (b = 0xF4 \<longrightarrow> c \<le> 0x8F)"

text \<open>The number of bytes read at the start, and whether they are a scalar.\<close>

definition scalar_start :: "byte \<Rightarrow> bytes \<Rightarrow> nat \<times> bool" where
  "scalar_start b bs =
    (if b < 0x80 then (1, True)
     else if 0xC2 \<le> b \<and> b \<le> 0xDF then
       (case bs of c # _ \<Rightarrow> if continuation c then (2, True) else (1, False) | [] \<Rightarrow> (1, False))
     else if 0xE0 \<le> b \<and> b \<le> 0xEF then
       (case bs of
          c # rest \<Rightarrow>
            if \<not> second_ok b c then (1, False)
            else (case rest of d # _ \<Rightarrow> if continuation d then (3, True) else (2, False) | [] \<Rightarrow> (2, False))
        | [] \<Rightarrow> (1, False))
     else if 0xF0 \<le> b \<and> b \<le> 0xF4 then
       (case bs of
          c # rest \<Rightarrow>
            if \<not> second_ok b c then (1, False)
            else (case rest of
                d # rest' \<Rightarrow>
                  if \<not> continuation d then (2, False)
                  else (case rest' of e # _ \<Rightarrow> if continuation e then (4, True) else (3, False) | [] \<Rightarrow> (3, False))
              | [] \<Rightarrow> (2, False))
        | [] \<Rightarrow> (1, False))
     else (1, False))"

function utf8_lossy :: "bytes \<Rightarrow> bytes" where
  "utf8_lossy [] = []"
| "utf8_lossy (b # bs) =
    (case scalar_start b bs of
       (n, True) \<Rightarrow> take n (b # bs) @ utf8_lossy (drop (n - 1) bs)
     | (n, False) \<Rightarrow> [0xEF, 0xBF, 0xBD] @ utf8_lossy (drop (n - 1) bs))"
  by pat_completeness auto
termination
  by (relation "measure length") auto

text \<open>\<open>getnameinfo\<close> answers with the bytes before the terminating NUL, or not at all when its
  result is not zero.\<close>

definition reverse_name :: "(bytes \<Rightarrow> bytes option) \<Rightarrow> ip_addr \<Rightarrow> string option" where
  "reverse_name getnameinfo address =
    map_option (\<lambda>host. map char_of_byte (utf8_lossy host)) (getnameinfo (sockaddr_bytes address))"

section \<open>Name servers\<close>

definition nameserver_of_line :: "string \<Rightarrow> string option" where
  "nameserver_of_line untrimmed =
    (let line = trim untrimmed
     in if prefix ''#'' line \<or> prefix '';'' line then None
        else (case split_whitespace line of
            [] \<Rightarrow> None
          | key # rest \<Rightarrow> if key = ''nameserver'' then first_opt rest else None))"

definition parse_nameservers :: "string \<Rightarrow> string list" where
  "parse_nameservers contents = filter_map nameserver_of_line (lines contents)"

definition nameservers :: "(string \<Rightarrow> string result) \<Rightarrow> string \<Rightarrow> string list" where
  "nameservers read_to_string path =
    (case read_to_string path of Err _ \<Rightarrow> [] | Ok contents \<Rightarrow> parse_nameservers contents)"

section \<open>Workers cover the addresses\<close>

lemma concat_chunks: "0 < n \<Longrightarrow> concat (chunks n xs) = xs"
  by (induction n xs rule: chunks.induct) (subst chunks.simps, auto)

lemma chunks_not_Nil: "chunk \<in> set (chunks n xs) \<Longrightarrow> chunk \<noteq> []"
  by (induction n xs rule: chunks.induct) (subst (asm) (2) chunks.simps, auto split: if_splits)

lemma length_chunks: "length xs \<le> n * k \<Longrightarrow> length (chunks n xs) \<le> k"
proof (induction k arbitrary: xs)
  case 0
  then show ?case
    by (simp add: chunks.simps)
next
  case (Suc k)
  then have "length (chunks n (drop n xs)) \<le> k"
    by (intro Suc.IH) auto
  then show ?case
    by (subst chunks.simps) simp
qed

lemma div_ceil_covers: "0 < b \<Longrightarrow> a \<le> div_ceil a b * b"
proof -
  assume "0 < b"
  have "a = a div b * b + a mod b"
    by simp
  moreover have "a mod b < b"
    using \<open>0 < b\<close> by simp
  ultimately have "a \<le> (a div b + 1) * b"
    unfolding add_mult_distrib mult_1 by linarith
  then show ?thesis
    by (auto simp: div_ceil_def)
qed

lemma worker_chunks_cover:
  assumes "addresses \<noteq> []"
  shows "concat (worker_chunks addresses) = addresses"
    and "length (worker_chunks addresses) \<le> MAX_WORKERS"
    and "[] \<notin> set (worker_chunks addresses)"
proof -
  let ?workers = "min (length addresses) MAX_WORKERS"
  have workers: "0 < ?workers"
    using assms by (simp add: MAX_WORKERS_def)
  have size: "0 < div_ceil (length addresses) ?workers"
    using div_ceil_covers [OF workers, of "length addresses"] assms by (cases "div_ceil (length addresses) ?workers") auto
  show "concat (worker_chunks addresses) = addresses"
    using concat_chunks [OF size] by (simp add: worker_chunks_def Let_def)
  have "length (worker_chunks addresses) \<le> ?workers"
    unfolding worker_chunks_def Let_def by (rule length_chunks) (rule div_ceil_covers [OF workers])
  then show "length (worker_chunks addresses) \<le> MAX_WORKERS"
    by simp
  show "[] \<notin> set (worker_chunks addresses)"
    using chunks_not_Nil by (auto simp: worker_chunks_def Let_def)
qed

lemma worker_names_apply:
  "worker_names resolve chunk a = (if a \<in> set chunk then resolve a else None)"
proof -
  let ?answers = "filter_map (\<lambda>a. map_option (\<lambda>name. (a, name)) (resolve a)) chunk"
  have answers: "(a, n) \<in> set (rev ?answers) \<longleftrightarrow> a \<in> set chunk \<and> resolve a = Some n" for n
    by (auto simp: set_filter_map)
  show ?thesis
  proof (cases "map_of (rev ?answers) a")
    case None
    then have "(a, n) \<notin> set (rev ?answers)" for n
      by (metis map_of_eq_None_iff fst_conv image_eqI)
    with answers None show ?thesis
      by (cases "resolve a") (auto simp: worker_names_def)
  next
    case (Some n)
    with answers map_of_SomeD [OF Some] show ?thesis
      by (simp add: worker_names_def)
  qed
qed

lemma foldl_workers:
  "foldl (\<lambda>names (i, chunk). if panics i then names else names ++ worker_names resolve chunk) names
      (enumerate s cs) a =
    (if \<exists>i < length cs. \<not> panics (s + i) \<and> a \<in> set (cs ! i) \<and> resolve a \<noteq> None
     then resolve a else names a)"
proof (induction cs arbitrary: names s)
  case (Cons c cs)
  have split: "(\<exists>i < length (c # cs). P i) \<longleftrightarrow> P 0 \<or> (\<exists>i < length cs. P (Suc i))" for P
    using less_Suc_eq_0_disj by auto
  show ?case
    by (simp only: split)
      (auto simp: Cons.IH map_add_def worker_names_apply split: option.splits)
qed simp

text \<open>At most eight workers share the addresses, none of them idle and no address skipped or
  given to two; when no worker fails, the result has exactly the names of the addresses that
  resolve, and when some do, what is missing are addresses of those workers only.\<close>

theorem reverse_names_exact:
  "(addresses = [] \<or> concat (worker_chunks addresses) = addresses \<and> [] \<notin> set (worker_chunks addresses)
      \<and> length (worker_chunks addresses) \<le> 8)
    \<and> reverse_names (\<lambda>_. False) resolve addresses = (\<lambda>a. if a \<in> set addresses then resolve a else None)
    \<and> reverse_names panics resolve addresses \<subseteq>\<^sub>m reverse_names (\<lambda>_. False) resolve addresses"
proof -
  have result: "reverse_names panics resolve addresses a =
      (if \<exists>i < length (worker_chunks addresses). \<not> panics i \<and> a \<in> set (worker_chunks addresses ! i)
         \<and> resolve a \<noteq> None then resolve a else None)" if "addresses \<noteq> []" for panics a
    using that foldl_workers [of panics resolve Map.empty 0 "worker_chunks addresses" a]
    by (simp add: reverse_names_def)
  have members: "(\<exists>i < length (worker_chunks addresses). a \<in> set (worker_chunks addresses ! i)) \<longleftrightarrow> a \<in> set addresses"
    if "addresses \<noteq> []" for a
  proof -
    have "set addresses = \<Union> (set ` set (worker_chunks addresses))"
      using worker_chunks_cover(1) [OF that] by (metis set_concat)
    then show ?thesis
      by (metis UN_iff in_set_conv_nth)
  qed
  show ?thesis
  proof (cases "addresses = []")
    case True
    then show ?thesis
      by (simp add: reverse_names_def)
  next
    case False
    have "reverse_names (\<lambda>_. False) resolve addresses = (\<lambda>a. if a \<in> set addresses then resolve a else None)"
      using result [OF False] members [OF False] by fastforce
    moreover have "reverse_names panics resolve addresses \<subseteq>\<^sub>m reverse_names (\<lambda>_. False) resolve addresses"
      using result [OF False] by (auto simp: map_le_def dom_def split: if_splits)
    ultimately show ?thesis
      using worker_chunks_cover [OF False] by (simp add: MAX_WORKERS_def)
  qed
qed

section \<open>Lossy text\<close>

lemma scalar_start_valid:
  assumes "utf8_valid (b # bs)"
  shows "\<exists>n. scalar_start b bs = (n, True) \<and> utf8_valid (drop (n - 1) bs)"
proof -
  consider (one) "b < 0x80" | (two) "\<not> b < 0x80" "0xC2 \<le> b \<and> b \<le> 0xDF"
    | (three) "\<not> b < 0x80" "\<not> (0xC2 \<le> b \<and> b \<le> 0xDF)" "0xE0 \<le> b \<and> b \<le> 0xEF"
    | (four) "\<not> b < 0x80" "\<not> (0xC2 \<le> b \<and> b \<le> 0xDF)" "\<not> (0xE0 \<le> b \<and> b \<le> 0xEF)" "0xF0 \<le> b \<and> b \<le> 0xF4"
    using assms by (cases "b < 0x80"; cases "0xC2 \<le> b \<and> b \<le> 0xDF"; cases "0xE0 \<le> b \<and> b \<le> 0xEF";
        cases "0xF0 \<le> b \<and> b \<le> 0xF4") (simp_all only: utf8_valid.simps if_True if_False simp_thms)
  then show ?thesis
  proof cases
    case one
    with assms show ?thesis
      by (simp add: scalar_start_def)
  next
    case two
    with assms obtain c rest where "bs = c # rest" "continuation c" "utf8_valid rest"
      by (simp only: utf8_valid.simps if_True if_False) (cases bs, simp_all)
    with two show ?thesis
      by (simp add: scalar_start_def)
  next
    case three
    with assms obtain c d rest where "bs = c # d # rest" "continuation c" "continuation d"
        "b = 0xE0 \<longrightarrow> 0xA0 \<le> c" "b = 0xED \<longrightarrow> c \<le> 0x9F" "utf8_valid rest"
      by (simp only: utf8_valid.simps if_True if_False) (cases bs; cases "tl bs"; simp)
    moreover from three(3) have "b \<noteq> 0xF0" and "b \<noteq> 0xF4"
      by auto
    ultimately have "scalar_start b bs = (3, True)"
      using three by (simp add: scalar_start_def second_ok_def)
    with \<open>bs = c # d # rest\<close> \<open>utf8_valid rest\<close> show ?thesis
      by (simp add: numeral_2_eq_2)
  next
    case four
    with assms obtain c d e rest where "bs = c # d # e # rest" "continuation c" "continuation d"
        "continuation e" "b = 0xF0 \<longrightarrow> 0x90 \<le> c" "b = 0xF4 \<longrightarrow> c \<le> 0x8F" "utf8_valid rest"
      by (simp only: utf8_valid.simps if_True if_False) (cases bs; cases "tl bs"; cases "tl (tl bs)"; simp)
    moreover from four(4) have "b \<noteq> 0xE0" and "b \<noteq> 0xED"
      by auto
    ultimately have "scalar_start b bs = (4, True)"
      using four by (simp add: scalar_start_def second_ok_def)
    with \<open>bs = c # d # e # rest\<close> \<open>utf8_valid rest\<close> show ?thesis
      by (simp add: numeral_3_eq_3)
  qed
qed

lemma utf8_lossy_valid: "utf8_valid bs \<Longrightarrow> utf8_lossy bs = bs"
proof (induction bs rule: utf8_lossy.induct)
  case (2 b bs)
  from scalar_start_valid [OF "2.prems"]
  obtain n where n: "scalar_start b bs = (n, True)" and valid: "utf8_valid (drop (n - 1) bs)"
    by blast
  have "0 < n"
    using n by (auto simp: scalar_start_def split: if_splits list.splits)
  then have "take n (b # bs) @ drop (n - 1) bs = b # bs"
    by (cases n) simp_all
  with n valid "2.IH"(1) [OF n [symmetric] refl] show ?case
    by simp
qed simp

section \<open>A resolver configuration\<close>

lemma pieces_start:
  assumes "\<not> whitespace [c]"
  shows "\<exists>p ps. filter (\<lambda>piece. piece \<noteq> []) (split_on whitespace ([c] # xs)) = ([c] # p) # ps"
  using assms by (auto split: list.splits)

lemma pieces_dropWhile:
  "filter (\<lambda>piece. piece \<noteq> []) (split_on p (dropWhile p xs)) = filter (\<lambda>piece. piece \<noteq> []) (split_on p xs)"
  by (induction xs) auto

lemma split_on_all: "\<forall>x \<in> set ys. p x \<Longrightarrow> filter (\<lambda>piece. piece \<noteq> []) (split_on p ys) = []"
  by (induction ys) auto

lemma split_on_append_blank:
  "\<forall>x \<in> set ys. p x \<Longrightarrow>
    filter (\<lambda>piece. piece \<noteq> []) (split_on p (xs @ ys)) = filter (\<lambda>piece. piece \<noteq> []) (split_on p xs)"
proof (induction xs)
  case Nil
  then show ?case
    by (simp add: split_on_all)
next
  case (Cons x xs)
  have "\<exists>y zs zs'. split_on p (xs @ ys) = y # zs \<and> split_on p xs = y # zs'"
    using Cons.prems
  proof (induction xs)
    case Nil
    then show ?case
      by (cases ys) auto
  next
    case (Cons x xs)
    then show ?case
      by (auto split: list.splits)
  qed
  with Cons show ?case
    by (auto split: if_splits)
qed

lemma set_trim: "x \<in> set (trim s) \<Longrightarrow> x \<in> set s"
proof -
  assume "x \<in> set (trim s)"
  then obtain piece where "piece \<in> set (utf8_chars s)" and "x \<in> set piece"
    by (auto simp: trim_def dest!: set_dropWhileD)
  then have "x \<in> set (concat (utf8_chars s))"
    unfolding set_concat by blast
  then show "x \<in> set s"
    by simp
qed

lemma split_whitespace_trim:
  assumes "list_all (\<lambda>c. (of_char c :: nat) < 128) s"
  shows "split_whitespace (trim s) = split_whitespace s"
proof -
  let ?xs = "map (\<lambda>c. [c]) s"
  let ?front = "dropWhile whitespace ?xs"
  let ?core = "rev (dropWhile whitespace (rev ?front))"
  have ascii: "byte_of_char c < 0x80" if "c \<in> set s" for c
    using assms that by (auto simp: list_all_iff byte_of_char_less)
  have "utf8_chars s = ?xs"
    using ascii by (intro utf8_chars_ascii) blast
  then have trim: "trim s = concat ?core"
    by (simp add: trim_def)
  have sub: "set ?core \<subseteq> set ?xs"
    by (auto dest!: set_dropWhileD simp del: dropWhile_eq_Nil_conv)
  then have "\<exists>cs. ?core = map (\<lambda>c. [c]) cs \<and> set cs \<subseteq> set s"
    by (intro exI [of _ "map hd ?core"]) (force simp: comp_def intro: map_idI [symmetric])
  then obtain cs where cs: "?core = map (\<lambda>c. [c]) cs" "set cs \<subseteq> set s"
    by blast
  then have "utf8_chars (trim s) = ?core"
    using ascii by (subst trim, subst utf8_chars_ascii) (auto simp del: dropWhile_eq_Nil_conv)
  moreover have "?front = ?core @ rev (takeWhile whitespace (rev ?front))"
    by (metis rev_append rev_rev_ident takeWhile_dropWhile_id)
  then have "filter (\<lambda>piece. piece \<noteq> []) (split_on whitespace ?front) =
      filter (\<lambda>piece. piece \<noteq> []) (split_on whitespace ?core)"
    using split_on_append_blank [of "rev (takeWhile whitespace (rev ?front))" whitespace ?core]
    by (metis set_rev set_takeWhileD)
  ultimately show ?thesis
    using \<open>utf8_chars s = ?xs\<close> pieces_dropWhile [of whitespace ?xs]
    by (simp add: split_whitespace_def)
qed

text \<open>A line of \<open>resolv.conf\<close> as its fields with the blanks before them, the first field with
  any number of blanks, and what it configures.\<close>

definition conf_line :: "(nat \<times> string) list \<times> nat \<Rightarrow> string" where
  "conf_line row = tl (row_text (fst row) (snd row))"

definition conf_row_ok :: "(nat \<times> string) list \<times> nat \<Rightarrow> bool" where
  "conf_row_ok row \<longleftrightarrow> list_all (\<lambda>(_, f). plain_field f) (fst row)"

definition configured :: "(nat \<times> string) list \<times> nat \<Rightarrow> string option" where
  "configured row =
    (case map snd (fst row) of
       key # value # _ \<Rightarrow> if key = ''nameserver'' then Some value else None
     | _ \<Rightarrow> None)"

lemma conf_line_fields:
  assumes "conf_row_ok row"
  shows "split_whitespace (conf_line row) = map snd (fst row)"
    and "list_all (\<lambda>c. 32 \<le> (of_char c :: nat) \<and> (of_char c :: nat) < 128) (conf_line row)"
proof -
  have chars: "list_all (\<lambda>c. 32 \<le> (of_char c :: nat) \<and> (of_char c :: nat) < 128) (row_text (fst row) (snd row))"
    using assms row_text_ascii by (auto simp: list_all_iff conf_row_ok_def)
  then show plain: "list_all (\<lambda>c. 32 \<le> (of_char c :: nat) \<and> (of_char c :: nat) < 128) (conf_line row)"
    by (cases "row_text (fst row) (snd row)") (simp_all add: conf_line_def)
  show "split_whitespace (conf_line row) = map snd (fst row)"
  proof (cases "row_text (fst row) (snd row)")
    case Nil
    then have "fst row = []"
      by (cases "fst row") (auto simp: row_text_def)
    with Nil show ?thesis
      by (simp add: conf_line_def split_whitespace_def)
  next
    case (Cons c cs)
    then have c: "c = blank"
      using row_text_start [of "fst row" "snd row"] by auto
    have ascii: "\<forall>x \<in> set cs. byte_of_char x < 0x80"
      using chars Cons by (auto simp: list_all_iff byte_of_char_less)
    moreover have "byte_of_char c < 0x80"
      by (simp add: c blank_def byte_of_char_less)
    ultimately have "utf8_chars (c # cs) = map (\<lambda>x. [x]) (c # cs)" and "utf8_chars cs = map (\<lambda>x. [x]) cs"
      by (intro utf8_chars_ascii; simp)+
    then have "split_whitespace (c # cs) = split_whitespace cs"
      by (simp add: split_whitespace_def c)
    moreover have "split_whitespace (row_text (fst row) (snd row)) = map snd (fst row)"
      using assms by (simp add: conf_row_ok_def split_whitespace_row)
    ultimately show ?thesis
      using Cons by (simp add: conf_line_def)
  qed
qed

lemma nameserver_of_conf_line:
  assumes "conf_row_ok row"
  shows "nameserver_of_line (conf_line row) = configured row"
proof -
  let ?line = "trim (conf_line row)"
  have ascii: "list_all (\<lambda>c. (of_char c :: nat) < 128) (conf_line row)"
    using conf_line_fields(2) [OF assms] by (simp add: list_all_iff)
  have "split_whitespace ?line = map snd (fst row)"
    using split_whitespace_trim [OF ascii] conf_line_fields(1) [OF assms] by simp
  moreover have "configured row = None" if comment: "prefix ''#'' ?line \<or> prefix '';'' ?line"
  proof -
    obtain c rest where line: "?line = c # rest" and c: "c = CHR ''#'' \<or> c = CHR '';''"
      using comment by (auto simp: prefix_def)
    have "byte_of_char x < 0x80" if "x \<in> set (trim (conf_line row))" for x
      using that ascii set_trim [of x "conf_line row"] by (auto simp: list_all_iff byte_of_char_less)
    then have "utf8_chars ?line = map (\<lambda>x. [x]) ?line"
      by (intro utf8_chars_ascii) blast
    then have "utf8_chars ?line = [c] # map (\<lambda>x. [x]) rest"
      by (simp add: line)
    moreover have "\<not> whitespace [c]"
      using c by (auto simp: whitespace_ascii)
    ultimately obtain p ps where "split_whitespace ?line = (c # concat p) # ps"
      using pieces_start [of c "map (\<lambda>x. [x]) rest"] by (auto simp: split_whitespace_def)
    then have "map snd (fst row) = (c # concat p) # ps"
      using \<open>split_whitespace ?line = map snd (fst row)\<close> by simp
    then show ?thesis
      using c by (auto simp: configured_def split: list.splits)
  qed
  ultimately show ?thesis
    by (auto simp: nameserver_of_line_def Let_def configured_def split: list.splits)
qed

text \<open>Exactly the first value of each \<open>nameserver\<close> line is a name server, in the order of the
  file, whatever the spacing; comments and other keywords contribute nothing.\<close>

theorem nameservers_exact:
  assumes "read_to_string path = Ok (file_text (map conf_line rows))" and "list_all conf_row_ok rows"
  shows "nameservers read_to_string path = filter_map configured rows"
proof -
  have "plain_line (conf_line row)" if "conf_row_ok row" for row
    using conf_line_fields(2) [OF that] by (intro plain_line_printable) (simp add: list_all_iff)
  then have "list_all plain_line (map conf_line rows)"
    using assms(2) by (simp add: list_all_iff)
  then have "parse_nameservers (file_text (map conf_line rows)) = filter_map nameserver_of_line (map conf_line rows)"
    by (simp add: parse_nameservers_def lines_file_text del: lines.simps)
  also have "\<dots> = filter_map configured rows"
    using assms(2) by (induction rows) (simp_all add: nameserver_of_conf_line split: option.splits)
  finally show ?thesis
    using assms(1) by (simp add: nameservers_def)
qed

theorem nameservers_exact_witness:
  "let rows = [([(0, ''#''), (0, ''generated'')], 0), ([(2, ''nameserver''), (1, ''10.0.0.53'')], 1),
       ([(0, ''search''), (0, ''local'')], 0), ([(0, ''nameserver'')], 0)]
    in nameservers (\<lambda>path. Ok (file_text (map conf_line rows))) ''/etc/resolv.conf'' = [''10.0.0.53'']"
proof -
  let ?rows = "[([(0, ''#''), (0, ''generated'')], 0), ([(2, ''nameserver''), (1, ''10.0.0.53'')], 1),
       ([(0, ''search''), (0, ''local'')], 0), ([(0, ''nameserver'')], 0)]"
  have "list_all conf_row_ok ?rows"
    by (simp add: conf_row_ok_def plain_field_def)
  from nameservers_exact [OF _ this, of "\<lambda>path. Ok (file_text (map conf_line ?rows))"]
  show ?thesis
    by (simp add: configured_def)
qed

end
