(* ===== verification/Oui.thy ===== *)
theory Oui
  imports Text_Layout Netlink_Labels
begin

text \<open>
  \<open>oui.rs\<close>: the database of IEEE address assignments and the lookup of a link-layer address in
  its textual form. Reading a file is a parameter.
\<close>

section \<open>The database\<close>

type_synonym vendors = "u32 \<rightharpoonup> string"

definition DATABASE_PATHS :: "string list" where
  "DATABASE_PATHS =
    [''/usr/share/ieee-data/oui.txt'', ''/usr/share/hwdata/oui.txt'', ''/usr/share/misc/oui.txt'']"

definition oui_key :: "u8 \<Rightarrow> u8 \<Rightarrow> u8 \<Rightarrow> u32" where
  "oui_key first second third = push_bit 16 (ucast first) OR push_bit 8 (ucast second) OR ucast third"

text \<open>The three octets, and what the iterator has left.\<close>

definition three_octets :: "string list \<Rightarrow> (u8 \<times> u8 \<times> u8 \<times> string list) option" where
  "three_octets octets =
    (case octets of
       a # b # c # rest \<Rightarrow>
         (case (parse_u8_hex a, parse_u8_hex b, parse_u8_hex c) of
            (Some first, Some second, Some third) \<Rightarrow> Some (first, second, third, rest)
          | _ \<Rightarrow> None)
     | _ \<Rightarrow> None)"

definition parse_assignment :: "string \<Rightarrow> (u32 \<times> string) option" where
  "parse_assignment line =
    (case split_once_str ''(hex)'' line of
       None \<Rightarrow> None
     | Some (before, vendor) \<Rightarrow>
         (case three_octets (split_char (CHR ''-'') (trim before)) of
            Some (first, second, third, []) \<Rightarrow>
              if trim vendor = [] then None else Some (oui_key first second third, trim vendor)
          | _ \<Rightarrow> None))"

text \<open>\<open>collect\<close> into a map: a later line replaces an earlier one.\<close>

definition load_vendors :: "(string \<Rightarrow> string result) \<Rightarrow> vendors" where
  "load_vendors read_to_string =
    (case find_map (\<lambda>path. result_option (read_to_string path)) DATABASE_PATHS of
       None \<Rightarrow> Map.empty
     | Some contents \<Rightarrow> map_of (rev (filter_map parse_assignment (lines contents))))"

definition vendor_of :: "string \<Rightarrow> vendors \<Rightarrow> string option" where
  "vendor_of address vendors =
    (case three_octets (split_char (CHR '':'') address) of
       None \<Rightarrow> None
     | Some (first, second, third, _) \<Rightarrow>
         if first AND 0x01 \<noteq> 0 then None
         else if first AND 0x02 \<noteq> 0 then Some ''private/randomized''
         else vendors (oui_key first second third))"

section \<open>Keys and octets\<close>

lemma oui_key_inject: "oui_key a b c = oui_key a' b' c' \<longleftrightarrow> a = a' \<and> b = b' \<and> c = c'"
proof
  have parts: "ucast (drop_bit 16 (oui_key a b c)) = a" "ucast (drop_bit 8 (oui_key a b c)) = b"
    "ucast (oui_key a b c) = c" for a b c
    by (rule bit_word_eqI; auto simp: oui_key_def bit_simps dest: bit_imp_le_length)+
  assume "oui_key a b c = oui_key a' b' c'"
  with parts [of a b c] parts [of a' b' c'] show "a = a' \<and> b = b' \<and> c = c'"
    by simp
qed simp

lemma hex_byte_chars: "ch \<in> set (hex_byte b) \<Longrightarrow> ch \<noteq> CHR '':''"
proof -
  assume "ch \<in> set (hex_byte b)"
  moreover have "unat b div 16 < 16" "unat b mod 16 < 16"
    using unat_byte_less [of b] by auto
  ultimately have "\<exists>d<16. ch = hex_digit d"
    unfolding hex_byte_def by (metis empty_iff insert_iff list.set)
  then obtain d where "d < 16" and "ch = hex_digit d"
    by blast
  then show "ch \<noteq> CHR '':''"
    using hex_digit_code [of d] by (auto simp del: hex_digit.simps split: if_splits)
qed

lemma three_octets_link_address:
  "three_octets (split_char (CHR '':'') (format_link_address (a # b # c # rest))) =
    Some (a, b, c, map hex_byte rest)"
proof -
  have "split_char (CHR '':'') (format_link_address (a # b # c # rest)) = map hex_byte (a # b # c # rest)"
    unfolding format_link_address_def using hex_byte_chars
    by (intro split_char_join) (auto simp del: join.simps)
  then show ?thesis
    by (simp add: three_octets_def hex_byte_roundtrip)
qed

text \<open>A link address that the kernel reports in fewer than three bytes has no vendor.\<close>

lemma three_octets_short:
  assumes "length address < 3"
  shows "three_octets (split_char (CHR '':'') (format_link_address address)) = None"
proof (cases "address = []")
  case True
  then show ?thesis
    by (simp add: format_link_address_def split_char_def three_octets_def)
next
  case False
  then have "split_char (CHR '':'') (format_link_address address) = map hex_byte address"
    unfolding format_link_address_def using hex_byte_chars
    by (intro split_char_join) auto
  with assms show ?thesis
    by (auto simp: three_octets_def split: list.splits)
qed

section \<open>The published file\<close>

text \<open>A line of \<open>oui.txt\<close>, and the other lines of an entry.\<close>

definition assignment_line :: "u8 \<times> u8 \<times> u8 \<times> string \<Rightarrow> string" where
  "assignment_line e = (case e of (a, b, c, vendor) \<Rightarrow>
    join ''-'' (map (\<lambda>x. hex_field 2 (unat x)) [a, b, c]) @ ''   (hex)'' @ [char_of (9 :: nat), char_of (9 :: nat)]
    @ vendor)"

fun oui_key_of :: "u8 \<times> u8 \<times> u8 \<times> string \<Rightarrow> u32" where
  "oui_key_of (a, b, c, vendor) = oui_key a b c"

lemma split_once_str_skip:
  assumes "\<forall>x \<in> set before. x \<noteq> c"
  shows "split_once_str (c # pat) (before @ (c # pat) @ rest) = Some (before, rest)"
  using assms by (induction before) (auto simp: prefix_def)

lemma hex_pair_plain: "plain_field (hex_field 2 (unat (x :: u8)))"
  using hex_field_plain [of _ 2 "unat x"] by (fastforce simp: plain_field_def list_all_iff)

lemma parse_assignment_line:
  assumes "trimmed vendor"
  shows "parse_assignment (assignment_line (a, b, c, vendor)) = Some (oui_key a b c, vendor)"
proof -
  let ?hex = "\<lambda>x :: u8. hex_field 2 (unat x)"
  let ?octets = "join ''-'' (map ?hex [a, b, c])"
  have chars: "48 \<le> (of_char ch :: nat) \<and> (of_char ch :: nat) < 127 \<and> ch \<noteq> CHR ''-''"
    if digit: "ch \<in> set (?hex x)" for ch x
  proof -
    obtain d where "d < 16" and "ch = upper_hex_digit d"
      using hex_field_digits [OF digit] by blast
    then show ?thesis
      using upper_hex_digit_code [of d] by (auto split: if_splits)
  qed
  have "split_once_str ''(hex)'' ((?octets @ ''   '') @ ''(hex)'' @ [char_of (9 :: nat), char_of (9 :: nat)] @ vendor) =
      Some (?octets @ ''   '', [char_of (9 :: nat), char_of (9 :: nat)] @ vendor)"
    by (rule split_once_str_skip) (use chars in fastforce)
  then have split: "split_once_str ''(hex)'' (assignment_line (a, b, c, vendor)) =
      Some (?octets @ ''   '', [char_of (9 :: nat), char_of (9 :: nat)] @ vendor)"
    by (simp add: assignment_line_def)
  have "trimmed ?octets"
  proof -
    have "\<forall>ch \<in> set ?octets. 45 \<le> (of_char ch :: nat) \<and> (of_char ch :: nat) < 127"
      using chars by fastforce
    moreover have "?octets \<noteq> []"
      by simp
    moreover from calculation have "hd ?octets \<noteq> blank" and "last ?octets \<noteq> blank"
      using hd_in_set [of ?octets] last_in_set [of ?octets] by (fastforce simp: blank_def)+
    ultimately show ?thesis
      unfolding trimmed_def list_all_iff by (intro conjI ballI) (auto dest!: bspec simp del: join.simps)
  qed
  from trim_padded [OF this, of "[]" "''   ''"] have octets: "trim (?octets @ ''   '') = ?octets"
    by (simp add: ascii_blank_def)
  have name: "trim ([char_of (9 :: nat), char_of (9 :: nat)] @ vendor) = vendor"
    using trim_padded [OF assms, of "[char_of (9 :: nat), char_of (9 :: nat)]" "[]"]
    by (simp add: ascii_blank_def)
  have "split_char (CHR ''-'') ?octets = map ?hex [a, b, c]"
    using chars by (intro split_char_join) auto
  then have "three_octets (split_char (CHR ''-'') ?octets) = Some (a, b, c, [])"
    by (simp add: three_octets_def)
  moreover have "vendor \<noteq> []"
    using assms by (simp add: trimmed_def)
  ultimately show ?thesis
    unfolding parse_assignment_def split by (simp only: option.case prod.case octets name) simp
qed

definition entry_ok :: "u8 \<times> u8 \<times> u8 \<times> string \<Rightarrow> bool" where
  "entry_ok e = (case e of (a, b, c, vendor) \<Rightarrow> trimmed vendor)"

lemma hex_printable: "ch \<in> set (hex_field n v) \<Longrightarrow> 32 \<le> (of_char ch :: nat)"
  using hex_field_plain(1) [of ch n v] by simp

lemma assignment_line_plain: "entry_ok e \<Longrightarrow> plain_line (assignment_line e)"
proof -
  assume ok: "entry_ok e"
  obtain a b c vendor where e: "e = (a, b, c, vendor)"
    by (cases e)
  have "(of_char ch :: nat) = 9 \<or> 32 \<le> (of_char ch :: nat)" if "ch \<in> set (assignment_line e)" for ch
    using that ok hex_printable [of ch]
    by (auto simp: e assignment_line_def entry_ok_def trimmed_def list_all_iff)
  from this [of newline] this [of carriage_return] show ?thesis
    by (auto simp: plain_line_def newline_def carriage_return_def)
qed

lemma map_of_rev_entries:
  assumes "distinct (map fst xs)"
  shows "map_of (rev xs) = map_of xs"
  using assms by (metis distinct_rev map_of_inject_set rev_map set_rev)

text \<open>Every assignment of the published database is found: for a file that contains the lines
  of distinct assignments, among other lines, the vendor reported for a globally administered
  unicast address as the kernel reports it is that of its first three bytes.\<close>

theorem vendor_found:
  assumes "find_map (\<lambda>path. result_option (read_to_string path)) DATABASE_PATHS = Some (file_text rows)"
    and "list_all plain_line rows"
    and "filter (\<lambda>row. parse_assignment row \<noteq> None) rows = map assignment_line entries"
    and "list_all entry_ok entries" and "distinct (map oui_key_of entries)"
    and "(a, b, c, vendor) \<in> set entries" and "a AND 3 = 0"
  shows "vendor_of (format_link_address (a # b # c # rest)) (load_vendors read_to_string) = Some vendor"
proof -
  have parsed: "filter_map parse_assignment (map assignment_line es) =
      map (\<lambda>e. (oui_key_of e, snd (snd (snd e)))) es" if "list_all entry_ok es" for es
    using that by (induction es) (auto simp: entry_ok_def parse_assignment_line)
  have "filter_map f xs = filter_map f (filter (\<lambda>x. f x \<noteq> None) xs)" for f :: "string \<Rightarrow> (u32 \<times> string) option" and xs
    by (induction xs) (auto split: option.splits)
  then have "filter_map parse_assignment rows = map (\<lambda>e. (oui_key_of e, snd (snd (snd e)))) entries"
    using assms(3) parsed [OF assms(4)] by metis
  moreover have "map_of (map (\<lambda>e. (oui_key_of e, snd (snd (snd e)))) entries) (oui_key a b c) = Some vendor"
    using assms(5,6) by (intro map_of_is_SomeI) (force simp: comp_def)+
  ultimately have "load_vendors read_to_string (oui_key a b c) = Some vendor"
    using assms(1,2,5) by (simp add: load_vendors_def lines_file_text map_of_rev_entries comp_def del: lines.simps)
  moreover have "a AND 1 = 0" and "a AND 2 = 0"
  proof -
    have "(a AND 3) AND 1 = a AND 1" and "(a AND 3) AND 2 = a AND 2"
      by (simp_all add: and.assoc)
    with assms(7) show "a AND 1 = 0" and "a AND 2 = 0"
      by simp_all
  qed
  ultimately show ?thesis
    by (simp add: vendor_of_def three_octets_link_address)
qed

theorem vendor_found_witness:
  "vendor_of ''d0:11:e5:7d:e9:df''
    (load_vendors (\<lambda>path. if path = ''/usr/share/hwdata/oui.txt''
      then Ok (file_text [''OUI/MA-L'', assignment_line (0xD0, 0x11, 0xE5, ''Example Networks'')])
      else Err (Os 2))) = Some ''Example Networks''"
proof -
  let ?entry = "(0xD0, 0x11, 0xE5, ''Example Networks'') :: u8 \<times> u8 \<times> u8 \<times> string"
  have ok: "entry_ok ?entry"
    by (simp add: entry_ok_def trimmed_def blank_def)
  have rows: "list_all plain_line [''OUI/MA-L'', assignment_line ?entry]"
    using assignment_line_plain [OF ok] by (simp add: plain_line_printable)
  have "parse_assignment ''OUI/MA-L'' = None"
    by (simp add: parse_assignment_def)
  moreover have "parse_assignment (assignment_line ?entry) = Some (oui_key 0xD0 0x11 0xE5, ''Example Networks'')"
    using ok by (simp add: entry_ok_def parse_assignment_line)
  ultimately have hits: "filter (\<lambda>row. parse_assignment row \<noteq> None) [''OUI/MA-L'', assignment_line ?entry] =
      map assignment_line [?entry]"
    by simp
  have "format_link_address [0xD0, 0x11, 0xE5, 0x7D, 0xE9, 0xDF] = ''d0:11:e5:7d:e9:df''"
    by code_simp
  with vendor_found [OF _ rows hits, where a = "0xD0" and b = "0x11" and c = "0xE5"
      and vendor = "''Example Networks''" and rest = "[0x7D, 0xE9, 0xDF]"
      and read_to_string = "\<lambda>path. if path = ''/usr/share/hwdata/oui.txt''
        then Ok (file_text [''OUI/MA-L'', assignment_line ?entry]) else Err (Os 2)"]
  show ?thesis
    using ok by (simp add: DATABASE_PATHS_def)
qed

text \<open>The answer for a link address is decided by its first byte: a group address has no vendor,
  a locally administered one is \<open>private/randomized\<close>, and any other is looked up under a key
  that no other three bytes share; an address of fewer than three bytes has none.\<close>

theorem vendor_cases:
  "vendor_of (format_link_address (a # b # c # rest)) vendors =
      (if a AND 1 \<noteq> 0 then None else if a AND 2 \<noteq> 0 then Some ''private/randomized''
       else vendors (oui_key a b c))
    \<and> (oui_key a b c = oui_key a' b' c' \<longleftrightarrow> (a, b, c) = (a', b', c'))
    \<and> vendor_of (format_link_address [a, b]) vendors = None
    \<and> vendor_of (format_link_address [a]) vendors = None
    \<and> vendor_of (format_link_address []) vendors = None"
  by (simp add: vendor_of_def three_octets_link_address three_octets_short oui_key_inject)

end
