(* ===== verification/Json.thy ===== *)
theory Json
  imports Text_Layout
begin

text \<open>
  \<open>json.rs\<close>: the values of the JSON output and their compact rendering, with a reader of the
  grammar of RFC 8259 (without insignificant white space) that inverts it.
\<close>

section \<open>Values and their rendering\<close>

datatype json =
  Null | Bool bool | Number string | String string | Array "json list" | Object "(string \<times> json) list"

definition json_string :: "string \<Rightarrow> json" where
  "json_string text = String text"

text \<open>\<open>Value::number\<close> on what \<open>to_string\<close> writes.\<close>

definition json_number :: "('a \<Rightarrow> string) \<Rightarrow> 'a \<Rightarrow> json" where
  "json_number to_string x = Number (to_string x)"

definition json_object :: "(string \<times> json) list \<Rightarrow> json" where
  "json_object members = Object members"

definition optional_string :: "('a \<Rightarrow> string) \<Rightarrow> 'a option \<Rightarrow> json" where
  "optional_string to_string x = unwrap_or Null (map_option (\<lambda>y. json_string (to_string y)) x)"

definition optional_number :: "('a \<Rightarrow> string) \<Rightarrow> 'a option \<Rightarrow> json" where
  "optional_number to_string x = unwrap_or Null (map_option (json_number to_string) x)"

definition json_strings :: "string list \<Rightarrow> json" where
  "json_strings texts = Array (map json_string texts)"

definition quote :: char where
  "quote = CHR 0x22"

definition backslash :: char where
  "backslash = CHR 0x5C"

text \<open>The arms of the match, in order; multi-byte scalars fall under the last one.\<close>

definition escape_char :: "char \<Rightarrow> string" where
  "escape_char c =
    (if c = quote then [backslash, quote]
     else if c = backslash then [backslash, backslash]
     else if c = CHR 0x08 then [backslash, CHR ''b'']
     else if c = CHR 0x0C then [backslash, CHR ''f'']
     else if c = CHR 0x0A then [backslash, CHR ''n'']
     else if c = CHR 0x0D then [backslash, CHR ''r'']
     else if c = CHR 0x09 then [backslash, CHR ''t'']
     else if (of_char c :: nat) \<le> 0x1F then [backslash, CHR ''u''] @ ''00'' @ hex_byte (byte_of_char c)
     else [c])"

definition write_string :: "string \<Rightarrow> string" where
  "write_string text = [quote] @ concat (map escape_char text) @ [quote]"

fun render :: "json \<Rightarrow> string" where
  "render Null = ''null''"
| "render (Bool b) = (if b then ''true'' else ''false'')"
| "render (Number text) = text"
| "render (String text) = write_string text"
| "render (Array vs) = ''['' @ join '','' (map render vs) @ '']''"
| "render (Object members) =
    ''{'' @ join '','' (map (\<lambda>m. write_string (fst m) @ '':'' @ render (snd m)) members) @ ''}''"

section \<open>A reader\<close>

definition is_digit :: "char \<Rightarrow> bool" where
  "is_digit c \<longleftrightarrow> 48 \<le> (of_char c :: nat) \<and> (of_char c :: nat) \<le> 57"

definition digits :: "string \<Rightarrow> bool" where
  "digits s \<longleftrightarrow> s \<noteq> [] \<and> list_all is_digit s"

definition exponent_ok :: "string \<Rightarrow> bool" where
  "exponent_ok s \<longleftrightarrow> s = [] \<or>
    ((hd s = CHR ''e'' \<or> hd s = CHR ''E'')
     \<and> digits (if tl s \<noteq> [] \<and> (hd (tl s) = CHR ''+'' \<or> hd (tl s) = CHR ''-'') then tl (tl s) else tl s))"

text \<open>An optional sign, an integer without leading zeros, an optional fraction and exponent.\<close>

definition unsigned_ok :: "string \<Rightarrow> bool" where
  "unsigned_ok s \<longleftrightarrow>
    (let whole = takeWhile is_digit s; rest = dropWhile is_digit s
     in whole \<noteq> [] \<and> (hd whole = CHR ''0'' \<longrightarrow> length whole = 1)
        \<and> (if rest \<noteq> [] \<and> hd rest = CHR ''.''
           then takeWhile is_digit (tl rest) \<noteq> [] \<and> exponent_ok (dropWhile is_digit (tl rest))
           else exponent_ok rest))"

definition number_ok :: "string \<Rightarrow> bool" where
  "number_ok s \<longleftrightarrow> unsigned_ok (if s \<noteq> [] \<and> hd s = CHR ''-'' then tl s else s)"

definition number_char :: "char \<Rightarrow> bool" where
  "number_char c \<longleftrightarrow> is_digit c \<or> c \<in> set ''+-.eE''"

text \<open>The text up to the closing quotation mark. Of the numeric escapes only those of ASCII
  characters are read.\<close>

fun read_string :: "string \<Rightarrow> (string \<times> string) option" where
  "read_string [] = None"
| "read_string (c # cs) =
    (if c = quote then Some ([], cs)
     else if c = backslash then
       (case cs of
          [] \<Rightarrow> None
        | e # rest \<Rightarrow>
            (case map_of [(quote, quote), (backslash, backslash), (CHR ''/'', CHR ''/''), (CHR ''b'', CHR 0x08),
                (CHR ''f'', CHR 0x0C), (CHR ''n'', CHR 0x0A), (CHR ''r'', CHR 0x0D), (CHR ''t'', CHR 0x09)] e of
               Some x \<Rightarrow> map_option (\<lambda>(a, b). (x # a, b)) (read_string rest)
             | None \<Rightarrow>
                 if e \<noteq> CHR ''u'' then None
                 else (case rest of
                     p # q # r # s # rest' \<Rightarrow>
                       (case digits_value 16 0 [p, q, r, s] of
                          Some n \<Rightarrow>
                            if n < 128 then map_option (\<lambda>(a, b). (char_of n # a, b)) (read_string rest')
                            else None
                        | None \<Rightarrow> None)
                   | _ \<Rightarrow> None)))
     else if (of_char c :: nat) < 0x20 then None
     else map_option (\<lambda>(a, b). (c # a, b)) (read_string cs))"

definition read_literal :: "string \<Rightarrow> json \<Rightarrow> string \<Rightarrow> (json \<times> string) option" where
  "read_literal word v s = (if prefix word s then Some (v, drop (length word) s) else None)"

definition read_number :: "string \<Rightarrow> (json \<times> string) option" where
  "read_number s =
    (let text = takeWhile number_char s
     in if number_ok text then Some (Number text, dropWhile number_char s) else None)"

text \<open>The first argument bounds the number of steps; the length of the text is enough.\<close>

fun read_value :: "nat \<Rightarrow> string \<Rightarrow> (json \<times> string) option"
  and read_items :: "nat \<Rightarrow> string \<Rightarrow> (json list \<times> string) option"
  and read_members :: "nat \<Rightarrow> string \<Rightarrow> ((string \<times> json) list \<times> string) option" where
  "read_value 0 s = None"
| "read_value (Suc n) s =
    (case s of
       [] \<Rightarrow> None
     | c # cs \<Rightarrow>
         if c = quote then map_option (\<lambda>(text, rest). (String text, rest)) (read_string cs)
         else if c = CHR ''['' then
           (if prefix '']'' cs then Some (Array [], tl cs)
            else map_option (\<lambda>(vs, rest). (Array vs, rest)) (read_items n cs))
         else if c = CHR ''{'' then
           (if prefix ''}'' cs then Some (Object [], tl cs)
            else map_option (\<lambda>(ms, rest). (Object ms, rest)) (read_members n cs))
         else if c = CHR ''n'' then read_literal ''null'' Null s
         else if c = CHR ''t'' then read_literal ''true'' (Bool True) s
         else if c = CHR ''f'' then read_literal ''false'' (Bool False) s
         else read_number s)"
| "read_items 0 s = None"
| "read_items (Suc n) s =
    (case read_value n s of
       Some (v, c # rest) \<Rightarrow>
         if c = CHR '','' then map_option (\<lambda>(vs, r). (v # vs, r)) (read_items n rest)
         else if c = CHR '']'' then Some ([v], rest)
         else None
     | _ \<Rightarrow> None)"
| "read_members 0 s = None"
| "read_members (Suc n) s =
    (case s of
       [] \<Rightarrow> None
     | c # cs \<Rightarrow>
         if c \<noteq> quote then None
         else (case read_string cs of
             Some (key, colon # text) \<Rightarrow>
               if colon \<noteq> CHR '':'' then None
               else (case read_value n text of
                   Some (v, d # rest) \<Rightarrow>
                     if d = CHR '','' then map_option (\<lambda>(ms, r). ((key, v) # ms, r)) (read_members n rest)
                     else if d = CHR ''}'' then Some ([(key, v)], rest)
                     else None
                 | _ \<Rightarrow> None)
           | _ \<Rightarrow> None))"

definition read_json :: "string \<Rightarrow> json option" where
  "read_json s = (case read_value (length s) s of Some (v, []) \<Rightarrow> Some v | _ \<Rightarrow> None)"

text \<open>Every number of a value has the syntax of a number.\<close>

fun json_ok :: "json \<Rightarrow> bool" where
  "json_ok (Number text) = number_ok text"
| "json_ok (Array vs) = list_all json_ok vs"
| "json_ok (Object members) = list_all (\<lambda>m. json_ok (snd m)) members"
| "json_ok _ = True"

section \<open>Strings\<close>

lemma special_chars:
  "of_char quote = (34 :: nat)" "of_char backslash = (92 :: nat)" "quote \<noteq> backslash"
  by (simp_all add: quote_def backslash_def)

lemma read_string_escape:
  "read_string (escape_char c @ rest) = map_option (\<lambda>(a, b). (c # a, b)) (read_string rest)"
proof (cases "(of_char c :: nat) \<le> 0x1F")
  case True
  have code: "unat (byte_of_char c) = of_char c"
    using True by (simp add: unat_byte_of_char)
  have "digits_value 16 0 (''00'' @ hex_byte (byte_of_char c)) = Some (of_char c)"
  proof -
    have "unat (byte_of_char c) div 16 < 16"
      using True by (simp add: code)
    moreover have "to_digit 16 (CHR ''0'') = Some 0"
      by (simp add: to_digit_def)
    ultimately show ?thesis
      by (simp add: hex_byte_def to_digit_hex_digit code del: hex_digit.simps)
  qed
  then have "digits_value 16 0 [CHR ''0'', CHR ''0'', hd (hex_byte (byte_of_char c)), last (hex_byte (byte_of_char c))] =
      Some (of_char c)"
    by (simp add: hex_byte_def del: hex_digit.simps digits_value.simps)
  with True show ?thesis
    by (auto simp: escape_char_def special_chars hex_byte_def quote_def backslash_def
        simp del: hex_digit.simps digits_value.simps)
next
  case False
  then show ?thesis
    by (auto simp: escape_char_def special_chars quote_def backslash_def)
qed

lemma read_string_written:
  "read_string (concat (map escape_char s) @ quote # rest) = Some (s, rest)"
proof (induction s)
  case (Cons c s)
  then show ?case
    by (simp add: read_string_escape del: read_string.simps)
qed simp

section \<open>Numbers\<close>

lemma digits_number_chars: "digits s \<Longrightarrow> list_all number_char s"
  by (auto simp: digits_def list_all_iff number_char_def)

lemma exponent_number_chars:
  assumes "exponent_ok s"
  shows "list_all number_char s"
proof (cases s)
  case (Cons c cs)
  have "number_char c"
    using assms by (auto simp: exponent_ok_def Cons number_char_def)
  moreover have "list_all number_char cs"
  proof (cases "cs \<noteq> [] \<and> (hd cs = CHR ''+'' \<or> hd cs = CHR ''-'')")
    case True
    then have "digits (tl cs)" and "number_char (hd cs)"
      using assms by (auto simp: exponent_ok_def Cons number_char_def)
    with True digits_number_chars show ?thesis
      by (cases cs) auto
  next
    case False
    then have "digits cs"
      using assms by (auto simp: exponent_ok_def Cons)
    then show ?thesis
      by (rule digits_number_chars)
  qed
  ultimately show ?thesis
    by (simp add: Cons)
qed simp

lemma takeWhile_digits: "list_all number_char (takeWhile is_digit s)"
  by (auto simp: list_all_iff number_char_def dest: set_takeWhileD)

lemma number_ok_chars:
  assumes "number_ok s"
  shows "list_all number_char s" and "s \<noteq> []" and "is_digit (hd s) \<or> hd s = CHR ''-''"
proof -
  obtain sign t where s: "s = sign @ t" and sign: "sign = [] \<or> sign = ''-''" and t: "unsigned_ok t"
  proof (cases "s \<noteq> [] \<and> hd s = CHR ''-''")
    case True
    then have "s = ''-'' @ tl s"
      by (cases s) auto
    then show ?thesis
      using that [of "''-''" "tl s"] assms True by (simp add: number_ok_def)
  next
    case False
    then show ?thesis
      using that [of "[]" s] assms by (simp only: number_ok_def if_False) simp
  qed
  have whole: "takeWhile is_digit t \<noteq> []"
    and rest: "if dropWhile is_digit t \<noteq> [] \<and> hd (dropWhile is_digit t) = CHR ''.''
      then takeWhile is_digit (tl (dropWhile is_digit t)) \<noteq> []
        \<and> exponent_ok (dropWhile is_digit (tl (dropWhile is_digit t)))
      else exponent_ok (dropWhile is_digit t)"
    using t unfolding unsigned_ok_def Let_def by blast+
  have "list_all number_char (dropWhile is_digit t)"
  proof (cases "dropWhile is_digit t \<noteq> [] \<and> hd (dropWhile is_digit t) = CHR ''.''")
    case True
    let ?f = "tl (dropWhile is_digit t)"
    have "list_all number_char (takeWhile is_digit ?f @ dropWhile is_digit ?f)"
      using True rest takeWhile_digits exponent_number_chars by (simp only: list_all_append) simp
    moreover have "number_char (CHR ''.'')"
      by (simp add: number_char_def)
    moreover have "dropWhile is_digit t = CHR ''.'' # ?f"
      using True by (cases "dropWhile is_digit t") auto
    ultimately show ?thesis
      by (metis list.pred_inject(2) takeWhile_dropWhile_id)
  next
    case False
    then show ?thesis
      using rest exponent_number_chars by simp
  qed
  then have "list_all number_char (takeWhile is_digit t @ dropWhile is_digit t)"
    using takeWhile_digits by (simp only: list_all_append)
  then show "list_all number_char s"
    using sign by (auto simp: s number_char_def)
  have "t \<noteq> []" and "is_digit (hd t)"
    using whole by (cases t; auto split: if_splits)+
  then show "s \<noteq> []" and "is_digit (hd s) \<or> hd s = CHR ''-''"
    using sign by (auto simp: s)
qed

text \<open>What \<open>to_string\<close> writes for an integer is a number.\<close>

lemma decimal_digits: "list_all is_digit (decimal n)"
  using decimal_code [of _ n] by (fastforce simp: list_all_iff is_digit_def)

lemma number_ok_decimal: "number_ok (decimal n)" "number_ok (CHR ''-'' # decimal n)"
proof -
  have take: "takeWhile is_digit (decimal n) = decimal n" and drop: "dropWhile is_digit (decimal n) = []"
    using decimal_digits [of n] by (simp_all add: list_all_iff)
  have "decimal n \<noteq> []"
    by (simp add: decimal_def)
  moreover have "hd (decimal n) = CHR ''0'' \<Longrightarrow> length (decimal n) = 1"
    using hd_to_radix_10 [of n] by (cases "10 \<le> n") (auto simp: decimal_def to_radix.simps [of 10 n])
  moreover have "hd (decimal n) \<noteq> CHR ''-''"
    using decimal_code [of "hd (decimal n)" n] \<open>decimal n \<noteq> []\<close> by auto
  moreover have "unsigned_ok (decimal n)"
    using calculation(1,2) unfolding unsigned_ok_def Let_def take drop by (simp add: exponent_ok_def)
  ultimately show "number_ok (decimal n)" "number_ok (CHR ''-'' # decimal n)"
    by (simp_all add: number_ok_def)
qed

lemma number_ok_signed_decimal: "number_ok (signed_decimal i)"
  by (simp add: signed_decimal_def number_ok_decimal)

section \<open>The round trip\<close>

definition ends_number :: "string \<Rightarrow> bool" where
  "ends_number rest \<longleftrightarrow> rest = [] \<or> \<not> number_char (hd rest)"

lemma read_number_text:
  assumes "number_ok s" and "ends_number rest"
  shows "read_number (s @ rest) = Some (Number s, rest)"
proof -
  have "takeWhile number_char (s @ rest) = s" and "dropWhile number_char (s @ rest) = rest"
    using number_ok_chars(1) [OF assms(1)] assms(2)
    by (cases rest; auto simp: list_all_iff ends_number_def takeWhile_append dropWhile_append)+
  with assms(1) show ?thesis
    by (simp add: read_number_def)
qed

lemma render_start:
  assumes "json_ok v"
  shows "\<exists>c cs. render v = c # cs \<and> c \<noteq> CHR '']''"
proof (cases v)
  case (Number s)
  with assms number_ok_chars(2,3) [of s] show ?thesis
    by (cases s) (auto simp: is_digit_def)
qed (auto simp: write_string_def quote_def)

lemma render_length: "json_ok v \<Longrightarrow> 0 < length (render v)"
  using render_start [of v] by auto

lemma read_items_render:
  assumes "\<And>v n rest. v \<in> set vs \<Longrightarrow> length (render v) \<le> n \<Longrightarrow> ends_number rest \<Longrightarrow>
      read_value n (render v @ rest) = Some (v, rest)"
    and "vs \<noteq> []" and "length (join '','' (map render vs)) < n" and "list_all json_ok vs"
  shows "read_items n (join '','' (map render vs) @ '']'' @ rest) = Some (vs, rest)"
  using assms
proof (induction vs arbitrary: n)
  case (Cons v vs)
  then obtain m where n: "n = Suc m"
    by (cases n) auto
  have delimiter: "ends_number (CHR '','' # r)" "ends_number (CHR '']'' # r)" for r
    by (simp_all add: ends_number_def number_char_def is_digit_def)
  show ?case
  proof (cases vs)
    case Nil
    then show ?thesis
      using Cons.prems(1) [of v m "CHR '']'' # rest"] Cons.prems(3) delimiter by (simp add: n)
  next
    case tail: (Cons w ws)
    let ?more = "join '','' (map render vs) @ '']'' @ rest"
    have size: "length (render v) \<le> m" "length (join '','' (map render vs)) < m"
      using Cons.prems(3,4) render_length [of v] by (simp_all add: n tail)
    have "join '','' (map render (v # vs)) = render v @ '','' @ join '','' (map render vs)"
      by (simp add: tail)
    moreover have "read_value m (render v @ CHR '','' # ?more) = Some (v, CHR '','' # ?more)"
      using Cons.prems(1) [of v m] size(1) delimiter by simp
    moreover have "read_items m ?more = Some (vs, rest)"
      using Cons.prems Cons.IH [of m] size(2) tail by simp
    ultimately show ?thesis
      by (simp add: n)
  qed
qed simp

abbreviation render_member :: "string \<times> json \<Rightarrow> string" where
  "render_member m \<equiv> write_string (fst m) @ '':'' @ render (snd m)"

lemma read_members_render:
  assumes "\<And>m n rest. m \<in> set ms \<Longrightarrow> length (render (snd m)) \<le> n \<Longrightarrow> ends_number rest \<Longrightarrow>
      read_value n (render (snd m) @ rest) = Some (snd m, rest)"
    and "ms \<noteq> []" and "length (join '','' (map render_member ms)) < n"
  shows "read_members n (join '','' (map render_member ms) @ ''}'' @ rest) = Some (ms, rest)"
  using assms
proof (induction ms arbitrary: n)
  case (Cons m ms)
  then obtain k where n: "n = Suc k"
    by (cases n) auto
  have delimiter: "ends_number (CHR '','' # r)" "ends_number (CHR ''}'' # r)" for r
    by (simp_all add: ends_number_def number_char_def is_digit_def)
  have member: "render_member m @ more = quote # concat (map escape_char (fst m)) @ quote # CHR '':'' # render (snd m) @ more"
    for more
    by (simp add: write_string_def)
  show ?case
  proof (cases ms)
    case Nil
    then have "length (render (snd m)) \<le> k"
      using Cons.prems(3) by (simp add: n)
    then show ?thesis
      using Cons.prems(1) [of m k "CHR ''}'' # rest"] delimiter Nil
      by (simp add: n write_string_def read_string_written)
  next
    case tail: (Cons w ws)
    let ?more = "join '','' (map render_member ms) @ ''}'' @ rest"
    have size: "length (render (snd m)) \<le> k" "length (join '','' (map render_member ms)) < k"
      using Cons.prems(3) by (simp_all add: n tail write_string_def)
    have "join '','' (map render_member (m # ms)) = render_member m @ '','' @ join '','' (map render_member ms)"
      by (simp add: tail)
    then have "join '','' (map render_member (m # ms)) @ ''}'' @ rest =
        quote # concat (map escape_char (fst m)) @ quote # CHR '':'' # render (snd m) @ CHR '','' # ?more"
      using member [of "CHR '','' # ?more"] by simp
    moreover have "read_value k (render (snd m) @ CHR '','' # ?more) = Some (snd m, CHR '','' # ?more)"
      using Cons.prems(1) [of m k] size(1) delimiter by simp
    moreover have "read_members k ?more = Some (ms, rest)"
      using Cons.prems Cons.IH [of k] size(2) tail by simp
    ultimately show ?thesis
      by (simp add: n read_string_written)
  qed
qed simp

lemma read_value_render:
  "json_ok v \<Longrightarrow> length (render v) \<le> n \<Longrightarrow> ends_number rest \<Longrightarrow> read_value n (render v @ rest) = Some (v, rest)"
proof (induction v arbitrary: n rest)
  case Null
  then show ?case
    by (cases n) (simp_all add: read_literal_def quote_def)
next
  case (Bool b)
  then show ?case
    by (cases n) (auto simp: read_literal_def quote_def split: if_splits)
next
  case (Number s)
  then obtain m c cs where n: "n = Suc m" and s: "s = c # cs"
    using number_ok_chars(2) [of s] by (cases n; cases s) auto
  have "c \<noteq> quote" "c \<noteq> CHR ''[''" "c \<noteq> CHR ''{''" "c \<noteq> CHR ''n''" "c \<noteq> CHR ''t''" "c \<noteq> CHR ''f''"
    using number_ok_chars(3) [of s] Number.prems(1) by (auto simp: s is_digit_def quote_def)
  then have "read_value n (s @ rest) = read_number (s @ rest)"
    by (simp add: n s)
  then show ?case
    using Number.prems read_number_text by simp
next
  case (String s)
  then obtain m where "n = Suc m"
    by (cases n) (auto simp: write_string_def)
  then show ?case
    by (simp add: write_string_def read_string_written)
next
  case (Array vs)
  then obtain m where n: "n = Suc m"
    by (cases n) auto
  show ?case
  proof (cases vs)
    case Nil
    then show ?thesis
      by (simp add: n quote_def)
  next
    case (Cons w ws)
    have "read_items m (join '','' (map render vs) @ '']'' @ rest) = Some (vs, rest)"
      using Array.IH Array.prems by (intro read_items_render) (auto simp: n Cons list_all_iff)
    moreover obtain c cs where "render w = c # cs" and "c \<noteq> CHR '']''"
      using render_start [of w] Array.prems(1) by (auto simp: Cons)
    then have "\<not> prefix '']'' (join '','' (map render vs) @ '']'' @ rest)"
      by (cases ws) (simp_all add: Cons)
    ultimately show ?thesis
      by (simp add: n quote_def)
  qed
next
  case (Object ms)
  then obtain m where n: "n = Suc m"
    by (cases n) auto
  show ?case
  proof (cases ms)
    case Nil
    then show ?thesis
      by (simp add: n quote_def)
  next
    case (Cons w ws)
    have "read_members m (join '','' (map render_member ms) @ ''}'' @ rest) = Some (ms, rest)"
    proof (rule read_members_render)
      show "read_value k (render (snd x) @ r) = Some (snd x, r)"
        if "x \<in> set ms" "length (render (snd x)) \<le> k" "ends_number r" for x k r
        using Object.IH [of x "snd x" k r] Object.prems(1) that by (auto simp: list_all_iff snds.simps)
      show "ms \<noteq> []" and "length (join '','' (map render_member ms)) < m"
        using Object.prems(2) by (simp_all add: n Cons)
    qed
    moreover have "\<not> prefix ''}'' (join '','' (map render_member ms) @ ''}'' @ rest)"
      by (cases ws) (simp_all add: Cons write_string_def quote_def)
    ultimately show ?thesis
      by (simp add: n quote_def)
  qed
qed

text \<open>C28: The rendering of every value is read back as that value by a reader of the JSON grammar:
  quoting and escaping lose nothing, commas and brackets nest, so that different values are
  never written alike. Numbers printed from integers satisfy the hypothesis.\<close>

theorem json_roundtrip:
  assumes "json_ok v"
  shows "read_json (render v) = Some v
    \<and> read_json (render (Object [(key, v), (key', json_number signed_decimal i)])) =
        Some (Object [(key, v), (key', json_number signed_decimal i)])"
proof -
  have "ends_number []"
    by (simp add: ends_number_def)
  then have "read_json (render w) = Some w" if "json_ok w" for w
    using read_value_render [OF that order_refl, of "[]"] by (simp add: read_json_def)
  from this [OF assms] this [of "Object [(key, v), (key', json_number signed_decimal i)]"] assms
  show ?thesis
    by (simp add: json_number_def number_ok_signed_decimal del: render.simps)
qed

theorem json_roundtrip_witness:
  "read_json (render (Object [(''text'', String [CHR ''a'', CHR 0x0A, CHR 0x22, CHR 0x5C, CHR 0x01]),
      (''items'', Array [Number ''-1.5e+3'', Null, Bool True, Array [], Object []])])) =
    Some (Object [(''text'', String [CHR ''a'', CHR 0x0A, CHR 0x22, CHR 0x5C, CHR 0x01]),
      (''items'', Array [Number ''-1.5e+3'', Null, Bool True, Array [], Object []])])"
proof -
  have "number_ok ''-1.5e+3''"
    by code_simp
  then show ?thesis
    by (intro json_roundtrip [THEN conjunct1]) simp
qed

lemma escape_printable:
  assumes "x \<in> set (escape_char c)"
  shows "32 \<le> (of_char x :: nat)"
proof -
  have digit: "32 \<le> (of_char (hex_digit d) :: nat)" if "d < 16" for d
    using hex_digit_code [OF that] by (auto simp del: hex_digit.simps)
  have "unat (byte_of_char c) div 16 < 16" "unat (byte_of_char c) mod 16 < 16"
    using unat_byte_less [of "byte_of_char c"] by auto
  then have "32 \<le> (of_char x :: nat)" if "x \<in> set (hex_byte (byte_of_char c))"
    using that digit unfolding hex_byte_def by (metis empty_iff insert_iff list.set)
  then show ?thesis
    using assms by (auto simp: escape_char_def special_chars split: if_splits)
qed

lemma write_string_printable: "x \<in> set (write_string s) \<Longrightarrow> 32 \<le> (of_char x :: nat)"
  by (auto simp: write_string_def special_chars dest: escape_printable)

lemma join_printable:
  "\<lbrakk>x \<in> set (join sep xs); \<And>y s. s \<in> set xs \<Longrightarrow> y \<in> set s \<Longrightarrow> 32 \<le> (of_char y :: nat);
    \<And>y. y \<in> set sep \<Longrightarrow> 32 \<le> (of_char y :: nat)\<rbrakk> \<Longrightarrow> 32 \<le> (of_char x :: nat)"
  by (induction sep xs rule: join.induct) auto

lemma number_printable: "number_char x \<Longrightarrow> 32 \<le> (of_char x :: nat)"
  by (auto simp: number_char_def is_digit_def)

lemma render_printable: "json_ok v \<Longrightarrow> x \<in> set (render v) \<Longrightarrow> 32 \<le> (of_char x :: nat)"
proof (induction v arbitrary: x)
  case (Number s)
  then show ?case
    using number_ok_chars(1) [of s] by (auto simp: list_all_iff intro: number_printable)
next
  case (String s)
  then show ?case
    by (auto intro: write_string_printable)
next
  case (Array vs)
  then show ?case
    by (auto simp: list_all_iff elim!: join_printable)
next
  case (Object ms)
  have "32 \<le> (of_char y :: nat)" if "m \<in> set ms" and "y \<in> set (render_member m)" for m y
    using that Object.IH [of m "snd m" y] Object.prems(1)
    by (auto simp: list_all_iff snds.simps intro: write_string_printable)
  with Object.prems(2) show ?case
    by (auto elim!: join_printable)
qed (auto split: if_splits)

text \<open>A rendered value is one line of printable text: no control character is ever written raw,
  so that one value per line can be streamed.\<close>

theorem render_single_line:
  assumes "json_ok v"
  shows "list_all (\<lambda>c. 32 \<le> (of_char c :: nat)) (render v) \<and> lines (render v @ [newline]) = [render v]"
proof -
  have printable: "list_all (\<lambda>c. 32 \<le> (of_char c :: nat)) (render v)"
    using render_printable [OF assms] by (simp add: list_all_iff)
  then have "lines (file_text [render v]) = [render v]"
    by (intro lines_file_text) (simp add: plain_line_printable)
  with printable show ?thesis
    by (simp add: file_text_def del: lines.simps)
qed

theorem render_single_line_witness:
  "lines (render (String [CHR ''a'', CHR 0x0A, CHR ''b'', CHR 0x0D]) @ [newline]) =
    [write_string [CHR ''a'', CHR 0x0A, CHR ''b'', CHR 0x0D]]"
  using render_single_line [of "String [CHR ''a'', CHR 0x0A, CHR ''b'', CHR 0x0D]"] by simp

end
