(* ===== verification/Ethtool.thy ===== *)
theory Ethtool
  imports Generic_Netlink Text_Layout Paths
begin

text \<open>
  \<open>ethtool.rs\<close>: the decoding of ethtool bitsets and standard statistics, and the consolidated
  description of every interface. Requests go through the client of \<open>Generic_Netlink\<close>, one
  after the other on one socket; \<open>sysfs\<close> is a parameter.
\<close>

section \<open>Constants\<close>

definition CMD_LINKINFO_GET :: u8 where [simp]: "CMD_LINKINFO_GET = 2"
definition CMD_LINKMODES_GET :: u8 where [simp]: "CMD_LINKMODES_GET = 4"
definition CMD_FEATURES_GET :: u8 where [simp]: "CMD_FEATURES_GET = 11"
definition CMD_EEE_GET :: u8 where [simp]: "CMD_EEE_GET = 23"
definition CMD_STATS_GET :: u8 where [simp]: "CMD_STATS_GET = 32"
definition HEADER_DEV_INDEX :: u16 where [simp]: "HEADER_DEV_INDEX = 1"
definition LINKINFO_PORT :: u16 where [simp]: "LINKINFO_PORT = 2"
definition LINKINFO_PHY_ADDRESS :: u16 where [simp]: "LINKINFO_PHY_ADDRESS = 3"
definition LINKINFO_TP_MDIX :: u16 where [simp]: "LINKINFO_TP_MDIX = 4"
definition LINKINFO_TRANSCEIVER :: u16 where [simp]: "LINKINFO_TRANSCEIVER = 6"
definition LINKMODES_AUTONEG :: u16 where [simp]: "LINKMODES_AUTONEG = 2"
definition LINKMODES_OURS :: u16 where [simp]: "LINKMODES_OURS = 3"
definition LINKMODES_PEER :: u16 where [simp]: "LINKMODES_PEER = 4"
definition LINKMODES_SPEED :: u16 where [simp]: "LINKMODES_SPEED = 5"
definition LINKMODES_DUPLEX :: u16 where [simp]: "LINKMODES_DUPLEX = 6"
definition LINKMODES_LANES :: u16 where [simp]: "LINKMODES_LANES = 9"
definition FEATURES_HW :: u16 where [simp]: "FEATURES_HW = 2"
definition FEATURES_WANTED :: u16 where [simp]: "FEATURES_WANTED = 3"
definition FEATURES_ACTIVE :: u16 where [simp]: "FEATURES_ACTIVE = 4"
definition EEE_MODES_OURS :: u16 where [simp]: "EEE_MODES_OURS = 2"
definition EEE_MODES_PEER :: u16 where [simp]: "EEE_MODES_PEER = 3"
definition EEE_ACTIVE :: u16 where [simp]: "EEE_ACTIVE = 4"
definition EEE_ENABLED :: u16 where [simp]: "EEE_ENABLED = 5"
definition EEE_TX_LPI_ENABLED :: u16 where [simp]: "EEE_TX_LPI_ENABLED = 6"
definition EEE_TX_LPI_TIMER :: u16 where [simp]: "EEE_TX_LPI_TIMER = 7"
definition BITSET_BITS :: u16 where [simp]: "BITSET_BITS = 3"
definition BITSET_VALUE :: u16 where [simp]: "BITSET_VALUE = 4"
definition BITSET_NOMASK :: u16 where [simp]: "BITSET_NOMASK = 1"
definition BITSET_SIZE :: u16 where [simp]: "BITSET_SIZE = 2"
definition BITSET_BITS_BIT :: u16 where [simp]: "BITSET_BITS_BIT = 1"
definition BITSET_BIT_INDEX :: u16 where [simp]: "BITSET_BIT_INDEX = 1"
definition BITSET_BIT_NAME :: u16 where [simp]: "BITSET_BIT_NAME = 2"
definition BITSET_BIT_VALUE :: u16 where [simp]: "BITSET_BIT_VALUE = 3"
definition STATS_HEADER :: u16 where [simp]: "STATS_HEADER = 2"
definition STATS_GROUPS :: u16 where [simp]: "STATS_GROUPS = 3"
definition STATS_GROUP :: u16 where [simp]: "STATS_GROUP = 4"
definition STATS_GROUP_ID :: u16 where [simp]: "STATS_GROUP_ID = 2"
definition STATS_GROUP_STAT :: u16 where [simp]: "STATS_GROUP_STAT = 4"
definition STATS_GROUP_HIST_RX :: u16 where [simp]: "STATS_GROUP_HIST_RX = 5"
definition STATS_GROUP_HIST_TX :: u16 where [simp]: "STATS_GROUP_HIST_TX = 6"
definition STATS_HIST_LOW :: u16 where [simp]: "STATS_HIST_LOW = 7"
definition STATS_HIST_HIGH :: u16 where [simp]: "STATS_HIST_HIGH = 8"
definition STATS_HIST_VALUE :: u16 where [simp]: "STATS_HIST_VALUE = 9"

section \<open>Records\<close>

record statistic =
  st_group :: string
  st_name :: string
  st_value :: u64

record device =
  d_interface_index :: u32
  d_name :: string
  d_driver :: "string option"
  d_driver_module :: "string option"
  d_driver_version :: "string option"
  d_port :: "string option"
  d_phy_address :: "u8 option"
  d_mdix :: "string option"
  d_transceiver :: "string option"
  d_speed_mbps :: "u32 option"
  d_duplex :: "string option"
  d_autonegotiation :: "bool option"
  d_lanes :: "u32 option"
  d_supported_modes :: "string list"
  d_peer_modes :: "string list"
  d_hardware_features :: "string list"
  d_wanted_features :: "string list"
  d_active_features :: "string list"
  d_eee_enabled :: "bool option"
  d_eee_active :: "bool option"
  d_eee_tx_lpi_enabled :: "bool option"
  d_eee_tx_lpi_timer_us :: "u32 option"
  d_eee_modes :: "string list"
  d_eee_peer_modes :: "string list"
  d_statistics :: "statistic list"

record driver_files =
  df_read_link :: "string \<Rightarrow> string result"
  df_read_to_string :: "string \<Rightarrow> string result"

section \<open>Attributes of a reply\<close>

definition nested_bytes :: "attribute list \<Rightarrow> u16 \<Rightarrow> bytes option" where
  "nested_bytes attrs kind = find_map (\<lambda>(k, v). if k = kind then Some v else None) attrs"

definition bytes_attribute :: "generic_message \<Rightarrow> u16 \<Rightarrow> bytes option" where
  "bytes_attribute message kind =
    find_map (\<lambda>(k, v). if k = kind then Some v else None) (gm_attributes message)"

definition u8_attribute :: "generic_message \<Rightarrow> u16 \<Rightarrow> u8 option" where
  "u8_attribute message kind = Option.bind (bytes_attribute message kind) first_opt"

definition u32_attribute :: "generic_message \<Rightarrow> u16 \<Rightarrow> u32 option" where
  "u32_attribute message kind = Option.bind (bytes_attribute message kind) native_u32"

definition port_name :: "u8 \<Rightarrow> string" where
  "port_name port =
   label ''port-''
   [(0, ''twisted-pair''), (1, ''aui''), (2, ''mii''), (3, ''fibre''), (4, ''bnc''),
    (5, ''direct-attach''), (0xef, ''none''), (0xff, ''other'')]
   port"

definition mdix_name :: "u8 \<Rightarrow> string" where
  "mdix_name mdix =
   label ''mdix-'' [(0, ''invalid''), (1, ''mdi''), (2, ''mdi-x''), (3, ''automatic'')] mdix"

definition transceiver_name :: "u8 \<Rightarrow> string" where
  "transceiver_name transceiver =
   label ''transceiver-'' [(0, ''internal''), (1, ''external'')] transceiver"

definition duplex_name :: "u8 \<Rightarrow> string" where
  "duplex_name duplex = label ''duplex-'' [(0, ''half''), (1, ''full''), (0xff, ''unknown'')] duplex"

section \<open>Bitsets\<close>

type_synonym bit_entry = "u32 \<times> string \<times> bool"

definition parse_bit :: "bool \<Rightarrow> attribute \<Rightarrow> bit_entry option" where
  "parse_bit list a =
    Option.bind (nested_attributes (snd a)) (\<lambda>bit.
    Option.bind (Option.bind (nested_bytes bit BITSET_BIT_INDEX) native_u32) (\<lambda>index.
    Option.bind (Option.bind (nested_bytes bit BITSET_BIT_NAME) nul_terminated_string) (\<lambda>name.
    Some (index, name, list \<or> list_ex (\<lambda>(k, _). k = BITSET_BIT_VALUE) bit))))"

definition bitset_entries :: "generic_message \<Rightarrow> u16 \<Rightarrow> bit_entry list" where
  "bitset_entries message kind =
    (case Option.bind (bytes_attribute message kind) nested_attributes of
       None \<Rightarrow> []
     | Some bitset \<Rightarrow>
         (case Option.bind (nested_bytes bitset BITSET_BITS) nested_attributes of
            None \<Rightarrow> []
          | Some bits \<Rightarrow>
              let list = list_ex (\<lambda>(k, _). k = BITSET_NOMASK) bitset
              in sort_key fst (filter_map (parse_bit list) (filter (\<lambda>(k, _). k = BITSET_BITS_BIT) bits))))"

definition selected_entry_names :: "bit_entry list \<Rightarrow> string list" where
  "selected_entry_names entries = sort (map (\<lambda>(_, name, _). name) (filter (\<lambda>(_, _, selected). selected) entries))"

definition parse_bit_index :: "attribute \<Rightarrow> u32 option" where
  "parse_bit_index a =
    Option.bind (nested_attributes (snd a)) (\<lambda>bit.
      if list_ex (\<lambda>(k, _). k = BITSET_BIT_VALUE) bit
      then Option.bind (nested_bytes bit BITSET_BIT_INDEX) native_u32 else None)"

definition bit_is_set :: "bytes \<Rightarrow> u32 \<Rightarrow> bool" where
  "bit_is_set bitmap index =
    (case get_at (unat index div 8) bitmap of
       None \<Rightarrow> False
     | Some b \<Rightarrow> b AND push_bit (unat index mod 8) 1 \<noteq> 0)"

definition bitset_names_with_reference :: "generic_message \<Rightarrow> u16 \<Rightarrow> bit_entry list \<Rightarrow> string list" where
  "bitset_names_with_reference message kind reference =
    (let selected = selected_entry_names (bitset_entries message kind)
     in if selected \<noteq> [] then selected
        else
          (case Option.bind (bytes_attribute message kind) nested_attributes of
             None \<Rightarrow> []
           | Some bitset \<Rightarrow>
               let selected_indices =
                 (case Option.bind (nested_bytes bitset BITSET_BITS) nested_attributes of
                    None \<Rightarrow> []
                  | Some bits \<Rightarrow> filter_map parse_bit_index (filter (\<lambda>(k, _). k = BITSET_BITS_BIT) bits))
               in if selected_indices \<noteq> [] then
                    sort (map (\<lambda>(_, name, _). name)
                      (filter (\<lambda>(index, _, _). index \<in> set selected_indices) reference))
                  else
                    (case nested_bytes bitset BITSET_VALUE of
                       None \<Rightarrow> []
                     | Some bitmap \<Rightarrow>
                         sort (map (\<lambda>(_, name, _). name)
                           (filter (\<lambda>(index, _, _). bit_is_set bitmap index) reference)))))"

section \<open>Statistics\<close>

definition requested_stat_groups :: attribute where
  "requested_stat_groups =
    attribute_nested STATS_GROUPS
      [(BITSET_NOMASK, []), attribute_u32 BITSET_SIZE 5, attribute_u32 BITSET_VALUE 0x1f]"

definition statistic_group_name :: "u32 \<Rightarrow> string" where
  "statistic_group_name group_id =
    unwrap_or ''unknown'' (map_of
      [(0, ''ethernet-phy''), (1, ''ethernet-mac''), (2, ''ethernet-control''), (3, ''rmon''), (4, ''phy'')]
      group_id)"

definition statistic_name :: "u32 \<Rightarrow> u16 \<Rightarrow> string" where
  "statistic_name group_id statistic =
    unwrap_or (''statistic-'' @ decimal (unat statistic)) (map_of
      [((0, 0), ''symbol-errors''),
       ((1, 0), ''transmitted-packets''), ((1, 1), ''single-collision-frames''),
       ((1, 2), ''multiple-collision-frames''), ((1, 3), ''received-packets''),
       ((1, 4), ''frame-check-sequence-errors''), ((1, 5), ''alignment-errors''),
       ((1, 6), ''transmitted-bytes''), ((1, 7), ''deferred-transmissions''),
       ((1, 8), ''late-collisions''), ((1, 9), ''excessive-collisions''),
       ((1, 10), ''internal-transmit-errors''), ((1, 11), ''carrier-sense-errors''),
       ((1, 12), ''received-bytes''), ((1, 13), ''internal-receive-errors''),
       ((1, 14), ''transmitted-multicast-frames''), ((1, 15), ''transmitted-broadcast-frames''),
       ((1, 16), ''excessive-deferrals''), ((1, 17), ''received-multicast-frames''),
       ((1, 18), ''received-broadcast-frames''), ((1, 19), ''in-range-length-errors''),
       ((1, 20), ''out-of-range-length-errors''), ((1, 21), ''frame-too-long-errors''),
       ((2, 0), ''transmitted-control-frames''), ((2, 1), ''received-control-frames''),
       ((2, 2), ''unsupported-opcodes-received''),
       ((3, 0), ''undersize-packets''), ((3, 1), ''oversize-packets''), ((3, 2), ''fragments''),
       ((3, 3), ''jabbers''),
       ((4, 0), ''received-packets''), ((4, 1), ''received-bytes''), ((4, 2), ''receive-errors''),
       ((4, 3), ''transmitted-packets''), ((4, 4), ''transmitted-bytes''), ((4, 5), ''transmit-errors'')]
      (group_id, statistic))"

definition counters_of :: "u32 \<Rightarrow> attribute \<Rightarrow> statistic list" where
  "counters_of group_id a =
    (case nested_attributes (snd a) of
       None \<Rightarrow> []
     | Some counters \<Rightarrow>
         filter_map (\<lambda>(k, v). map_option (\<lambda>n.
             \<lparr>st_group = statistic_group_name group_id, st_name = statistic_name group_id k, st_value = n\<rparr>)
           (native_u64 v)) counters)"

definition histogram_of :: "u32 \<Rightarrow> string \<Rightarrow> attribute \<Rightarrow> statistic option" where
  "histogram_of group_id direction a =
    Option.bind (nested_attributes (snd a)) (\<lambda>bucket.
    Option.bind (Option.bind (nested_bytes bucket STATS_HIST_LOW) native_u32) (\<lambda>low.
    Option.bind (Option.bind (nested_bytes bucket STATS_HIST_HIGH) native_u32) (\<lambda>high.
    Option.bind (Option.bind (nested_bytes bucket STATS_HIST_VALUE) native_u64) (\<lambda>n.
    Some \<lparr>st_group = statistic_group_name group_id,
      st_name = direction @ ''-packets-'' @ decimal (unat low) @ ''-'' @ decimal (unat high) @ ''-bytes'',
      st_value = n\<rparr>))))"

definition group_statistics :: "attribute \<Rightarrow> statistic list" where
  "group_statistics a =
    (case nested_attributes (snd a) of
       None \<Rightarrow> []
     | Some group_attributes \<Rightarrow>
         (case Option.bind (nested_bytes group_attributes STATS_GROUP_ID) native_u32 of
            None \<Rightarrow> []
          | Some group_id \<Rightarrow>
              concat (map (counters_of group_id) (filter (\<lambda>(k, _). k = STATS_GROUP_STAT) group_attributes))
              @ concat (map (\<lambda>(kind, direction).
                  filter_map (histogram_of group_id direction) (filter (\<lambda>(k, _). k = kind) group_attributes))
                [(STATS_GROUP_HIST_RX, ''receive''), (STATS_GROUP_HIST_TX, ''transmit'')])))"

definition statistic_key :: "statistic \<Rightarrow> string \<times> string" where
  "statistic_key s = (st_group s, st_name s)"

definition parse_statistics :: "generic_message \<Rightarrow> statistic list" where
  "parse_statistics message =
    sort_key statistic_key
      (concat (map group_statistics (filter (\<lambda>(k, _). k = STATS_GROUP) (gm_attributes message))))"

section \<open>Devices\<close>

definition symlink_name :: "driver_files \<Rightarrow> string \<Rightarrow> string option" where
  "symlink_name fs path =
    Option.bind (Option.bind (result_option (df_read_link fs path)) file_name) to_str"

definition read_trimmed :: "driver_files \<Rightarrow> string \<Rightarrow> string option" where
  "read_trimmed fs path =
    option_filter (\<lambda>v. v \<noteq> []) (map_option trim (result_option (df_read_to_string fs path)))"

definition query ::
  "kernel \<Rightarrow> client \<Rightarrow> u8 \<Rightarrow> attribute list \<Rightarrow> (generic_message option \<times> client) option" where
  "query k client command selector =
    map_option (\<lambda>(r, client'). (Option.bind (result_option r) first_opt, client'))
      (request k client command 1 False selector)"

definition selector_of :: "u16 \<Rightarrow> link \<Rightarrow> attribute" where
  "selector_of kind link = attribute_nested kind [attribute_u32 HEADER_DEV_INDEX (l_interface_index link)]"

definition names_or_none :: "(generic_message \<Rightarrow> 'a list) \<Rightarrow> generic_message option \<Rightarrow> 'a list" where
  "names_or_none f message = unwrap_or [] (map_option f message)"

definition device_of ::
  "driver_files \<Rightarrow> link \<Rightarrow> generic_message option \<Rightarrow> generic_message option \<Rightarrow> generic_message option
    \<Rightarrow> generic_message option \<Rightarrow> statistic list \<Rightarrow> device" where
  "device_of fs link link_info link_modes features eee statistics =
    (let sysfs = path_join (path_join ''/sys/class/net'' (l_name link)) ''device'';
         link_mode_names = names_or_none (\<lambda>m. bitset_entries m LINKMODES_OURS) link_modes;
         feature_names = names_or_none (\<lambda>m. bitset_entries m FEATURES_HW) features;
         eee_mode_names = names_or_none (\<lambda>m. bitset_entries m EEE_MODES_OURS) eee
     in \<lparr>d_interface_index = l_interface_index link,
         d_name = l_name link,
         d_driver = symlink_name fs (path_join sysfs ''driver''),
         d_driver_module = symlink_name fs (path_join sysfs ''driver/module''),
         d_driver_version = read_trimmed fs (path_join sysfs ''driver/module/version''),
         d_port = Option.bind link_info (\<lambda>m. map_option port_name (u8_attribute m LINKINFO_PORT)),
         d_phy_address = Option.bind link_info (\<lambda>m. u8_attribute m LINKINFO_PHY_ADDRESS),
         d_mdix = Option.bind link_info (\<lambda>m. map_option mdix_name (u8_attribute m LINKINFO_TP_MDIX)),
         d_transceiver = Option.bind link_info (\<lambda>m.
           map_option transceiver_name (u8_attribute m LINKINFO_TRANSCEIVER)),
         d_speed_mbps = option_filter (\<lambda>speed. speed \<noteq> - 1)
           (Option.bind link_modes (\<lambda>m. u32_attribute m LINKMODES_SPEED)),
         d_duplex = Option.bind link_modes (\<lambda>m. map_option duplex_name (u8_attribute m LINKMODES_DUPLEX)),
         d_autonegotiation = map_option (\<lambda>v. v \<noteq> 0)
           (Option.bind link_modes (\<lambda>m. u8_attribute m LINKMODES_AUTONEG)),
         d_lanes = Option.bind link_modes (\<lambda>m. u32_attribute m LINKMODES_LANES),
         d_supported_modes = selected_entry_names link_mode_names,
         d_peer_modes = names_or_none (\<lambda>m. bitset_names_with_reference m LINKMODES_PEER link_mode_names) link_modes,
         d_hardware_features = selected_entry_names feature_names,
         d_wanted_features =
           names_or_none (\<lambda>m. bitset_names_with_reference m FEATURES_WANTED feature_names) features,
         d_active_features =
           names_or_none (\<lambda>m. bitset_names_with_reference m FEATURES_ACTIVE feature_names) features,
         d_eee_enabled = map_option (\<lambda>v. v \<noteq> 0) (Option.bind eee (\<lambda>m. u8_attribute m EEE_ENABLED)),
         d_eee_active = map_option (\<lambda>v. v \<noteq> 0) (Option.bind eee (\<lambda>m. u8_attribute m EEE_ACTIVE)),
         d_eee_tx_lpi_enabled = map_option (\<lambda>v. v \<noteq> 0)
           (Option.bind eee (\<lambda>m. u8_attribute m EEE_TX_LPI_ENABLED)),
         d_eee_tx_lpi_timer_us = Option.bind eee (\<lambda>m. u32_attribute m EEE_TX_LPI_TIMER),
         d_eee_modes = selected_entry_names eee_mode_names,
         d_eee_peer_modes = names_or_none (\<lambda>m. bitset_names_with_reference m EEE_MODES_PEER eee_mode_names) eee,
         d_statistics = statistics\<rparr>)"

text \<open>The loop over the links; \<open>None\<close> when a request waits for ever.\<close>

fun device_loop ::
  "kernel \<Rightarrow> driver_files \<Rightarrow> link list \<Rightarrow> client \<Rightarrow> (device list \<times> client) option" where
  "device_loop k fs [] client = Some ([], client)"
| "device_loop k fs (link # rest) client =
    (if list_ex (\<lambda>flag. flag = ''loopback'') (split_char (CHR ''|'') (l_flags link))
     then device_loop k fs rest client
     else
       do {
         (link_info, client) \<leftarrow> query k client CMD_LINKINFO_GET [selector_of 1 link];
         (link_modes, client) \<leftarrow> query k client CMD_LINKMODES_GET [selector_of 1 link];
         (features, client) \<leftarrow> query k client CMD_FEATURES_GET [selector_of 1 link];
         (eee, client) \<leftarrow> query k client CMD_EEE_GET [selector_of 1 link];
         (stats, client) \<leftarrow> query k client CMD_STATS_GET
           [selector_of STATS_HEADER link, requested_stat_groups];
         (devices, client) \<leftarrow> device_loop k fs rest client;
         Some (device_of fs link link_info link_modes features eee (names_or_none parse_statistics stats)
           # devices, client)
       })"

definition devices :: "kernel \<Rightarrow> kernel \<Rightarrow> driver_files \<Rightarrow> device list result option" where
  "devices k_route k_generic fs =
    (case links k_route of
       None \<Rightarrow> None
     | Some (Err e) \<Rightarrow> Some (Err e)
     | Some (Ok ls) \<Rightarrow>
         (case connect k_generic ''ethtool'' of
            None \<Rightarrow> None
          | Some (Err e) \<Rightarrow> Some (Err e)
          | Some (Ok client) \<Rightarrow> map_option (\<lambda>(ds, _). Ok ds) (device_loop k_generic fs ls client)))"

section \<open>Bitsets of the kernel\<close>

text \<open>The three forms in which the kernel writes a bitset: a list of the selected bits, a list of
  bits of which the selected ones carry a flag, and a bitmap of 32-bit words.\<close>

definition encode_bit :: "bool \<Rightarrow> bit_entry \<Rightarrow> attribute" where
  "encode_bit nomask e = (case e of (index, name, selected) \<Rightarrow>
    attribute_nested BITSET_BITS_BIT
      ([attribute_u32 BITSET_BIT_INDEX index, (BITSET_BIT_NAME, text_value name)]
       @ (if selected \<and> \<not> nomask then [(BITSET_BIT_VALUE, [])] else [])))"

definition nomask_flag :: "bool \<Rightarrow> attribute list" where
  "nomask_flag nomask = (if nomask then [(BITSET_NOMASK, [])] else [])"

definition verbose_bitset :: "u16 \<Rightarrow> bool \<Rightarrow> bit_entry list \<Rightarrow> attribute" where
  "verbose_bitset kind nomask entries =
    attribute_nested kind (nomask_flag nomask
      @ [attribute_u32 BITSET_SIZE (of_nat (length entries)),
         attribute_nested BITSET_BITS (map (encode_bit nomask) entries)])"

definition compact_bitset :: "u16 \<Rightarrow> bool \<Rightarrow> u32 list \<Rightarrow> attribute" where
  "compact_bitset kind nomask ws =
    attribute_nested kind (nomask_flag nomask
      @ [attribute_u32 BITSET_SIZE (of_nat (32 * length ws)),
         (BITSET_VALUE, concat (map (to_le_bytes 4) ws))])"

definition entries_ok :: "bool \<Rightarrow> bit_entry list \<Rightarrow> bool" where
  "entries_ok nomask entries \<longleftrightarrow>
    list_all (\<lambda>(_, name, _). kernel_text name) entries
    \<and> length (snd (attribute_nested BITSET_BITS (map (encode_bit nomask) entries))) < 65532"

lemma encodable_simps [simp]:
  "encodable_attribute (attribute_u32 kind v)"
  "kernel_text name \<Longrightarrow> encodable_attribute (kind, text_value name)"
  "encodable_attribute (kind, [])"
  by (simp_all add: encodable_attribute_def attribute_u32_def kernel_text_def)

lemma length_attribute_u32 [simp]: "length (attribute_bytes (attribute_u32 kind v)) = 8"
  by (simp add: length_attribute_bytes attribute_u32_def align_to_4_def)

lemma encodable_encode_bit:
  assumes "kernel_text name"
  shows "encodable_attribute (encode_bit nomask (index, name, selected))"
proof -
  have "length name < 2 ^ 15"
    using assms by (simp add: kernel_text_def)
  then show ?thesis
    using align_to_4_less [of "length name + 1"]
    by (simp add: encode_bit_def encodable_attribute_def length_nested length_attribute_bytes
        attribute_u32_def align_to_4_def [of 0] align_to_4_def [of 4])
qed

lemma parse_bit_encoded:
  assumes "kernel_text name"
  shows "parse_bit nomask (masked (encode_bit nomask (index, name, selected))) =
    Some (index, name, nomask \<or> selected)"
proof -
  let ?fields = "[attribute_u32 BITSET_BIT_INDEX index, (BITSET_BIT_NAME, text_value name)]
    @ (if selected \<and> \<not> nomask then [(BITSET_BIT_VALUE, [])] else [])"
  have "nested_attributes (snd (masked (encode_bit nomask (index, name, selected)))) = Some (map masked ?fields)"
    using assms unfolding encode_bit_def prod.case masked_nested snd_conv
    by (intro nested_decode) simp
  then show ?thesis
    using assms
    by (auto simp: parse_bit_def nested_bytes_def masked_def attribute_u32_def text_value_parse)
qed

lemma masked_kind_bit [simp]: "fst (masked (encode_bit nomask e)) = BITSET_BITS_BIT"
  by (cases e) (simp add: encode_bit_def masked_nested)

lemma parse_bits_encoded:
  assumes "list_all (\<lambda>(_, name, _). kernel_text name) entries"
  shows "filter_map (parse_bit nomask)
      (filter (\<lambda>(k, _). k = BITSET_BITS_BIT) (map masked (map (encode_bit nomask) entries))) =
    map (\<lambda>(index, name, selected). (index, name, nomask \<or> selected)) entries"
  using assms
proof (induction entries)
  case (Cons e entries)
  obtain index name selected where e: "e = (index, name, selected)"
    by (cases e)
  have "(case masked (encode_bit nomask e) of (k, _) \<Rightarrow> k = BITSET_BITS_BIT) = True"
    using masked_kind_bit [of nomask e] by (simp add: case_prod_beta)
  with Cons parse_bit_encoded [of name nomask index selected] show ?case
    by (simp add: e)
qed simp

lemma verbose_bitset_decode:
  assumes "entries_ok nomask entries"
  shows "nested_attributes (snd (verbose_bitset kind nomask entries)) =
      Some (map masked (nomask_flag nomask @ [attribute_u32 BITSET_SIZE (of_nat (length entries)),
         attribute_nested BITSET_BITS (map (encode_bit nomask) entries)]))"
    and "nested_attributes (snd (attribute_nested BITSET_BITS (map (encode_bit nomask) entries))) =
      Some (map masked (map (encode_bit nomask) entries))"
proof -
  have "list_all encodable_attribute (map (encode_bit nomask) entries)"
    using assms by (auto simp: entries_ok_def list_all_iff intro!: encodable_encode_bit)
  then show "nested_attributes (snd (attribute_nested BITSET_BITS (map (encode_bit nomask) entries))) =
      Some (map masked (map (encode_bit nomask) entries))"
    by (rule nested_decode)
  have "encodable_attribute (attribute_nested BITSET_BITS (map (encode_bit nomask) entries))"
    using assms by (simp add: entries_ok_def encodable_attribute_def)
  then have "list_all encodable_attribute
      (nomask_flag nomask @ [attribute_u32 BITSET_SIZE (of_nat (length entries)),
        attribute_nested BITSET_BITS (map (encode_bit nomask) entries)])"
    by (simp add: nomask_flag_def)
  then show "nested_attributes (snd (verbose_bitset kind nomask entries)) =
      Some (map masked (nomask_flag nomask @ [attribute_u32 BITSET_SIZE (of_nat (length entries)),
         attribute_nested BITSET_BITS (map (encode_bit nomask) entries)]))"
    unfolding verbose_bitset_def by (rule nested_decode)
qed

lemma verbose_bits:
  "nested_bytes (map masked (nomask_flag nomask
      @ [attribute_u32 BITSET_SIZE n, attribute_nested BITSET_BITS (map (encode_bit nomask) entries)]))
     BITSET_BITS =
    Some (snd (attribute_nested BITSET_BITS (map (encode_bit nomask) entries)))"
  by (simp add: nested_bytes_def nomask_flag_def masked_nested) (simp add: masked_def attribute_u32_def)

lemma bitset_entries_verbose:
  assumes "entries_ok nomask entries"
    and "bytes_attribute message kind = Some (snd (verbose_bitset kind nomask entries))"
  shows "bitset_entries message kind =
    sort_key fst (map (\<lambda>(index, name, selected). (index, name, nomask \<or> selected)) entries)"
proof -
  let ?bitset = "map masked (nomask_flag nomask @ [attribute_u32 BITSET_SIZE (of_nat (length entries)),
         attribute_nested BITSET_BITS (map (encode_bit nomask) entries)])"
  note bits = verbose_bits [of nomask "of_nat (length entries)" entries]
  have list: "list_ex (\<lambda>(k, _). k = BITSET_NOMASK) ?bitset = nomask"
    by (simp add: nomask_flag_def masked_nested) (simp add: masked_def attribute_u32_def)
  have "list_all (\<lambda>(_, name, _). kernel_text name) entries"
    using assms(1) by (simp add: entries_ok_def)
  then show ?thesis
    unfolding bitset_entries_def assms(2) Option.bind.bind_lunit verbose_bitset_decode [OF assms(1)]
      option.case bits list Let_def
    by (simp only: parse_bits_encoded)
qed

end
