(* ===== verification/Generic_Replies.thy ===== *)
theory Generic_Replies
  imports Generic_Netlink
begin

text \<open>
  Kernels that answer the requests of a generic-netlink family, for the theorems about
  \<open>ethtool.rs\<close> and \<open>wifi.rs\<close>: each request is answered by one message, by the messages of a
  dump, or by an error report, and the client learns exactly that.
\<close>

section \<open>One reply per request\<close>

text \<open>An error report of the kernel: the negative error number and the header of the request.\<close>

definition error_message :: "u32 \<Rightarrow> i32 \<Rightarrow> bytes" where
  "error_message sequence code =
    message_header_bytes
      \<lparr>mh_length = 36, mh_message_type = NLMSG_ERROR, mh_flags = 0, mh_sequence = sequence, mh_port_id = 0\<rparr>
    @ to_le_bytes 4 code @ replicate 16 0"

lemma error_message_simps [simp]:
  "framed (error_message s code)" "length (error_message s code) = 36"
  "mh_sequence (message_header_of (error_message s code)) = s"
  "mh_message_type (message_header_of (error_message s code)) = NLMSG_ERROR"
  by (simp_all add: framed_def error_message_def)

lemma parse_messages_error:
  assumes "code \<noteq> 0"
  shows "parse_messages (concat (map pad_to_4 [error_message s code])) t s = Err (Os (- code))"
proof -
  have "read_i32 (error_message s code) header_size = Some code"
    by (simp add: read_i32_def error_message_def get_from_def read_unaligned_def wire_simps)
  then have "parse_error (error_message s code) = Err (Os (- code))"
    using assms by (simp add: parse_error_def)
  then show ?thesis
    by (subst parse_messages_frames) (simp_all add: parse_messages_step_def)
qed

lemma parse_messages_single:
  assumes "ordinary_type t" and "small_attributes (gm_attributes g)"
  shows "parse_messages (concat (map pad_to_4 [encode_generic t s g])) t s = Ok [generic_view g]"
proof -
  have "framed (encode_generic t s g)"
    using assms(2) by (simp add: encode_generic_def build_message_framed)
  with assms show ?thesis
    by (subst parse_messages_frames) (simp_all add: parse_step_encode ordinary_type_def)
qed

text \<open>A request that is not a dump reads one datagram and leaves the others in the queue.\<close>

lemma request_single:
  assumes "send_message k m = Ok ()" and "cl_queue c = []" and "k_replies k m = packets [[r]]"
    and "packets_ok (64 * 1024) [[r]]"
    and "m = build_message (cl_family_id c) (cl_sequence c + 1) command version NLM_F_REQUEST attrs"
  shows "request k c command version False attrs =
    Some (parse_messages (concat (map pad_to_4 [r])) (cl_family_id c) (cl_sequence c + 1),
      c\<lparr>cl_sequence := cl_sequence c + 1, cl_queue := []\<rparr>)"
proof -
  have "framed r"
    using assms(4) by (simp add: packets_ok_def)
  then have completion: "\<exists>b. response_has_done (concat (map pad_to_4 [r])) (cl_sequence c + 1) = Ok b"
    by (subst response_has_done_frames) simp_all
  have received: "receive_once (packets [[r]]) = Some (Ok (concat (map pad_to_4 [r])), [])"
    using receive_once_packet [OF assms(4), of "[]"] by (simp add: packets_def)
  have "request_loop (cl_family_id c) (cl_sequence c + 1) False (packets [[r]]) [] =
      Some (parse_messages (concat (map pad_to_4 [r])) (cl_family_id c) (cl_sequence c + 1), [])"
    using completion by (subst request_loop.simps) (auto simp: received split: result.split)
  then show ?thesis
    using assms(1-3,5) by (simp add: request_def Let_def)
qed

lemma connect_complete:
  assumes "open_socket k = Ok ()" and "send_message k (family_request name) = Ok ()"
    and "k_replies k (family_request name) = packets [[encode_generic GENL_ID_CTRL 1 g]]"
    and "packets_ok (64 * 1024) [[encode_generic GENL_ID_CTRL 1 g]]"
    and "small_attributes (gm_attributes g)"
    and "family_id_of [generic_view g] = Some family_id"
  shows "connect k name = Some (Ok \<lparr>cl_family_id = family_id, cl_sequence = 1, cl_queue = []\<rparr>)"
proof -
  have "receive_once (packets [[encode_generic GENL_ID_CTRL 1 g]]) =
      Some (Ok (concat (map pad_to_4 [encode_generic GENL_ID_CTRL 1 g])), [])"
    using receive_once_packet [OF assms(4), of "[]"] by (simp add: packets_def)
  moreover have "parse_messages (concat (map pad_to_4 [encode_generic GENL_ID_CTRL 1 g])) GENL_ID_CTRL 1 =
      Ok [generic_view g]"
    by (rule parse_messages_single [OF _ assms(5)]) (simp add: ordinary_type_def)
  ultimately show ?thesis
    using assms(1,2,6) by (simp add: connect_def assms(3) del: list.map)
qed

text \<open>A kernel that answers every request of the family with one message or, where the driver
  does not implement the operation, with an error report.\<close>

definition single_reply :: "u16 \<Rightarrow> u32 \<Rightarrow> i32 + generic_message \<Rightarrow> bytes" where
  "single_reply family_id sequence reply =
    (case reply of Inl code \<Rightarrow> error_message sequence code | Inr g \<Rightarrow> encode_generic family_id sequence g)"

definition reply_ok :: "i32 + generic_message \<Rightarrow> bool" where
  "reply_ok reply \<longleftrightarrow>
    (case reply of
       Inl code \<Rightarrow> code \<noteq> 0
     | Inr g \<Rightarrow> small_attributes (gm_attributes g)
         \<and> length (concat (map attribute_bytes (gm_attributes g))) \<le> 65000)"

definition answers_requests ::
  "kernel \<Rightarrow> u16 \<Rightarrow> (u8 \<Rightarrow> attribute list \<Rightarrow> i32 + generic_message) \<Rightarrow> bool" where
  "answers_requests k family_id reply \<longleftrightarrow>
    (\<forall>sequence command attrs.
      reply_ok (reply command attrs)
      \<and> send_message k (build_message family_id sequence command 1 NLM_F_REQUEST attrs) = Ok ()
      \<and> k_replies k (build_message family_id sequence command 1 NLM_F_REQUEST attrs) =
          packets [[single_reply family_id sequence (reply command attrs)]])"

text \<open>What the program learns from a reply.\<close>

definition learned :: "i32 + generic_message \<Rightarrow> generic_message option" where
  "learned reply = (case reply of Inl _ \<Rightarrow> None | Inr g \<Rightarrow> Some (generic_view g))"

lemma packets_ok_reply:
  assumes "reply_ok reply"
  shows "packets_ok (64 * 1024) [[single_reply family_id sequence reply]]"
proof (cases reply)
  case (Inl code)
  then show ?thesis
    by (simp add: packets_ok_def single_reply_def align_to_4_def)
next
  case (Inr g)
  with assms have "framed (encode_generic family_id sequence g)"
    "length (encode_generic family_id sequence g) \<le> 65020"
    by (simp_all add: reply_ok_def encode_generic_def build_message_framed)
      (simp add: build_message_parts)
  then show ?thesis
    using align_to_4_less [of "length (encode_generic family_id sequence g)"]
    by (simp add: packets_ok_def single_reply_def Inr)
qed

lemma parse_reply:
  assumes "reply_ok reply" and "ordinary_type family_id"
  shows "Option.bind (result_option (parse_messages
      (concat (map pad_to_4 [single_reply family_id sequence reply])) family_id sequence)) first_opt =
    learned reply"
proof (cases reply)
  case (Inl code)
  with assms parse_messages_error [of code sequence family_id] show ?thesis
    by (simp add: reply_ok_def single_reply_def learned_def)
next
  case (Inr g)
  with assms parse_messages_single [of family_id g sequence] show ?thesis
    by (simp add: reply_ok_def single_reply_def learned_def)
qed

text \<open>The same for dump requests: any number of messages over any number of datagrams and the
  final message, or an error report.\<close>

definition answers_dump ::
  "kernel \<Rightarrow> bytes \<Rightarrow> u16 \<Rightarrow> u32 \<Rightarrow> i32 + generic_message list \<Rightarrow> bool" where
  "answers_dump k m family_id sequence reply \<longleftrightarrow>
    send_message k m = Ok ()
    \<and> (case reply of
         Inl code \<Rightarrow> code \<noteq> 0 \<and> k_replies k m = packets [[error_message sequence code]]
       | Inr gs \<Rightarrow> list_all (\<lambda>g. small_attributes (gm_attributes g)) gs
           \<and> (\<exists>mss. k_replies k m = packets mss \<and> packets_ok (64 * 1024) mss
               \<and> concat mss = map (encode_generic family_id sequence) gs @ [done_message sequence]))"

definition answers_dumps ::
  "kernel \<Rightarrow> u16 \<Rightarrow> (u8 \<Rightarrow> attribute list \<Rightarrow> i32 + generic_message list) \<Rightarrow> bool" where
  "answers_dumps k family_id reply \<longleftrightarrow>
    (\<forall>sequence command attrs.
      answers_dump k (build_message family_id sequence command 1 (NLM_F_REQUEST OR NLM_F_DUMP) attrs)
        family_id sequence (reply command attrs))"

definition dumped :: "i32 + generic_message list \<Rightarrow> generic_message list result" where
  "dumped reply = (case reply of Inl code \<Rightarrow> Err (Os (- code)) | Inr gs \<Rightarrow> Ok (map generic_view gs))"

lemma request_dumped:
  assumes "answers_dumps k (cl_family_id c) reply" and "ordinary_type (cl_family_id c)"
    and "cl_queue c = []"
  shows "request k c command 1 True attrs =
    Some (dumped (reply command attrs), c\<lparr>cl_sequence := cl_sequence c + 1, cl_queue := []\<rparr>)"
proof -
  let ?m = "build_message (cl_family_id c) (cl_sequence c + 1) command 1 (NLM_F_REQUEST OR NLM_F_DUMP) attrs"
  have kernel: "answers_dump k ?m (cl_family_id c) (cl_sequence c + 1) (reply command attrs)"
    using assms(1) by (simp add: answers_dumps_def)
  have loop: "request_loop (cl_family_id c) (cl_sequence c + 1) True (k_replies k ?m) [] =
      Some (dumped (reply command attrs), [])"
  proof (cases "reply command attrs")
    case (Inl code)
    with kernel have code: "code \<noteq> 0" "k_replies k ?m = packets [[error_message (cl_sequence c + 1) code]]"
      by (simp_all add: answers_dump_def)
    have ok: "packets_ok (64 * 1024) [[error_message (cl_sequence c + 1) code]]"
      by (simp add: packets_ok_def align_to_4_def)
    have "receive_once (packets [[error_message (cl_sequence c + 1) code]]) =
        Some (Ok (concat (map pad_to_4 [error_message (cl_sequence c + 1) code])), [])"
      using receive_once_packet [OF ok, of "[]"] by (simp add: packets_def)
    then show ?thesis
      unfolding code(2)
      by (subst request_loop.simps) (simp add: parse_messages_error [OF code(1)] dumped_def Inl del: list.map)
  next
    case (Inr gs)
    with kernel obtain mss where replies: "k_replies k ?m = packets mss" "packets_ok (64 * 1024) mss"
        "concat mss = map (encode_generic (cl_family_id c) (cl_sequence c + 1)) gs @ [done_message (cl_sequence c + 1)]"
        "list_all (\<lambda>g. small_attributes (gm_attributes g)) gs"
      by (auto simp: answers_dump_def)
    show ?thesis
      unfolding replies(1) request_loop_complete [OF replies(2) assms(2) replies(3,4)]
      by (simp add: dumped_def Inr)
  qed
  have "send_message k ?m = Ok ()"
    using kernel by (simp add: answers_dump_def)
  with loop assms(3) show ?thesis
    by (simp add: request_def Let_def)
qed

lemma command_of_build: "build_message t s command v flags attrs ! 16 = command"
  by (simp add: build_message_parts generic_header_bytes_def nth_append to_le_bytes_numeral
      message_header_bytes_def)

section \<open>An example\<close>

definition example_family :: generic_message where
  "example_family = \<lparr>gm_command = 1, gm_attributes = [(CTRL_ATTR_FAMILY_ID, to_le_bytes 2 (21 :: u16))]\<rparr>"

lemma connect_example:
  assumes "open_socket k = Ok ()" and "send_message k (family_request name) = Ok ()"
    and "k_replies k (family_request name) = packets [[encode_generic GENL_ID_CTRL 1 example_family]]"
  shows "connect k name = Some (Ok \<lparr>cl_family_id = 21, cl_sequence = 1, cl_queue = []\<rparr>)"
proof (rule connect_complete [OF assms])
  have small: "small_attributes (gm_attributes example_family)"
    by (simp add: example_family_def small_attributes_def encodable_attribute_def length_attribute_bytes
        align_to_4_def)
  then show "small_attributes (gm_attributes example_family)" .
  show "packets_ok (64 * 1024) [[encode_generic GENL_ID_CTRL 1 example_family]]"
    using packets_ok_reply [of "Inr example_family" GENL_ID_CTRL 1] small
    by (simp add: reply_ok_def single_reply_def example_family_def length_attribute_bytes align_to_4_def)
qed (simp add: example_family_def family_id_of_def generic_view_def masked_def)

end
