(* ===== verification/Ethtool_Spec.thy ===== *)
theory Ethtool_Spec
  imports Ethtool Generic_Replies
begin

text \<open>
  What \<open>ethtool.rs\<close> promises: the bitset forms of the kernel are read as the set of
  selected bits, the statistics of a reply are all there, and the list of devices holds every
  interface that is not a loopback, each described by the replies to its own requests.
\<close>

section \<open>Bitsets\<close>

text \<open>The names of the bits a predicate selects, in order.\<close>

definition names_where :: "(bit_entry \<Rightarrow> bool) \<Rightarrow> bit_entry list \<Rightarrow> string list" where
  "names_where p entries = sort (map (\<lambda>(_, name, _). name) (filter p entries))"

lemma names_where_mset: "mset xs = mset ys \<Longrightarrow> names_where p xs = names_where p ys"
  unfolding names_where_def
  by (intro properties_for_sort) (simp_all add: mset_filter)

lemma names_where_sort [simp]: "names_where p (sort_key f xs) = names_where p xs"
  by (rule names_where_mset) simp

lemma selected_names_where:
  "selected_entry_names entries = names_where (\<lambda>e. snd (snd e)) entries"
  by (simp add: selected_entry_names_def names_where_def case_prod_unfold)

lemma names_where_Nil: "names_where p entries = [] \<longleftrightarrow> (\<forall>e \<in> set entries. \<not> p e)"
proof -
  have "names_where p entries = [] \<longleftrightarrow> length (names_where p entries) = 0"
    by simp
  also have "\<dots> \<longleftrightarrow> filter p entries = []"
    by (simp add: names_where_def)
  finally show ?thesis
    by (simp add: filter_empty_conv)
qed

lemma names_where_map:
  assumes "\<And>e. fst (snd (g e)) = fst (snd e)"
  shows "names_where p (map g entries) = names_where (p \<circ> g) entries"
proof -
  have "(\<lambda>(_, name, _). name) (g e) = (\<lambda>(_, name, _). name) e" for e
    using assms [of e] by (simp add: case_prod_beta)
  then show ?thesis
    by (simp add: names_where_def filter_map comp_def)
qed

lemma verbose_fields:
  defines "entries_attribute nomask entries \<equiv> attribute_nested BITSET_BITS (map (encode_bit nomask) entries)"
  shows "nested_bytes (map masked (nomask_flag nomask
      @ [attribute_u32 BITSET_SIZE n, entries_attribute nomask entries])) BITSET_VALUE = None"
  unfolding entries_attribute_def
  by (simp add: nested_bytes_def nomask_flag_def masked_nested) (simp add: masked_def attribute_u32_def)

lemma indices_of_selected:
  assumes "list_all (\<lambda>(_, name, _). kernel_text name) entries"
    and "names_where (\<lambda>e. nomask \<or> snd (snd e)) entries = []"
  shows "filter_map parse_bit_index
    (filter (\<lambda>(k, _). k = BITSET_BITS_BIT) (map masked (map (encode_bit nomask) entries))) = []"
proof -
  have "parse_bit_index (masked (encode_bit nomask e)) = None" if "e \<in> set entries" for e
  proof -
    obtain index name selected where e: "e = (index, name, selected)"
      by (cases e)
    have name: "kernel_text name"
      using assms(1) that by (auto simp: list_all_iff e)
    have off: "\<not> nomask" "\<not> selected"
      using assms(2) that by (auto simp: names_where_Nil e)
    have "nested_attributes (snd (masked (encode_bit nomask e))) =
        Some (map masked [attribute_u32 BITSET_BIT_INDEX index, (BITSET_BIT_NAME, text_value name)])"
      using name off unfolding e encode_bit_def prod.case masked_nested snd_conv
      by (subst nested_decode) simp_all
    then show ?thesis
      by (simp add: parse_bit_index_def masked_def attribute_u32_def)
  qed
  then show ?thesis
    using set_filter_map [of parse_bit_index
        "filter (\<lambda>(k, _). k = BITSET_BITS_BIT) (map masked (map (encode_bit nomask) entries))"]
    by (auto simp flip: set_empty)
qed

text \<open>A verbose bitset is read as the names of its selected bits, in order: all the bits of
  the list form, which carries no per-bit flag, and the flagged ones of the other form. A reader
  with a dictionary of names gets the same, whatever the dictionary holds.\<close>

theorem verbose_bitset_names:
  assumes "entries_ok nomask entries"
    and "bytes_attribute message kind = Some (snd (verbose_bitset kind nomask entries))"
  shows "selected_entry_names (bitset_entries message kind) =
      names_where (\<lambda>e. nomask \<or> snd (snd e)) entries
    \<and> bitset_names_with_reference message kind reference =
      names_where (\<lambda>e. nomask \<or> snd (snd e)) entries"
proof -
  have names: "selected_entry_names (bitset_entries message kind) =
      names_where (\<lambda>e. nomask \<or> snd (snd e)) entries"
    by (simp add: bitset_entries_verbose [OF assms] selected_names_where)
      (subst names_where_map, auto simp: comp_def case_prod_beta)
  have texts: "list_all (\<lambda>(_, name, _). kernel_text name) entries"
    using assms(1) by (simp add: entries_ok_def)
  have bits: "nested_bytes (map masked (nomask_flag nomask @ [attribute_u32 BITSET_SIZE (of_nat (length entries)),
         attribute_nested BITSET_BITS (map (encode_bit nomask) entries)])) BITSET_BITS =
      Some (snd (attribute_nested BITSET_BITS (map (encode_bit nomask) entries)))"
    by (rule verbose_bits)
  show ?thesis
  proof (cases "names_where (\<lambda>e. nomask \<or> snd (snd e)) entries = []")
    case True
    then show ?thesis
      unfolding bitset_names_with_reference_def names assms(2) Option.bind.bind_lunit
        verbose_bitset_decode [OF assms(1)] option.case bits Let_def
      by (simp only: indices_of_selected [OF texts True] verbose_fields if_False if_True option.case
          simp_thms refl)
  next
    case False
    then show ?thesis
      by (simp add: bitset_names_with_reference_def names Let_def)
  qed
qed

theorem verbose_bitset_names_witness:
  "bitset_names_with_reference
      \<lparr>gm_command = 4, gm_attributes = [masked (verbose_bitset 3 False [(5, ''tx'', True), (2, ''rx'', True), (1, ''sg'', False)])]\<rparr>
      3 [] = [''rx'', ''tx'']"
proof -
  let ?entries = "[(5, ''tx'', True), (2, ''rx'', True), (1, ''sg'', False)] :: bit_entry list"
  have "entries_ok False ?entries"
    by (simp add: entries_ok_def length_nested length_attribute_bytes encode_bit_def attribute_u32_def
        align_to_4_def kernel_text_def as_bytes_def byte_of_char_def)
  moreover have "names_where (\<lambda>e. False \<or> snd (snd e)) ?entries = [''rx'', ''tx'']"
    by (simp add: names_where_def)
  ultimately show ?thesis
    using verbose_bitset_names [of False ?entries
        "\<lparr>gm_command = 4, gm_attributes = [masked (verbose_bitset 3 False ?entries)]\<rparr>" 3 "[]"]
    by (simp add: bytes_attribute_def verbose_bitset_def masked_nested)
qed

text \<open>A bitmap is read bit by bit from its 32-bit words.\<close>

lemma get_at_words:
  "get_at i (concat (map (to_le_bytes 4) ws)) =
    (if i div 4 < length ws then Some (to_le_bytes 4 (ws ! (i div 4)) ! (i mod 4)) else None)"
  for ws :: "u32 list"
proof (induction ws arbitrary: i)
  case (Cons w ws)
  show ?case
  proof (cases "i < 4")
    case True
    then show ?thesis
      by (simp add: get_at_def nth_append)
  next
    case False
    then obtain j where i: "i = j + 4"
      by (metis le_add_diff_inverse2 not_less)
    have "get_at i (concat (map (to_le_bytes 4) (w # ws))) = get_at j (concat (map (to_le_bytes 4) ws))"
      by (simp add: get_at_def nth_append i)
    moreover have "i div 4 = Suc (j div 4)" "i mod 4 = j mod 4"
      by (simp_all add: i)
    ultimately show ?thesis
      by (simp add: Cons.IH)
  qed
qed (simp add: get_at_def)

lemma nth_to_le_bytes: "j < n \<Longrightarrow> to_le_bytes n w ! j = ucast (drop_bit (8 * j) w)"
proof (induction n arbitrary: w j)
  case (Suc n)
  then show ?case
    by (cases j) (simp_all add: add.commute)
qed simp

lemma bit_is_set_words:
  "bit_is_set (concat (map (to_le_bytes 4) ws)) index \<longleftrightarrow>
    unat index div 32 < length ws \<and> bit (ws ! (unat index div 32)) (unat index mod 32)"
  for ws :: "u32 list"
proof -
  let ?i = "unat index"
  have split: "?i div 8 div 4 = ?i div 32" "8 * (?i div 8 mod 4) + ?i mod 8 = ?i mod 32"
    using div_mult2_eq [of ?i 8 4] mod_mult2_eq [of ?i 8 4] by simp_all
  have set: "b AND push_bit n 1 \<noteq> 0 \<longleftrightarrow> bit b n" for b :: byte and n
  proof
    assume "b AND push_bit n 1 \<noteq> 0"
    then obtain m where "bit (b AND push_bit n 1) m"
      by (auto simp: bit_eq_iff)
    then show "bit b n"
      by (auto simp: bit_simps)
  next
    assume "bit b n"
    then have "bit (b AND push_bit n 1) n"
      by (auto simp: bit_simps dest: bit_imp_le_length)
    then show "b AND push_bit n 1 \<noteq> 0"
      by (metis bit_0_eq bot_apply bot_bool_def)
  qed
  have byte: "bit (to_le_bytes 4 w ! (?i div 8 mod 4)) (?i mod 8) = bit w (?i mod 32)" for w :: u32
    by (subst nth_to_le_bytes) (simp_all add: bit_simps split(2))
  show ?thesis
    unfolding bit_is_set_def get_at_words split(1)
    by (simp add: set byte del: push_bit_of_1)
qed

text \<open>A compact bitset is read against the dictionary of named bits: the result is the
  names of exactly the bits that are set in the kernel's 32-bit words; bits beyond the bitmap are
  not set, and set bits without a name are left out.\<close>

theorem compact_bitset_names:
  assumes "8 * length ws < 65532"
    and "bytes_attribute message kind = Some (snd (compact_bitset kind nomask ws))"
  shows "bitset_names_with_reference message kind reference =
    names_where (\<lambda>(index, _, _). unat index div 32 < length ws
      \<and> bit (ws ! (unat index div 32)) (unat index mod 32)) reference"
proof -
  let ?fields = "nomask_flag nomask
      @ [attribute_u32 BITSET_SIZE (of_nat (32 * length ws)),
         (BITSET_VALUE, concat (map (to_le_bytes 4) ws))]"
  have length: "length (concat (map (to_le_bytes 4) ws)) = 4 * length ws"
    by (induction ws) simp_all
  have "list_all encodable_attribute ?fields"
    using assms(1) by (simp add: nomask_flag_def encodable_attribute_def [of "(k, v)" for k v] length)
  then have decode: "nested_attributes (snd (compact_bitset kind nomask ws)) = Some (map masked ?fields)"
    unfolding compact_bitset_def by (rule nested_decode)
  have bits: "nested_bytes (map masked ?fields) BITSET_BITS = None"
    by (simp add: nested_bytes_def nomask_flag_def masked_def attribute_u32_def)
  have bitmap: "nested_bytes (map masked ?fields) BITSET_VALUE = Some (concat (map (to_le_bytes 4) ws))"
    by (simp add: nested_bytes_def nomask_flag_def masked_def attribute_u32_def)
  have none: "selected_entry_names (bitset_entries message kind) = []"
    unfolding bitset_entries_def assms(2) Option.bind.bind_lunit decode option.case bits
    by (simp add: selected_entry_names_def)
  show ?thesis
    unfolding bitset_names_with_reference_def none assms(2) Option.bind.bind_lunit decode option.case bits
      bitmap Let_def
    by (simp add: bit_is_set_words names_where_def)
qed

theorem compact_bitset_names_witness:
  "bitset_names_with_reference
      \<lparr>gm_command = 11, gm_attributes = [masked (compact_bitset 4 False [1, 2])]\<rparr> 4
      [(0, ''sg'', False), (1, ''rx'', True), (33, ''gro'', False), (64, ''lro'', False)] = [''gro'', ''sg'']"
proof -
  have "names_where (\<lambda>(index, _, _). unat index div 32 < length [1, 2 :: u32]
      \<and> bit ([1, 2 :: u32] ! (unat index div 32)) (unat index mod 32))
      [(0, ''sg'', False), (1, ''rx'', True), (33, ''gro'', False), (64, ''lro'', False)] = [''gro'', ''sg'']"
    by (simp add: names_where_def bit_1_iff)
  then show ?thesis
    using compact_bitset_names [of "[1, 2]" "\<lparr>gm_command = 11, gm_attributes = [masked (compact_bitset 4 False [1, 2])]\<rparr>"
        4 False "[(0, ''sg'', False), (1, ''rx'', True), (33, ''gro'', False), (64, ''lro'', False)]"]
    by (simp add: bytes_attribute_def compact_bitset_def masked_nested)
qed

text \<open>A bitset whose bits carry an index and no name.\<close>

definition encode_index :: "bool \<Rightarrow> u32 \<times> bool \<Rightarrow> attribute" where
  "encode_index nomask b =
    attribute_nested BITSET_BITS_BIT
      (attribute_u32 BITSET_BIT_INDEX (fst b)
       # (if snd b \<and> \<not> nomask then [(BITSET_BIT_VALUE, [])] else []))"

definition index_bitset :: "u16 \<Rightarrow> bool \<Rightarrow> (u32 \<times> bool) list \<Rightarrow> attribute" where
  "index_bitset kind nomask bits =
    attribute_nested kind (nomask_flag nomask
      @ [attribute_u32 BITSET_SIZE (of_nat (length bits)),
         attribute_nested BITSET_BITS (map (encode_index nomask) bits)])"

lemma decode_index:
  "nested_attributes (snd (masked (encode_index nomask b))) =
    Some (map masked (attribute_u32 BITSET_BIT_INDEX (fst b)
       # (if snd b \<and> \<not> nomask then [(BITSET_BIT_VALUE, [])] else [])))"
  unfolding encode_index_def masked_nested snd_conv
  by (rule nested_decode) simp

lemma masked_encode_index: "fst (masked (encode_index nomask b)) = BITSET_BITS_BIT"
  by (simp add: encode_index_def masked_nested)

lemma filter_encoded_indices:
  "filter (\<lambda>(k, _). k = BITSET_BITS_BIT) (map masked (map (encode_index nomask) bits)) =
    map masked (map (encode_index nomask) bits)"
  by (simp add: filter_id_conv case_prod_unfold masked_encode_index del: BITSET_BITS_BIT_def)

lemma parse_encoded_index:
  "parse_bit nomask (masked (encode_index nomask b)) = None"
  "parse_bit_index (masked (encode_index nomask b)) = (if snd b \<and> \<not> nomask then Some (fst b) else None)"
proof -
  have fields: "find_map (\<lambda>(k, v). if k = BITSET_BIT_NAME then Some v else None)
      (map masked (attribute_u32 BITSET_BIT_INDEX (fst b)
       # (if snd b \<and> \<not> nomask then [(BITSET_BIT_VALUE, [])] else []))) = None"
    "find_map (\<lambda>(k, v). if k = BITSET_BIT_INDEX then Some v else None)
      (map masked (attribute_u32 BITSET_BIT_INDEX (fst b)
       # (if snd b \<and> \<not> nomask then [(BITSET_BIT_VALUE, [])] else []))) = Some (u32_bytes (fst b))"
    "list_ex (\<lambda>(k, _). k = BITSET_BIT_VALUE) (map masked (attribute_u32 BITSET_BIT_INDEX (fst b)
       # (if snd b \<and> \<not> nomask then [(BITSET_BIT_VALUE, [])] else []))) = (snd b \<and> \<not> nomask)"
    by (simp_all add: masked_def attribute_u32_def)
  show "parse_bit nomask (masked (encode_index nomask b)) = None"
    unfolding parse_bit_def decode_index nested_bytes_def fields Option.bind.bind_lunit by simp
  show "parse_bit_index (masked (encode_index nomask b)) = (if snd b \<and> \<not> nomask then Some (fst b) else None)"
    unfolding parse_bit_index_def decode_index nested_bytes_def fields Option.bind.bind_lunit by simp
qed

lemma parse_encoded_indices:
  "filter_map (parse_bit nomask) (map masked (map (encode_index nomask) bits)) = []"
  "filter_map parse_bit_index (map masked (map (encode_index nomask) bits)) =
    (if nomask then [] else map fst (filter snd bits))"
  by (induction bits; cases nomask; simp add: parse_encoded_index)+

text \<open>C36: A bitset whose bits have no names is translated with the dictionary when the bits
  carry selection flags. In the list form, where the presence of a bit selects it, no bit carries
  the flag, and the reader returns no name at all, whatever bits the kernel listed.\<close>

theorem index_bitset_names:
  assumes "bits \<noteq> []"
    and "length (snd (attribute_nested BITSET_BITS (map (encode_index nomask) bits))) < 65532"
    and "bytes_attribute message kind = Some (snd (index_bitset kind nomask bits))"
  shows "bitset_names_with_reference message kind reference =
    (if nomask then []
     else names_where (\<lambda>(index, _, _). (index, True) \<in> set bits) reference)"
proof -
  let ?fields = "nomask_flag nomask
      @ [attribute_u32 BITSET_SIZE (of_nat (length bits)),
         attribute_nested BITSET_BITS (map (encode_index nomask) bits)]"
  have "encodable_attribute (encode_index nomask b)" for b
    by (simp add: encode_index_def encodable_attribute_def length_nested length_attribute_bytes
        attribute_u32_def align_to_4_def)
  then have "list_all encodable_attribute (map (encode_index nomask) bits)"
    by (simp add: list_all_iff)
  note inner = nested_decode [OF this, of BITSET_BITS]
  have "encodable_attribute (attribute_nested BITSET_BITS (map (encode_index nomask) bits))"
    using assms(2) by (simp add: encodable_attribute_def)
  then have "list_all encodable_attribute ?fields"
    by (simp add: nomask_flag_def)
  then have outer: "nested_attributes (snd (index_bitset kind nomask bits)) = Some (map masked ?fields)"
    unfolding index_bitset_def by (rule nested_decode)
  have fields: "nested_bytes (map masked ?fields) BITSET_BITS =
      Some (snd (attribute_nested BITSET_BITS (map (encode_index nomask) bits)))"
    "nested_bytes (map masked ?fields) BITSET_VALUE = None"
    "list_ex (\<lambda>(k, _). k = BITSET_NOMASK) (map masked ?fields) = nomask"
    by (simp_all add: nested_bytes_def nomask_flag_def masked_nested) (simp_all add: masked_def attribute_u32_def)
  have none: "selected_entry_names (bitset_entries message kind) = []"
    unfolding bitset_entries_def assms(3) Option.bind.bind_lunit outer option.case fields inner Let_def
      filter_encoded_indices parse_encoded_indices
    by (simp add: selected_entry_names_def)
  have indices: "set (map fst (filter snd bits)) = {index. (index, True) \<in> set bits}"
    by force
  have empty: "names_where (\<lambda>(index, _, _). (index, True) \<in> set bits) reference = []"
    if "filter snd bits = []"
    using that by (auto simp: names_where_Nil filter_empty_conv)
  show ?thesis
    unfolding bitset_names_with_reference_def none assms(3) Option.bind.bind_lunit outer option.case
      fields inner filter_encoded_indices parse_encoded_indices Let_def
    using empty indices by (cases "filter snd bits = []") (simp_all add: names_where_def)
qed

theorem index_bitset_names_witness:
  "bitset_names_with_reference
      \<lparr>gm_command = 11, gm_attributes = [masked (index_bitset 4 True [(0, True), (1, True)])]\<rparr> 4
      [(0, ''sg'', True), (1, ''rx'', True)] = []
   \<and> bitset_names_with_reference
      \<lparr>gm_command = 11, gm_attributes = [masked (index_bitset 4 False [(0, False), (1, True)])]\<rparr> 4
      [(0, ''sg'', True), (1, ''rx'', True)] = [''rx'']"
proof -
  have "names_where (\<lambda>(index, _, _). (index, True) \<in> set [(0, False), (1, True)])
      [(0, ''sg'', True), (1, ''rx'', True)] = [''rx'']"
    by (simp add: names_where_def)
  moreover have "length (snd (attribute_nested BITSET_BITS (map (encode_index nomask) [(0, a), (1, True)]))) < 65532"
    for nomask a
    by (simp add: encode_index_def length_nested length_attribute_bytes attribute_u32_def align_to_4_def)
  moreover have "bytes_attribute \<lparr>gm_command = c, gm_attributes = [masked (index_bitset 4 nomask bits)]\<rparr> 4 =
      Some (snd (index_bitset 4 nomask bits))" for c nomask bits
    by (simp add: bytes_attribute_def index_bitset_def masked_nested)
  ultimately show ?thesis
    using index_bitset_names [of "[(0, True), (1, True)]" True _ 4 "[(0, ''sg'', True), (1, ''rx'', True)]"]
      index_bitset_names [of "[(0, False), (1, True)]" False _ 4 "[(0, ''sg'', True), (1, ''rx'', True)]"]
    by simp
qed

section \<open>Statistics\<close>

text \<open>The counters of one group as the kernel holds them, and the attribute it sends for them.\<close>

record stat_group =
  sg_id :: u32
  sg_counters :: "(u16 \<times> u64) list"
  sg_receive :: "(u32 \<times> u32 \<times> u64) list"
  sg_transmit :: "(u32 \<times> u32 \<times> u64) list"

definition encode_counter :: "u16 \<times> u64 \<Rightarrow> attribute" where
  "encode_counter c = attribute_nested STATS_GROUP_STAT [(fst c, to_le_bytes 8 (snd c))]"

definition encode_bucket :: "u16 \<Rightarrow> u32 \<times> u32 \<times> u64 \<Rightarrow> attribute" where
  "encode_bucket kind b =
    attribute_nested kind
      [attribute_u32 STATS_HIST_LOW (fst b), attribute_u32 STATS_HIST_HIGH (fst (snd b)),
       (STATS_HIST_VALUE, to_le_bytes 8 (snd (snd b)))]"

definition stat_group_attributes :: "stat_group \<Rightarrow> attribute list" where
  "stat_group_attributes g =
    attribute_u32 STATS_GROUP_ID (sg_id g)
    # map encode_counter (sg_counters g)
    @ map (encode_bucket STATS_GROUP_HIST_RX) (sg_receive g)
    @ map (encode_bucket STATS_GROUP_HIST_TX) (sg_transmit g)"

definition encode_stat_group :: "stat_group \<Rightarrow> attribute" where
  "encode_stat_group g = attribute_nested STATS_GROUP (stat_group_attributes g)"

definition bucket_view :: "u32 \<Rightarrow> string \<Rightarrow> u32 \<times> u32 \<times> u64 \<Rightarrow> statistic" where
  "bucket_view group_id direction b =
    \<lparr>st_group = statistic_group_name group_id,
     st_name = direction @ ''-packets-'' @ decimal (unat (fst b)) @ ''-'' @ decimal (unat (fst (snd b)))
       @ ''-bytes'',
     st_value = snd (snd b)\<rparr>"

definition stat_group_view :: "stat_group \<Rightarrow> statistic list" where
  "stat_group_view g =
    map (\<lambda>c. \<lparr>st_group = statistic_group_name (sg_id g),
        st_name = statistic_name (sg_id g) (fst c AND NLA_TYPE_MASK), st_value = snd c\<rparr>) (sg_counters g)
    @ map (bucket_view (sg_id g) ''receive'') (sg_receive g)
    @ map (bucket_view (sg_id g) ''transmit'') (sg_transmit g)"

lemma encodable_counter: "encodable_attribute (k, to_le_bytes 8 (n :: u64))"
  by (simp add: encodable_attribute_def)

lemma decode_counter:
  "counters_of group_id (masked (encode_counter c)) =
    [\<lparr>st_group = statistic_group_name group_id,
      st_name = statistic_name group_id (fst c AND NLA_TYPE_MASK), st_value = snd c\<rparr>]"
proof -
  have "nested_attributes (snd (masked (encode_counter c))) = Some (map masked [(fst c, to_le_bytes 8 (snd c))])"
    unfolding encode_counter_def masked_nested snd_conv
    by (rule nested_decode) (simp add: encodable_counter)
  then show ?thesis
    by (simp add: counters_of_def masked_def)
qed

lemma decode_bucket:
  "histogram_of group_id direction (masked (encode_bucket kind b)) = Some (bucket_view group_id direction b)"
proof -
  let ?fields = "[attribute_u32 STATS_HIST_LOW (fst b), attribute_u32 STATS_HIST_HIGH (fst (snd b)),
       (STATS_HIST_VALUE, to_le_bytes 8 (snd (snd b)))]"
  have decode: "nested_attributes (snd (masked (encode_bucket kind b))) = Some (map masked ?fields)"
    unfolding encode_bucket_def masked_nested snd_conv
    by (rule nested_decode) (simp add: encodable_counter)
  have fields: "nested_bytes (map masked ?fields) STATS_HIST_LOW = Some (u32_bytes (fst b))"
    "nested_bytes (map masked ?fields) STATS_HIST_HIGH = Some (u32_bytes (fst (snd b)))"
    "nested_bytes (map masked ?fields) STATS_HIST_VALUE = Some (to_le_bytes 8 (snd (snd b)))"
    by (simp_all add: nested_bytes_def masked_def attribute_u32_def)
  show ?thesis
    unfolding histogram_of_def decode Option.bind.bind_lunit fields native_exact bucket_view_def ..
qed

lemma kinds_of_group:
  "fst (masked (encode_counter c)) = STATS_GROUP_STAT"
  "fst (masked (encode_bucket STATS_GROUP_HIST_RX b)) = STATS_GROUP_HIST_RX"
  "fst (masked (encode_bucket STATS_GROUP_HIST_TX b)) = STATS_GROUP_HIST_TX"
  "masked (attribute_u32 STATS_GROUP_ID n) = (STATS_GROUP_ID, u32_bytes n)"
  by (simp_all add: encode_counter_def encode_bucket_def masked_nested)
    (simp add: masked_def attribute_u32_def)

lemma filter_kind_map:
  assumes "\<And>x. fst (f x) = k"
  shows "filter (\<lambda>(k', _). k' = kind) (map f xs) = (if k = kind then map f xs else [])"
  using assms by (induction xs) (auto simp: case_prod_unfold)

lemma filter_map_total_some:
  assumes "\<And>x. f (g x) = Some (h x)"
  shows "filter_map f (map g xs) = map h xs"
  using assms by (induction xs) simp_all

lemma group_statistics_encoded: "group_statistics (masked (encode_stat_group g)) = stat_group_view g"
proof -
  have encodable: "list_all encodable_attribute (stat_group_attributes g)"
    by (auto simp: stat_group_attributes_def list_all_iff encode_counter_def encode_bucket_def
        encodable_attribute_def length_nested length_attribute_bytes attribute_u32_def align_to_4_def)
  have decode: "nested_attributes (snd (masked (encode_stat_group g))) =
      Some (map masked (stat_group_attributes g))"
    unfolding encode_stat_group_def masked_nested snd_conv
    by (rule nested_decode [OF encodable])
  have group_id: "nested_bytes (map masked (stat_group_attributes g)) STATS_GROUP_ID = Some (u32_bytes (sg_id g))"
    unfolding stat_group_attributes_def list.map kinds_of_group nested_bytes_def by simp
  have kinds: "filter (\<lambda>(k, _). k = kind) (map masked (stat_group_attributes g)) =
     (if kind = STATS_GROUP_ID then [(STATS_GROUP_ID, u32_bytes (sg_id g))] else [])
     @ (if kind = STATS_GROUP_STAT then map (masked \<circ> encode_counter) (sg_counters g) else [])
     @ (if kind = STATS_GROUP_HIST_RX then map (masked \<circ> encode_bucket STATS_GROUP_HIST_RX) (sg_receive g) else [])
     @ (if kind = STATS_GROUP_HIST_TX then map (masked \<circ> encode_bucket STATS_GROUP_HIST_TX) (sg_transmit g) else [])"
    for kind
  proof -
    have parts:
      "filter (\<lambda>(k, _). k = kind) (map (masked \<circ> encode_counter) cs) =
        (if STATS_GROUP_STAT = kind then map (masked \<circ> encode_counter) cs else [])"
      "filter (\<lambda>(k, _). k = kind) (map (masked \<circ> encode_bucket STATS_GROUP_HIST_RX) bs) =
        (if STATS_GROUP_HIST_RX = kind then map (masked \<circ> encode_bucket STATS_GROUP_HIST_RX) bs else [])"
      "filter (\<lambda>(k, _). k = kind) (map (masked \<circ> encode_bucket STATS_GROUP_HIST_TX) bs) =
        (if STATS_GROUP_HIST_TX = kind then map (masked \<circ> encode_bucket STATS_GROUP_HIST_TX) bs else [])"
      for cs bs
      by (rule filter_kind_map, simp only: comp_apply kinds_of_group)+
    show ?thesis
      unfolding stat_group_attributes_def list.map map_append map_map filter.simps filter_append
        kinds_of_group parts by auto
  qed
  have counters: "concat (map (counters_of (sg_id g)) (map (masked \<circ> encode_counter) cs)) =
      map (\<lambda>c. \<lparr>st_group = statistic_group_name (sg_id g),
        st_name = statistic_name (sg_id g) (fst c AND NLA_TYPE_MASK), st_value = snd c\<rparr>) cs" for cs
    by (induction cs) (simp_all add: decode_counter)
  have buckets: "filter_map (histogram_of (sg_id g) direction) (map (masked \<circ> encode_bucket kind) bs) =
      map (bucket_view (sg_id g) direction) bs" for direction kind bs
    by (rule filter_map_total_some) (simp add: decode_bucket)
  show ?thesis
    unfolding group_statistics_def decode option.case group_id Option.bind.bind_lunit native_exact kinds
    by (simp add: counters [unfolded map_map] buckets stat_group_view_def)
qed

text \<open>C35: Every counter and histogram bucket the kernel sends is in the result with its value and
  under the name of its group and number, in the order of group and name; nothing is added, and
  the attributes beside the groups are ignored.\<close>

theorem statistics_roundtrip:
  "parse_statistics \<lparr>gm_command = command,
      gm_attributes = (STATS_HEADER, header) # map masked (map encode_stat_group groups)\<rparr> =
    sort_key statistic_key (concat (map stat_group_view groups))"
proof -
  have "filter (\<lambda>(k, _). k = STATS_GROUP) (map (masked \<circ> encode_stat_group) groups) =
      map (masked \<circ> encode_stat_group) groups"
    by (subst filter_kind_map [where k = STATS_GROUP]) (simp_all add: encode_stat_group_def masked_nested)
  then have "map group_statistics (filter (\<lambda>(k, _). k = STATS_GROUP)
      ((STATS_HEADER, header) # map masked (map encode_stat_group groups))) = map stat_group_view groups"
    by (simp add: group_statistics_encoded)
  then show ?thesis
    by (simp only: parse_statistics_def generic_message.select_convs)
qed

section \<open>Devices\<close>

lemma query_answered:
  assumes "answers_requests k (cl_family_id c) reply" and "ordinary_type (cl_family_id c)"
    and "cl_queue c = []"
  shows "query k c command attrs =
    Some (learned (reply command attrs), c\<lparr>cl_sequence := cl_sequence c + 1, cl_queue := []\<rparr>)"
proof -
  let ?r = "single_reply (cl_family_id c) (cl_sequence c + 1) (reply command attrs)"
  let ?m = "build_message (cl_family_id c) (cl_sequence c + 1) command 1 NLM_F_REQUEST attrs"
  have kernel: "send_message k ?m = Ok ()" "k_replies k ?m = packets [[?r]]" "reply_ok (reply command attrs)"
    using assms(1) by (simp_all add: answers_requests_def)
  show ?thesis
    unfolding query_def request_single [OF kernel(1) assms(3) kernel(2) packets_ok_reply [OF kernel(3)] refl]
    by (simp del: list.map add: parse_reply [OF kernel(3) assms(2)])
qed

text \<open>A device as its own replies describe it.\<close>

definition described :: "driver_files \<Rightarrow> (u8 \<Rightarrow> attribute list \<Rightarrow> i32 + generic_message) \<Rightarrow> link \<Rightarrow> device" where
  "described fs reply link =
    device_of fs link
      (learned (reply CMD_LINKINFO_GET [selector_of 1 link]))
      (learned (reply CMD_LINKMODES_GET [selector_of 1 link]))
      (learned (reply CMD_FEATURES_GET [selector_of 1 link]))
      (learned (reply CMD_EEE_GET [selector_of 1 link]))
      (names_or_none parse_statistics
        (learned (reply CMD_STATS_GET [selector_of STATS_HEADER link, requested_stat_groups])))"

definition loopback :: "link \<Rightarrow> bool" where
  "loopback link \<longleftrightarrow> ''loopback'' \<in> set (split_char (CHR ''|'') (l_flags link))"

lemma loopback_list_ex [simp]:
  "list_ex (\<lambda>flag. flag = ''loopback'') (split_char (CHR ''|'') (l_flags link)) = loopback link"
  by (auto simp: list_ex_iff loopback_def)

lemma device_loop_answered:
  assumes "answers_requests k family_id reply" and "ordinary_type family_id"
    and "cl_family_id c = family_id" and "cl_queue c = []"
  shows "map_option fst (device_loop k fs ls c) = Some (map (described fs reply) (filter (\<lambda>l. \<not> loopback l) ls))"
  using assms(3,4)
proof (induction ls arbitrary: c)
  case (Cons link ls)
  show ?case
  proof (cases "loopback link")
    case False
    let ?c = "c\<lparr>cl_sequence := cl_sequence c + 5, cl_queue := []\<rparr>"
    have "map_option fst (device_loop k fs ls ?c) =
        Some (map (described fs reply) (filter (\<lambda>l. \<not> loopback l) ls))"
      using Cons.prems by (intro Cons.IH) simp_all
    with assms(1,2) Cons.prems show ?thesis
      by (auto simp: query_answered [where reply = reply] False described_def add.assoc
          simp del: CMD_LINKINFO_GET_def CMD_LINKMODES_GET_def CMD_FEATURES_GET_def CMD_EEE_GET_def
            CMD_STATS_GET_def STATS_HEADER_def)
  qed (use Cons in simp)
qed simp


text \<open>A kernel with one interface whose driver implements one operation.\<close>

definition example_reply :: "u8 \<Rightarrow> attribute list \<Rightarrow> i32 + generic_message" where
  "example_reply command attrs =
    (if command = CMD_LINKMODES_GET
     then Inr \<lparr>gm_command = 4, gm_attributes = [attribute_u32 LINKMODES_SPEED 1000, (LINKMODES_DUPLEX, [1])]\<rparr>
     else Inl (- 95))"

definition example_ethtool :: kernel where
  "example_ethtool =
    \<lparr>k_socket = None, k_bind = \<lambda>_. None, k_sendto = \<lambda>request. Inr (length request),
     k_replies = \<lambda>request. packets [[
       if mh_message_type (message_header_of request) = GENL_ID_CTRL
       then encode_generic GENL_ID_CTRL 1 example_family
       else single_reply 21 (mh_sequence (message_header_of request)) (example_reply (request ! 16) [])]]\<rparr>"

lemma answers_example_ethtool: "answers_requests example_ethtool 21 example_reply"
proof -
  have "reply_ok (example_reply command attrs)" for command attrs
    by (auto simp: reply_ok_def example_reply_def small_attributes_def encodable_attribute_def
        attribute_u32_def length_attribute_bytes align_to_4_def)
  then show ?thesis
    unfolding answers_requests_def example_ethtool_def
    by (simp add: send_message_def command_of_build) (simp add: example_reply_def)
qed

lemma connect_example_ethtool:
  "connect example_ethtool ''ethtool'' = Some (Ok \<lparr>cl_family_id = 21, cl_sequence = 1, cl_queue = []\<rparr>)"
  by (rule connect_example)
    (simp_all add: example_ethtool_def open_socket_def send_message_def family_request_def)


end
