(* ===== verification/Floats.thy ===== *)
theory Floats
  imports Complex_Main Prelude
begin

text \<open>
  The floating point numbers of Rust as far as the sources use them: the conversion of integers, and
  sums, products and quotients rounded to the nearest number with a significand of \<open>p\<close> bits (24 for
  \<open>f32\<close>, 53 for \<open>f64\<close>), ties to even. The magnitudes that occur (zero, or between a billionth and 2 to
  the 75) are far from overflow and from the subnormal range, so the exponent is not bounded here.
\<close>

text \<open>A finite number in canonical form: zero has exponent zero, and the significand of any other
  number has exactly as many bits as its type.\<close>

record binary_float =
  significand :: int
  exponent :: int

type_synonym f32 = binary_float
type_synonym f64 = binary_float

fun bit_size :: "nat \<Rightarrow> nat" where
  "bit_size n = (if n = 0 then 0 else Suc (bit_size (n div 2)))"

declare bit_size.simps [simp del]

text \<open>The quotient rounded to the nearest integer, ties to even.\<close>

definition round_div :: "nat \<Rightarrow> nat \<Rightarrow> nat" where
  "round_div a b =
    (let q = a div b; r = a mod b
     in if 2 * r < b then q else if b < 2 * r then q + 1 else q + q mod 2)"

text \<open>The numerator and denominator of \<open>n/d\<close> divided by a power of two.\<close>

definition scaled :: "nat \<Rightarrow> nat \<Rightarrow> int \<Rightarrow> nat \<times> nat" where
  "scaled n d e = (if 0 \<le> e then (n, d * 2 ^ nat e) else (n * 2 ^ nat (- e), d))"

definition ratio_exponent :: "nat \<Rightarrow> nat \<Rightarrow> nat \<Rightarrow> int" where
  "ratio_exponent p n d =
    (let e = int (bit_size n) - int (bit_size d) - int p; (a, b) = scaled n d e
     in if a < b * 2 ^ p then e else e + 1)"

definition round_ratio :: "nat \<Rightarrow> nat \<Rightarrow> nat \<Rightarrow> nat \<times> int" where
  "round_ratio p n d =
    (if n = 0 then (0, 0)
     else
       let e = ratio_exponent p n d; m = case_prod round_div (scaled n d e)
       in if m = 2 ^ p then (2 ^ (p - 1), e + 1) else (m, e))"

definition float_of_ratio :: "nat \<Rightarrow> int \<Rightarrow> nat \<Rightarrow> binary_float" where
  "float_of_ratio p n d =
    (case round_ratio p (nat \<bar>n\<bar>) d of (m, e) \<Rightarrow> \<lparr>significand = sgn n * int m, exponent = e\<rparr>)"

text \<open>A number as a fraction whose denominator is a power of two.\<close>

definition float_ratio :: "binary_float \<Rightarrow> int \<times> nat" where
  "float_ratio x =
    (if 0 \<le> exponent x then (significand x * 2 ^ nat (exponent x), 1)
     else (significand x, 2 ^ nat (- exponent x)))"

definition float_add :: "nat \<Rightarrow> binary_float \<Rightarrow> binary_float \<Rightarrow> binary_float" where
  "float_add p x y =
    (case float_ratio x of (a, b) \<Rightarrow> case float_ratio y of (c, d) \<Rightarrow>
       float_of_ratio p (a * int d + c * int b) (b * d))"

text \<open>The product with and the quotient by a constant that the type represents exactly.\<close>

definition float_mul :: "nat \<Rightarrow> binary_float \<Rightarrow> nat \<Rightarrow> binary_float" where
  "float_mul p x k = (case float_ratio x of (a, b) \<Rightarrow> float_of_ratio p (a * int k) b)"

definition float_div :: "nat \<Rightarrow> binary_float \<Rightarrow> nat \<Rightarrow> binary_float" where
  "float_div p x k = (case float_ratio x of (a, b) \<Rightarrow> float_of_ratio p a (b * k))"

text \<open>\<open>n as f32\<close>, \<open>n as f64\<close> and the quotient by an integer constant.\<close>

definition f32_of_int :: "int \<Rightarrow> f32" where
  "f32_of_int n = float_of_ratio 24 n 1"

definition f32_div :: "f32 \<Rightarrow> nat \<Rightarrow> f32" where
  "f32_div x k = float_div 24 x k"

definition f64_of_nat :: "nat \<Rightarrow> f64" where
  "f64_of_nat n = float_of_ratio 53 (int n) 1"

definition f64_div :: "f64 \<Rightarrow> nat \<Rightarrow> f64" where
  "f64_div x k = float_div 53 x k"

definition float_value :: "binary_float \<Rightarrow> rat" where
  "float_value x = of_int (significand x) * 2 powi exponent x"

section \<open>Accuracy\<close>

lemma bit_size_bounds: "0 < n \<Longrightarrow> 2 ^ (bit_size n - 1) \<le> n \<and> n < 2 ^ bit_size n"
proof (induction n rule: bit_size.induct)
  case (1 n)
  show ?case
  proof (cases "n = 1")
    case True
    then show ?thesis
      by (simp add: bit_size.simps [of "Suc 0"] bit_size.simps [of 0])
  next
    case False
    with 1 have "2 ^ (bit_size (n div 2) - 1) \<le> n div 2 \<and> n div 2 < 2 ^ bit_size (n div 2)"
      by auto
    moreover have "0 < bit_size (n div 2)"
      using False "1.prems" by (simp add: bit_size.simps [of "n div 2"])
    then have "(2::nat) ^ bit_size (n div 2) = 2 * 2 ^ (bit_size (n div 2) - 1)"
      by (simp flip: power_Suc)
    moreover have "n = 2 * (n div 2) + n mod 2" "n mod 2 < 2"
      by simp_all
    ultimately have "2 * 2 ^ (bit_size (n div 2) - 1) \<le> n \<and> n < 2 * 2 ^ bit_size (n div 2)"
      by linarith
    with \<open>2 ^ bit_size (n div 2) = _\<close> show ?thesis
      using "1.prems" by (simp add: bit_size.simps [of n])
  qed
qed

lemma round_div_error:
  assumes "0 < b"
  shows "2 * \<bar>of_nat (round_div a b) * of_nat b - of_nat a\<bar> \<le> (of_nat b :: rat)"
proof -
  have a: "(of_nat a :: rat) = of_nat (a div b) * of_nat b + of_nat (a mod b)"
    by (metis div_mult_mod_eq of_nat_add of_nat_mult)
  have r: "(of_nat (a mod b) :: rat) < of_nat b"
    using assms by simp
  consider "2 * (a mod b) < b" | "b < 2 * (a mod b)" | "2 * (a mod b) = b"
    by linarith
  then show ?thesis
  proof cases
    case 1
    then have "2 * (of_nat (a mod b) :: rat) < of_nat b"
      by (metis of_nat_less_iff of_nat_mult of_nat_numeral)
    with 1 show ?thesis
      by (simp add: round_div_def a)
  next
    case 2
    then have "(of_nat b :: rat) < 2 * of_nat (a mod b)"
      by (metis of_nat_less_iff of_nat_mult of_nat_numeral)
    with 2 r show ?thesis
      by (simp add: round_div_def a algebra_simps)
  next
    case 3
    then have half: "2 * (of_nat (a mod b) :: rat) = of_nat b"
      by (metis of_nat_mult of_nat_numeral)
    have "round_div a b = a div b + (a div b) mod 2"
      using 3 by (simp add: round_div_def Let_def)
    moreover have "(a div b) mod 2 = 0 \<or> (a div b) mod 2 = 1"
      by linarith
    ultimately show ?thesis
      using half assms by (auto simp: a algebra_simps)
  qed
qed

lemma scaled_ratio:
  assumes "scaled n d e = (a, b)" and "0 < d"
  shows "0 < b" and "(of_nat n / of_nat d :: rat) = of_nat a / of_nat b * 2 powi e"
proof -
  show "0 < b"
    using assms by (auto simp: scaled_def split: if_splits)
  show "(of_nat n / of_nat d :: rat) = of_nat a / of_nat b * 2 powi e"
    using assms by (auto simp: scaled_def power_int_def field_simps split: if_splits)
qed

lemma powi_split: "a + b = c \<Longrightarrow> (2::rat) powi a * 2 powi b = 2 powi c"
  by (auto simp: power_int_add simp del: power_int_of_nat)

lemma ratio_bounds:
  assumes "0 < n" and "0 < d"
  defines "x \<equiv> of_nat n / of_nat d :: rat" and "k \<equiv> int (bit_size n) - int (bit_size d)"
  shows "2 powi (k - 1) < x" and "x < 2 powi (k + 1)"
proof -
  have n: "2 ^ (bit_size n - 1) \<le> n" "n < 2 ^ bit_size n" and d: "2 ^ (bit_size d - 1) \<le> d" "d < 2 ^ bit_size d"
    using bit_size_bounds assms(1,2) by auto
  have sizes: "0 < bit_size n" "0 < bit_size d"
    using assms(1,2) by (simp_all add: bit_size.simps)
  have n': "2 powi (int (bit_size n) - 1) \<le> (of_nat n :: rat)" "(of_nat n :: rat) < 2 powi int (bit_size n)"
  proof -
    have "2 powi (int (bit_size n) - 1) = (of_nat (2 ^ (bit_size n - 1)) :: rat)"
      using sizes by (simp add: power_int_def nat_diff_distrib')
    with n(1) show "2 powi (int (bit_size n) - 1) \<le> (of_nat n :: rat)"
      by (simp only: of_nat_le_iff)
    have "2 powi int (bit_size n) = (of_nat (2 ^ bit_size n) :: rat)"
      by simp
    with n(2) show "(of_nat n :: rat) < 2 powi int (bit_size n)"
      by (simp only: of_nat_less_iff)
  qed
  have d': "2 powi (int (bit_size d) - 1) \<le> (of_nat d :: rat)" "(of_nat d :: rat) < 2 powi int (bit_size d)"
  proof -
    have "2 powi (int (bit_size d) - 1) = (of_nat (2 ^ (bit_size d - 1)) :: rat)"
      using sizes by (simp add: power_int_def nat_diff_distrib')
    with d(1) show "2 powi (int (bit_size d) - 1) \<le> (of_nat d :: rat)"
      by (simp only: of_nat_le_iff)
    have "2 powi int (bit_size d) = (of_nat (2 ^ bit_size d) :: rat)"
      by simp
    with d(2) show "(of_nat d :: rat) < 2 powi int (bit_size d)"
      by (simp only: of_nat_less_iff)
  qed
  have dpos: "0 < (of_nat d :: rat)"
    using assms(2) by simp
  have "2 powi (k - 1) * of_nat d < (2 powi (k - 1) * 2 powi int (bit_size d) :: rat)"
    using d'(2) by simp
  also have "\<dots> = 2 powi (int (bit_size n) - 1)"
    by (rule powi_split) (simp add: k_def)
  also have "\<dots> \<le> of_nat n"
    by (rule n')
  finally show "2 powi (k - 1) < x"
    using dpos by (simp add: x_def less_divide_eq)
  have "(of_nat n :: rat) < 2 powi int (bit_size n)"
    by (rule n')
  also have "\<dots> = 2 powi (k + 1) * 2 powi (int (bit_size d) - 1)"
    by (rule powi_split [symmetric]) (simp add: k_def)
  also have "\<dots> \<le> 2 powi (k + 1) * of_nat d"
    using d'(1) by simp
  finally show "x < 2 powi (k + 1)"
    using dpos by (simp add: x_def divide_less_eq)
qed

lemma scaled_bounds:
  assumes "0 < n" and "0 < d" and "0 < p" and "scaled n d (ratio_exponent p n d) = (a, b)"
  shows "2 ^ (p - 1) * b \<le> a" and "a < 2 ^ p * b"
proof -
  obtain x :: rat where x_def: "x = of_nat n / of_nat d"
    by blast
  let ?e = "int (bit_size n) - int (bit_size d) - int p"
  obtain a0 b0 where s0: "scaled n d ?e = (a0, b0)"
    by (cases "scaled n d ?e")
  have b0: "0 < b0" and x0: "x = of_nat a0 / of_nat b0 * 2 powi ?e"
    using scaled_ratio [OF s0 assms(2)] by (simp_all add: x_def)
  have b: "0 < b" and x: "x = of_nat a / of_nat b * 2 powi ratio_exponent p n d"
    using scaled_ratio [OF assms(4,2)] by (simp_all add: x_def)
  have lower: "2 powi (?e + (int p - 1)) < x" and upper: "x < 2 powi (?e + (int p + 1))"
    using ratio_bounds [OF assms(1,2)] by (simp_all add: x_def algebra_simps)
  have test: "a0 < b0 * 2 ^ p \<longleftrightarrow> x < 2 powi (?e + int p)"
  proof -
    have "x < 2 powi (?e + int p) \<longleftrightarrow> of_nat a0 / of_nat b0 * 2 powi ?e < (2 powi int p * 2 powi ?e :: rat)"
      unfolding x0 powi_split [of "int p" ?e "?e + int p", OF add.commute] ..
    also have "\<dots> \<longleftrightarrow> (of_nat a0 / of_nat b0 :: rat) < 2 powi int p"
      by (rule mult_less_cancel_right_pos) (rule zero_less_power_int, simp)
    also have "\<dots> \<longleftrightarrow> (of_nat a0 :: rat) < of_nat (b0 * 2 ^ p)"
      using b0 by (simp add: divide_less_eq mult.commute)
    finally show ?thesis
      by (simp only: of_nat_less_iff)
  qed
  have range: "2 powi (ratio_exponent p n d + (int p - 1)) \<le> x \<and> x < 2 powi (ratio_exponent p n d + int p)"
  proof (cases "a0 < b0 * 2 ^ p")
    case True
    then have "ratio_exponent p n d = ?e"
      by (simp add: ratio_exponent_def s0 Let_def)
    with True test lower show ?thesis
      by simp
  next
    case False
    then have "ratio_exponent p n d = ?e + 1"
      by (simp add: ratio_exponent_def s0 Let_def)
    then have "ratio_exponent p n d + (int p - 1) = ?e + int p" "ratio_exponent p n d + int p = ?e + (int p + 1)"
      by simp_all
    with False test upper show ?thesis
      by (simp only: not_less)
  qed
  have "2 powi (int p - 1) * 2 powi ratio_exponent p n d \<le> of_nat a / of_nat b * (2 powi ratio_exponent p n d :: rat)"
    using range unfolding x powi_split [of "int p - 1" "ratio_exponent p n d" "ratio_exponent p n d + (int p - 1)", OF add.commute]
    by (rule conjunct1)
  then have "(2 powi (int p - 1) :: rat) \<le> of_nat a / of_nat b"
    by (rule iffD1 [OF mult_le_cancel_right_pos, rotated]) (rule zero_less_power_int, simp)
  then have "(of_nat (2 ^ (p - 1) * b) :: rat) \<le> of_nat a"
    using b assms(3) by (simp add: le_divide_eq power_int_def nat_diff_distrib')
  then show "2 ^ (p - 1) * b \<le> a"
    by (simp only: of_nat_le_iff)
  have "of_nat a / of_nat b * 2 powi ratio_exponent p n d < (2 powi int p * 2 powi ratio_exponent p n d :: rat)"
    using range unfolding x powi_split [of "int p" "ratio_exponent p n d" "ratio_exponent p n d + int p", OF add.commute]
    by (rule conjunct2)
  then have "(of_nat a / of_nat b :: rat) < 2 powi int p"
    by (rule iffD1 [OF mult_less_cancel_right_pos, rotated]) (rule zero_less_power_int, simp)
  then have "(of_nat a :: rat) < of_nat (2 ^ p * b)"
    using b by (simp add: divide_less_eq)
  then show "a < 2 ^ p * b"
    by (simp only: of_nat_less_iff)
qed

text \<open>The result of \<open>round_ratio\<close> has a significand of \<open>p\<close> bits and is within half a unit in the
  last place of the exact quotient.\<close>

lemma round_ratio_accurate:
  assumes "0 < n" and "0 < d" and "0 < p" and "round_ratio p n d = (m, e)"
  shows "2 ^ (p - 1) \<le> m" and "m < 2 ^ p"
    and "\<bar>of_nat m * 2 powi e - of_nat n / of_nat d\<bar> \<le> (of_nat n / of_nat d :: rat) / 2 ^ p"
proof -
  let ?e = "ratio_exponent p n d"
  obtain a b where s: "scaled n d ?e = (a, b)"
    by (cases "scaled n d ?e")
  let ?m = "round_div a b"
  have b: "0 < b" and x: "(of_nat n / of_nat d :: rat) = of_nat a / of_nat b * 2 powi ?e"
    using scaled_ratio [OF s assms(2)] by simp_all
  have bounds: "2 ^ (p - 1) * b \<le> a" "a < 2 ^ p * b"
    using scaled_bounds [OF assms(1-3) s] by simp_all
  have "2 ^ (p - 1) \<le> a div b" "a div b < 2 ^ p"
    using bounds b by (simp_all add: less_eq_div_iff_mult_less_eq div_less_iff_less_mult)
  then have m: "2 ^ (p - 1) \<le> ?m" "?m \<le> 2 ^ p"
    by (auto simp: round_div_def Let_def)
  have result: "(m, e) = (if ?m = 2 ^ p then (2 ^ (p - 1), ?e + 1) else (?m, ?e))"
    using assms(1,4) s by (simp add: round_ratio_def Let_def split: if_splits)
  obtain q where q: "p = Suc q"
    using assms(3) by (cases p) simp_all
  show "2 ^ (p - 1) \<le> m" "m < 2 ^ p"
    using result m by (auto simp: q split: if_splits)
  have same: "of_nat m * 2 powi e = (of_nat ?m * 2 powi ?e :: rat)"
    using result by (auto simp: q power_int_add split: if_splits)
  have half: "2 * \<bar>of_nat ?m * of_nat b - of_nat a\<bar> \<le> (of_nat b :: rat)"
    by (rule round_div_error [OF b])
  have "\<bar>of_nat ?m * of_nat b - of_nat a\<bar> * 2 ^ p = 2 ^ q * (2 * \<bar>of_nat ?m * of_nat b - of_nat a\<bar> :: rat)"
    by (simp add: q)
  also have "\<dots> \<le> 2 ^ q * of_nat b"
    by (rule mult_left_mono [OF half]) simp
  also have "\<dots> = of_nat (2 ^ (p - 1) * b)"
    by (simp add: q)
  also have "\<dots> \<le> of_nat a"
    using bounds(1) by (simp only: of_nat_le_iff)
  finally have "\<bar>of_nat ?m * of_nat b - of_nat a\<bar> \<le> (of_nat a / 2 ^ p :: rat)"
    by (simp add: pos_le_divide_eq)
  then have "\<bar>of_nat ?m * of_nat b - of_nat a\<bar> / of_nat b \<le> (of_nat a / 2 ^ p :: rat) / of_nat b"
    using b by (intro divide_right_mono) simp_all
  moreover have "\<bar>of_nat ?m * of_nat b - of_nat a\<bar> / of_nat b = \<bar>of_nat ?m - of_nat a / (of_nat b :: rat)\<bar>"
  proof -
    have "(of_nat ?m * of_nat b - of_nat a) / of_nat b = of_nat ?m - of_nat a / (of_nat b :: rat)"
      using b by (simp add: diff_divide_distrib)
    then show ?thesis
      by (metis abs_divide abs_of_nat)
  qed
  ultimately have "\<bar>of_nat ?m - of_nat a / (of_nat b :: rat)\<bar> * 2 powi ?e \<le> of_nat a / of_nat b / 2 ^ p * 2 powi ?e"
    by (intro mult_right_mono) (simp_all add: mult.commute)
  moreover have "\<bar>of_nat m * 2 powi e - of_nat n / of_nat d\<bar> =
      \<bar>of_nat ?m - of_nat a / (of_nat b :: rat)\<bar> * 2 powi ?e"
  proof -
    have "of_nat m * 2 powi e - of_nat n / of_nat d = (of_nat ?m - of_nat a / (of_nat b :: rat)) * 2 powi ?e"
      by (simp only: same x left_diff_distrib)
    then show ?thesis
      by (simp only: abs_mult) simp
  qed
  ultimately show "\<bar>of_nat m * 2 powi e - of_nat n / of_nat d\<bar> \<le> (of_nat n / of_nat d :: rat) / 2 ^ p"
    by (simp only: x times_divide_eq_left)
qed


text \<open>A quotient that the type represents is not changed.\<close>

lemma round_ratio_exact:
  assumes "0 < d" and "0 < p" and "m < 2 ^ p" and "(of_nat n / of_nat d :: rat) = of_nat m * 2 powi e"
    and "round_ratio p n d = (m', e')"
  shows "(of_nat m' * 2 powi e' :: rat) = of_nat n / of_nat d"
proof (cases "n = 0")
  case True
  with assms(5) show ?thesis
    by (simp add: round_ratio_def)
next
  case False
  let ?e = "ratio_exponent p n d"
  obtain a b where s: "scaled n d ?e = (a, b)"
    by (cases "scaled n d ?e")
  have b: "0 < b" and x: "(of_nat n / of_nat d :: rat) = of_nat a / of_nat b * 2 powi ?e"
    using scaled_ratio [OF s assms(1)] by simp_all
  have bounds: "2 ^ (p - 1) * b \<le> a" "a < 2 ^ p * b"
    using scaled_bounds [OF _ assms(1,2) s] False by simp_all
  have quotient: "(of_nat a / of_nat b :: rat) = of_nat m * 2 powi (e - ?e)"
    using assms(4) unfolding x by (simp add: power_int_diff field_simps)
  have "?e \<le> e"
  proof (rule ccontr)
    assume "\<not> ?e \<le> e"
    then have "(2::rat) powi (e - ?e) \<le> 2 powi (- 1)"
      by (intro power_int_increasing) simp_all
    then have "of_nat m * 2 powi (e - ?e) \<le> (of_nat m / 2 :: rat)"
      using mult_left_mono [of "2 powi (e - ?e)" "2 powi (- 1)" "of_nat m :: rat"] by simp
    then have "2 * of_nat a \<le> (of_nat m * of_nat b :: rat)"
      using b unfolding quotient [symmetric] by (simp add: field_simps)
    then have "2 * a \<le> m * b"
      by (metis of_nat_le_iff of_nat_mult of_nat_numeral)
    moreover have "2 * (2 ^ (p - 1) * b) = 2 ^ p * b"
      using assms(2) by (cases p) simp_all
    moreover have "m * b < 2 ^ p * b"
      using assms(3) b by simp
    ultimately show False
      using bounds(1) by linarith
  qed
  then have "(of_nat a :: rat) = of_nat (m * 2 ^ nat (e - ?e) * b)"
    using quotient b by (simp add: power_int_def field_simps)
  then have "a = m * 2 ^ nat (e - ?e) * b"
    by (simp only: of_nat_eq_iff)
  then have "round_div a b = m * 2 ^ nat (e - ?e)" and "a = round_div a b * b"
    using b by (simp_all add: round_div_def)
  moreover have "round_div a b < 2 ^ p"
    using bounds(2) b calculation(2) by (metis nat_mult_less_cancel_disj mult.commute)
  ultimately have "m' = round_div a b" "e' = ?e" "(of_nat a / of_nat b :: rat) = of_nat (round_div a b)"
    using assms(5) s False b
    by (auto simp: round_ratio_def Let_def)
  with x show ?thesis
    by simp
qed

section \<open>Numbers\<close>

text \<open>The numbers of a type in canonical form.\<close>

definition canonical :: "nat \<Rightarrow> binary_float \<Rightarrow> bool" where
  "canonical p x \<longleftrightarrow>
    (if significand x = 0 then exponent x = 0
     else 2 ^ (p - 1) \<le> nat \<bar>significand x\<bar> \<and> nat \<bar>significand x\<bar> < 2 ^ p)"

lemma float_ratio_value:
  assumes "float_ratio x = (n, d)"
  shows "0 < d" and "of_int n / of_nat d = float_value x"
  using assms by (auto simp: float_ratio_def float_value_def power_int_def field_simps split: if_splits)

lemma float_of_ratio_sign:
  assumes "round_ratio p (nat \<bar>n\<bar>) d = (m, e)"
  shows "float_value (float_of_ratio p n d) = of_int (sgn n) * (of_nat m * 2 powi e)"
  by (simp add: float_of_ratio_def assms float_value_def)

lemma int_sign: "of_int n = of_int (sgn n) * (of_nat (nat \<bar>n\<bar>) :: rat)"
  by (simp add: sgn_if)

lemma float_of_ratio_accurate:
  assumes "0 < d" and "0 < p"
  shows "\<bar>float_value (float_of_ratio p n d) - of_int n / of_nat d\<bar> \<le> \<bar>of_int n / of_nat d\<bar> / 2 ^ p"
proof (cases "n = 0")
  case True
  then show ?thesis
    by (simp add: float_of_ratio_def round_ratio_def float_value_def)
next
  case False
  obtain m e where r: "round_ratio p (nat \<bar>n\<bar>) d = (m, e)"
    by (cases "round_ratio p (nat \<bar>n\<bar>) d")
  let ?s = "of_int (sgn n) :: rat" and ?x = "of_nat (nat \<bar>n\<bar>) / of_nat d :: rat"
  have s: "\<bar>?s\<bar> = 1"
    using False by (cases "0 < n") simp_all
  have "float_value (float_of_ratio p n d) - of_int n / of_nat d = ?s * (of_nat m * 2 powi e - ?x)"
    by (simp only: int_sign [of n] float_of_ratio_sign [OF r] right_diff_distrib times_divide_eq_right)
  then have "\<bar>float_value (float_of_ratio p n d) - of_int n / of_nat d\<bar> = \<bar>of_nat m * 2 powi e - ?x\<bar>"
    by (simp only: abs_mult s mult_1)
  moreover have "\<bar>of_int n / of_nat d\<bar> = ?x"
    by simp
  moreover have "\<bar>of_nat m * 2 powi e - ?x\<bar> \<le> ?x / 2 ^ p"
    using False assms by (intro round_ratio_accurate(3) [OF _ _ _ r]) simp_all
  ultimately show ?thesis
    by simp
qed

lemma float_of_ratio_exact:
  assumes "0 < d" and "0 < p" and "\<bar>m\<bar> < 2 ^ p" and "(of_int n / of_nat d :: rat) = of_int m * 2 powi e"
  shows "float_value (float_of_ratio p n d) = of_int n / of_nat d"
proof -
  obtain m' e' where r: "round_ratio p (nat \<bar>n\<bar>) d = (m', e')"
    by (cases "round_ratio p (nat \<bar>n\<bar>) d")
  have "\<bar>of_int n / of_nat d :: rat\<bar> = \<bar>of_int m\<bar> * 2 powi e"
    by (simp only: assms(4) abs_mult) simp
  then have "of_nat (nat \<bar>n\<bar>) / of_nat d = (of_nat (nat \<bar>m\<bar>) * 2 powi e :: rat)"
    by simp
  moreover have "nat \<bar>m\<bar> < 2 ^ p"
    using assms(3) by (simp add: nat_less_iff)
  ultimately have "(of_nat m' * 2 powi e' :: rat) = of_nat (nat \<bar>n\<bar>) / of_nat d"
    by (intro round_ratio_exact [OF assms(1,2) _ _ r])
  then show ?thesis
    by (simp only: float_of_ratio_sign [OF r] int_sign [of n] times_divide_eq_right)
qed

lemma canonical_of_ratio:
  assumes "0 < d" and "0 < p"
  shows "canonical p (float_of_ratio p n d)"
proof (cases "n = 0")
  case True
  then show ?thesis
    by (simp add: float_of_ratio_def round_ratio_def canonical_def)
next
  case False
  obtain m e where r: "round_ratio p (nat \<bar>n\<bar>) d = (m, e)"
    by (cases "round_ratio p (nat \<bar>n\<bar>) d")
  have "2 ^ (p - 1) \<le> m" "m < 2 ^ p"
    using round_ratio_accurate(1,2) [OF _ assms r] False by simp_all
  moreover from this have "0 < m"
    by (metis gr0I not_one_le_zero one_le_power order_trans zero_less_power pos2 le_zero_eq less_irrefl)
  ultimately show ?thesis
    using False by (auto simp: float_of_ratio_def r canonical_def abs_mult sgn_if)
qed

lemma canonical_exponent:
  assumes "canonical p x" and "canonical p y" and "0 < p" and "significand x \<noteq> 0"
    and "float_value x = float_value y"
  shows "exponent y \<le> exponent x"
proof (rule ccontr)
  assume "\<not> exponent y \<le> exponent x"
  then obtain k where k: "exponent y = exponent x + 1 + int k"
    by (metis add.assoc linorder_not_le zle_iff_zadd zless_iff_Suc_zadd of_nat_Suc add.commute)
  have "of_int (significand x) * 2 powi exponent x = (of_int (significand y) * 2 ^ Suc k * 2 powi exponent x :: rat)"
    using assms(5) by (simp add: float_value_def k power_int_add mult_ac)
  then have "(of_int (significand x) :: rat) = of_int (significand y * 2 ^ Suc k)"
    by simp
  then have x: "significand x = significand y * 2 ^ Suc k"
    by (simp only: of_int_eq_iff)
  with assms(4) have "2 ^ (p - 1) \<le> nat \<bar>significand y\<bar>" "nat \<bar>significand x\<bar> < 2 ^ p"
    using assms(1,2) by (simp_all add: canonical_def split: if_splits)
  moreover have "nat \<bar>significand x\<bar> = nat \<bar>significand y\<bar> * 2 ^ Suc k"
    by (simp add: x abs_mult nat_mult_distrib nat_power_eq)
  moreover have "2 ^ p = 2 * (2::nat) ^ (p - 1)"
    using assms(3) by (cases p) simp_all
  moreover have "nat \<bar>significand y\<bar> * 2 \<le> nat \<bar>significand y\<bar> * 2 ^ Suc k"
    by simp
  ultimately show False
    by linarith
qed

lemma canonical_unique:
  assumes "canonical p x" and "canonical p y" and "0 < p" and same: "float_value x = float_value y"
  shows "x = y"
proof (cases "significand x = 0")
  case True
  then have "significand y = 0"
    using same by (simp add: float_value_def)
  with True assms(1,2) show ?thesis
    by (simp add: canonical_def binary_float.equality)
next
  case False
  then have y: "significand y \<noteq> 0"
    using same by (auto simp: float_value_def)
  have "exponent x = exponent y"
    using canonical_exponent [OF assms(1-3) False same] canonical_exponent [OF assms(2,1,3) y same [symmetric]] by simp
  with same show ?thesis
    by (simp add: float_value_def binary_float.equality)
qed

text \<open>A number read back from its own fraction is unchanged.\<close>

lemma canonical_roundtrip:
  assumes "canonical p x" and "0 < p" and "0 < d" and "of_int n / of_nat d = float_value x"
  shows "float_of_ratio p n d = x"
proof (rule canonical_unique [of p])
  show "canonical p (float_of_ratio p n d)"
    using assms(2,3) by (rule canonical_of_ratio [rotated])
  have "\<bar>significand x\<bar> < 2 ^ p"
    using assms(1) by (auto simp: canonical_def nat_less_iff split: if_splits)
  then show "float_value (float_of_ratio p n d) = float_value x"
    using float_of_ratio_exact [OF assms(3,2), of "significand x" n "exponent x"] assms(4)
    by (simp add: float_value_def)
qed (use assms in simp_all)

lemma f32_of_int_exact:
  assumes "\<bar>n\<bar> < 2 ^ 24"
  shows "float_value (f32_of_int n) = of_int n"
  using float_of_ratio_exact [of 1 24 n n 0] assms by (simp add: f32_of_int_def)

lemma f64_of_nat_exact:
  assumes "n < 2 ^ 53"
  shows "float_value (f64_of_nat n) = of_nat n"
proof -
  have "\<bar>int n\<bar> < 2 ^ 53"
    using assms by simp
  from float_of_ratio_exact [of 1 53 "int n" "int n" 0, OF _ _ this] show ?thesis
    by (simp add: f64_of_nat_def)
qed

lemma float_div_accurate:
  assumes "0 < k" and "0 < p"
  shows "\<bar>float_value (float_div p x k) - float_value x / of_nat k\<bar> \<le> \<bar>float_value x / of_nat k\<bar> / 2 ^ p"
proof -
  obtain n d where r: "float_ratio x = (n, d)"
    by (cases "float_ratio x")
  have "of_int n / of_nat (d * k) = float_value x / of_nat k"
    using float_ratio_value [OF r] by (metis divide_divide_eq_left of_nat_mult)
  with float_of_ratio_accurate [of "d * k" p n] float_ratio_value(1) [OF r] assms show ?thesis
    by (simp add: float_div_def r del: of_nat_mult)
qed

lemma f32_quotient_accurate:
  assumes "\<bar>n\<bar> < 2 ^ 24" and "0 < k"
  shows "\<bar>float_value (f32_div (f32_of_int n) k) - of_int n / of_nat k\<bar> \<le> \<bar>of_int n / of_nat k\<bar> / 2 ^ 24"
  using float_div_accurate [OF assms(2), of 24 "f32_of_int n"]
  by (simp add: f32_div_def f32_of_int_exact [OF assms(1)])

text \<open>Division by a power of two only changes the exponent.\<close>

lemma float_div_power:
  assumes "canonical p x" and "0 < p"
  shows "float_value (float_div p x (2 ^ k)) = float_value x / 2 ^ k"
proof -
  obtain n d where r: "float_ratio x = (n, d)"
    by (cases "float_ratio x")
  have quotient: "of_int n / of_nat (d * 2 ^ k) = float_value x / 2 ^ k"
    using float_ratio_value [OF r] by (metis divide_divide_eq_left of_nat_mult of_nat_numeral of_nat_power)
  have "\<bar>significand x\<bar> < 2 ^ p"
    using assms(1) by (auto simp: canonical_def nat_less_iff split: if_splits)
  moreover have "float_value x / 2 ^ k = of_int (significand x) * 2 powi (exponent x - int k)"
    by (simp add: float_value_def power_int_diff)
  ultimately show ?thesis
    using float_of_ratio_exact [of "d * 2 ^ k" p "significand x" n "exponent x - int k"] quotient
      float_ratio_value(1) [OF r] assms(2)
    by (simp add: float_div_def r del: of_nat_mult)
qed

end
