(* ===== verification/Wifi.thy ===== *)
theory Wifi
  imports Generic_Netlink Floats
begin

text \<open>
  \<open>wifi.rs\<close>: the consolidated view of the nl80211 interfaces. Interfaces and radios are
  required; the cached scan result, the station and the power-save state of each interface are
  asked for one after the other on the same client, and a failure leaves their fields as they are.
\<close>

section \<open>Constants\<close>

definition CMD_GET_WIPHY :: u8 where [simp]: "CMD_GET_WIPHY = 1"
definition CMD_GET_INTERFACE :: u8 where [simp]: "CMD_GET_INTERFACE = 5"
definition CMD_GET_STATION :: u8 where [simp]: "CMD_GET_STATION = 17"
definition CMD_GET_SCAN :: u8 where [simp]: "CMD_GET_SCAN = 32"
definition CMD_GET_POWER_SAVE :: u8 where [simp]: "CMD_GET_POWER_SAVE = 62"
definition ATTR_WIPHY :: u16 where [simp]: "ATTR_WIPHY = 1"
definition ATTR_WIPHY_NAME :: u16 where [simp]: "ATTR_WIPHY_NAME = 2"
definition ATTR_IFINDEX :: u16 where [simp]: "ATTR_IFINDEX = 3"
definition ATTR_IFNAME :: u16 where [simp]: "ATTR_IFNAME = 4"
definition ATTR_IFTYPE :: u16 where [simp]: "ATTR_IFTYPE = 5"
definition ATTR_MAC :: u16 where [simp]: "ATTR_MAC = 6"
definition ATTR_STA_INFO :: u16 where [simp]: "ATTR_STA_INFO = 21"
definition ATTR_WIPHY_FREQ :: u16 where [simp]: "ATTR_WIPHY_FREQ = 38"
definition ATTR_BSS :: u16 where [simp]: "ATTR_BSS = 47"
definition ATTR_PS_STATE :: u16 where [simp]: "ATTR_PS_STATE = 93"
definition BSS_BSSID :: u16 where [simp]: "BSS_BSSID = 1"
definition BSS_FREQUENCY :: u16 where [simp]: "BSS_FREQUENCY = 2"
definition BSS_INFORMATION_ELEMENTS :: u16 where [simp]: "BSS_INFORMATION_ELEMENTS = 6"
definition BSS_SIGNAL_MBM :: u16 where [simp]: "BSS_SIGNAL_MBM = 7"
definition BSS_SIGNAL_UNSPEC :: u16 where [simp]: "BSS_SIGNAL_UNSPEC = 8"
definition BSS_STATUS :: u16 where [simp]: "BSS_STATUS = 9"
definition BSS_SEEN_MS_AGO :: u16 where [simp]: "BSS_SEEN_MS_AGO = 10"
definition BSS_STATUS_AUTHENTICATED :: u32 where [simp]: "BSS_STATUS_AUTHENTICATED = 0"
definition BSS_STATUS_ASSOCIATED :: u32 where [simp]: "BSS_STATUS_ASSOCIATED = 1"
definition STA_INACTIVE_TIME :: u16 where [simp]: "STA_INACTIVE_TIME = 1"
definition STA_SIGNAL :: u16 where [simp]: "STA_SIGNAL = 7"
definition STA_TX_BITRATE :: u16 where [simp]: "STA_TX_BITRATE = 8"
definition STA_RX_PACKETS :: u16 where [simp]: "STA_RX_PACKETS = 9"
definition STA_TX_PACKETS :: u16 where [simp]: "STA_TX_PACKETS = 10"
definition STA_TX_RETRIES :: u16 where [simp]: "STA_TX_RETRIES = 11"
definition STA_TX_FAILED :: u16 where [simp]: "STA_TX_FAILED = 12"
definition STA_SIGNAL_AVG :: u16 where [simp]: "STA_SIGNAL_AVG = 13"
definition STA_RX_BITRATE :: u16 where [simp]: "STA_RX_BITRATE = 14"
definition STA_RX_BYTES64 :: u16 where [simp]: "STA_RX_BYTES64 = 23"
definition STA_TX_BYTES64 :: u16 where [simp]: "STA_TX_BYTES64 = 24"
definition RATE_BITRATE :: u16 where [simp]: "RATE_BITRATE = 1"
definition RATE_MCS :: u16 where [simp]: "RATE_MCS = 2"
definition RATE_WIDTH_40 :: u16 where [simp]: "RATE_WIDTH_40 = 3"
definition RATE_BITRATE32 :: u16 where [simp]: "RATE_BITRATE32 = 5"
definition RATE_VHT_MCS :: u16 where [simp]: "RATE_VHT_MCS = 6"
definition RATE_VHT_NSS :: u16 where [simp]: "RATE_VHT_NSS = 7"
definition RATE_WIDTH_80 :: u16 where [simp]: "RATE_WIDTH_80 = 8"
definition RATE_WIDTH_160 :: u16 where [simp]: "RATE_WIDTH_160 = 10"
definition RATE_HE_MCS :: u16 where [simp]: "RATE_HE_MCS = 13"
definition RATE_HE_NSS :: u16 where [simp]: "RATE_HE_NSS = 14"

section \<open>Records\<close>

record bitrate =
  br_mbps :: f32
  br_width_mhz :: "u16 option"
  br_mcs :: "u8 option"
  br_spatial_streams :: "u8 option"
  br_encoding :: "string option"

text \<open>\<open>i8\<close> is an 8-bit word read with \<open>sint\<close>.\<close>

record station =
  sta_inactive_ms :: "u32 option"
  sta_signal_dbm :: "8 word option"
  sta_average_signal_dbm :: "8 word option"
  sta_receive_bytes :: "u64 option"
  sta_transmit_bytes :: "u64 option"
  sta_receive_packets :: "u32 option"
  sta_transmit_packets :: "u32 option"
  sta_transmit_retries :: "u32 option"
  sta_transmit_failures :: "u32 option"
  sta_receive_bitrate :: "bitrate option"
  sta_transmit_bitrate :: "bitrate option"

record wifi_interface =
  w_interface_index :: u32
  w_name :: string
  w_interface_type :: string
  w_mac :: "string option"
  w_wiphy :: "u32 option"
  w_wiphy_name :: "string option"
  w_frequency_mhz :: "u32 option"
  w_ssid :: "string option"
  w_bssid :: "string option"
  w_signal_dbm :: "f32 option"
  w_signal_unspecified :: "u8 option"
  w_seen_ms_ago :: "u32 option"
  w_power_save :: "bool option"
  w_station :: "station option"

record connected_bss =
  b_frequency_mhz :: "u32 option"
  b_ssid :: "string option"
  b_bssid :: "string option"
  b_signal_dbm :: "f32 option"
  b_signal_unspecified :: "u8 option"
  b_seen_ms_ago :: "u32 option"

section \<open>Attributes\<close>

definition nested_bytes :: "attribute list \<Rightarrow> u16 \<Rightarrow> bytes option" where
  "nested_bytes attrs kind = find_map (\<lambda>(k, v). if k = kind then Some v else None) attrs"

definition bytes_attribute :: "generic_message \<Rightarrow> u16 \<Rightarrow> bytes option" where
  "bytes_attribute message kind =
    find_map (\<lambda>(k, v). if k = kind then Some v else None) (gm_attributes message)"

definition u32_attribute :: "generic_message \<Rightarrow> u16 \<Rightarrow> u32 option" where
  "u32_attribute message kind = Option.bind (bytes_attribute message kind) native_u32"

definition string_attribute :: "generic_message \<Rightarrow> u16 \<Rightarrow> string option" where
  "string_attribute message kind = Option.bind (bytes_attribute message kind) nul_terminated_string"

definition nested_u8 :: "attribute list \<Rightarrow> u16 \<Rightarrow> u8 option" where
  "nested_u8 attrs kind = Option.bind (nested_bytes attrs kind) first_opt"

definition nested_i8 :: "attribute list \<Rightarrow> u16 \<Rightarrow> 8 word option" where
  "nested_i8 attrs kind = nested_u8 attrs kind"

definition nested_u16 :: "attribute list \<Rightarrow> u16 \<Rightarrow> u16 option" where
  "nested_u16 attrs kind = Option.bind (nested_bytes attrs kind) native_u16"

definition nested_u32 :: "attribute list \<Rightarrow> u16 \<Rightarrow> u32 option" where
  "nested_u32 attrs kind = Option.bind (nested_bytes attrs kind) native_u32"

definition nested_u64 :: "attribute list \<Rightarrow> u16 \<Rightarrow> u64 option" where
  "nested_u64 attrs kind = Option.bind (nested_bytes attrs kind) native_u64"

definition has_attribute :: "attribute list \<Rightarrow> u16 \<Rightarrow> bool" where
  "has_attribute attrs kind = list_ex (\<lambda>(k, _). k = kind) attrs"

definition format_mac :: "bytes \<Rightarrow> string" where
  "format_mac value = join '':'' (map hex_byte value)"

definition interface_type :: "u32 \<Rightarrow> string" where
  "interface_type kind =
    unwrap_or (''type-'' @ decimal (unat kind)) (map_of
      [(1, ''ad-hoc''), (2, ''station''), (3, ''access-point''), (4, ''access-point-vlan''), (5, ''wds''),
       (6, ''monitor''), (7, ''mesh''), (8, ''p2p-client''), (9, ''p2p-go''), (10, ''p2p-device''),
       (11, ''ocb''), (12, ''nan'')] kind)"

section \<open>Network name, rates, stations\<close>

text \<open>The loop of \<open>parse_ssid\<close> from an offset: the first element of kind 0 is the name.\<close>

function ssid_from :: "bytes \<Rightarrow> nat \<Rightarrow> string option" where
  "ssid_from elements offset =
    (if 2 \<le> length elements - offset then
       let kind = elements ! offset; len = unat (elements ! (offset + 1)); start = offset + 2
       in if length elements - start < len then None
          else if kind = 0 then from_utf8 (take len (drop start elements))
          else ssid_from elements (start + len)
     else None)"
  by pat_completeness auto
termination
  by (relation "measure (\<lambda>(elements, offset). length elements - offset)") auto

declare ssid_from.simps [simp del]

definition parse_ssid :: "bytes \<Rightarrow> string option" where
  "parse_ssid elements = ssid_from elements 0"

definition parse_bitrate :: "bytes \<Rightarrow> bitrate option" where
  "parse_bitrate value =
    Option.bind (nested_attributes value) (\<lambda>attrs.
    Option.bind (option_or
      (map_option (\<lambda>rate. f32_div (f32_of_int (uint rate)) 10) (nested_u32 attrs RATE_BITRATE32))
      (map_option (\<lambda>rate. f32_div (f32_of_int (uint rate)) 10) (nested_u16 attrs RATE_BITRATE))) (\<lambda>mbps.
    case (case nested_u8 attrs RATE_HE_MCS of
            Some mcs \<Rightarrow> (Some ''HE'', Some mcs)
          | None \<Rightarrow>
              (case nested_u8 attrs RATE_VHT_MCS of
                 Some mcs \<Rightarrow> (Some ''VHT'', Some mcs)
               | None \<Rightarrow> (None, nested_u8 attrs RATE_MCS))) of
      (encoding, mcs) \<Rightarrow>
        Some \<lparr>br_mbps = mbps,
          br_width_mhz = Some (if has_attribute attrs RATE_WIDTH_160 then 160
            else if has_attribute attrs RATE_WIDTH_80 then 80
            else if has_attribute attrs RATE_WIDTH_40 then 40
            else 20),
          br_mcs = mcs,
          br_spatial_streams = option_or (nested_u8 attrs RATE_HE_NSS) (nested_u8 attrs RATE_VHT_NSS),
          br_encoding = encoding\<rparr>))"

definition parse_station :: "generic_message \<Rightarrow> station option" where
  "parse_station message =
    Option.bind (Option.bind (bytes_attribute message ATTR_STA_INFO) nested_attributes) (\<lambda>attrs.
    Some \<lparr>sta_inactive_ms = nested_u32 attrs STA_INACTIVE_TIME,
      sta_signal_dbm = nested_i8 attrs STA_SIGNAL,
      sta_average_signal_dbm = nested_i8 attrs STA_SIGNAL_AVG,
      sta_receive_bytes = nested_u64 attrs STA_RX_BYTES64,
      sta_transmit_bytes = nested_u64 attrs STA_TX_BYTES64,
      sta_receive_packets = nested_u32 attrs STA_RX_PACKETS,
      sta_transmit_packets = nested_u32 attrs STA_TX_PACKETS,
      sta_transmit_retries = nested_u32 attrs STA_TX_RETRIES,
      sta_transmit_failures = nested_u32 attrs STA_TX_FAILED,
      sta_receive_bitrate = Option.bind (nested_bytes attrs STA_RX_BITRATE) parse_bitrate,
      sta_transmit_bitrate = Option.bind (nested_bytes attrs STA_TX_BITRATE) parse_bitrate\<rparr>)"

definition parse_connected_bss :: "generic_message \<Rightarrow> connected_bss option" where
  "parse_connected_bss message =
    Option.bind (Option.bind (bytes_attribute message ATTR_BSS) nested_attributes) (\<lambda>attrs.
    Option.bind (nested_u32 attrs BSS_STATUS) (\<lambda>status.
    if status \<noteq> BSS_STATUS_ASSOCIATED \<and> status \<noteq> BSS_STATUS_AUTHENTICATED then None
    else
      Some \<lparr>b_frequency_mhz = nested_u32 attrs BSS_FREQUENCY,
        b_ssid = Option.bind (nested_bytes attrs BSS_INFORMATION_ELEMENTS) parse_ssid,
        b_bssid = map_option format_mac (nested_bytes attrs BSS_BSSID),
        b_signal_dbm = map_option (\<lambda>signal. f32_div (f32_of_int (sint signal)) 100)
          (nested_u32 attrs BSS_SIGNAL_MBM),
        b_signal_unspecified = Option.bind (nested_bytes attrs BSS_SIGNAL_UNSPEC) first_opt,
        b_seen_ms_ago = nested_u32 attrs BSS_SEEN_MS_AGO\<rparr>))"

section \<open>Interfaces\<close>

definition parse_interface :: "generic_message \<Rightarrow> (u32 \<rightharpoonup> string) \<Rightarrow> wifi_interface option" where
  "parse_interface message wiphys =
    (let wiphy = u32_attribute message ATTR_WIPHY
     in Option.bind (u32_attribute message ATTR_IFINDEX) (\<lambda>index.
        Option.bind (string_attribute message ATTR_IFNAME) (\<lambda>name.
        Option.bind (u32_attribute message ATTR_IFTYPE) (\<lambda>kind.
        Some \<lparr>w_interface_index = index, w_name = name, w_interface_type = interface_type kind,
          w_mac = map_option format_mac (bytes_attribute message ATTR_MAC),
          w_wiphy = wiphy, w_wiphy_name = Option.bind wiphy wiphys,
          w_frequency_mhz = u32_attribute message ATTR_WIPHY_FREQ,
          w_ssid = None, w_bssid = None, w_signal_dbm = None, w_signal_unspecified = None,
          w_seen_ms_ago = None, w_power_save = None, w_station = None\<rparr>))))"

text \<open>\<open>collect\<close> into a \<open>HashMap\<close>: of two messages about one radio the later wins.\<close>

definition wiphy_names :: "generic_message list \<Rightarrow> u32 \<rightharpoonup> string" where
  "wiphy_names messages =
    map_of (rev (filter_map (\<lambda>message.
      Option.bind (u32_attribute message ATTR_WIPHY) (\<lambda>index.
      map_option (Pair index) (string_attribute message ATTR_WIPHY_NAME))) messages))"

definition with_bss :: "generic_message list result \<Rightarrow> wifi_interface \<Rightarrow> wifi_interface" where
  "with_bss reply interface =
    (case reply of
       Err _ \<Rightarrow> interface
     | Ok messages \<Rightarrow>
         (case find_map parse_connected_bss messages of
            None \<Rightarrow> interface
          | Some bss \<Rightarrow> interface
              \<lparr>w_frequency_mhz := option_or (b_frequency_mhz bss) (w_frequency_mhz interface),
               w_ssid := b_ssid bss, w_bssid := b_bssid bss, w_signal_dbm := b_signal_dbm bss,
               w_signal_unspecified := b_signal_unspecified bss, w_seen_ms_ago := b_seen_ms_ago bss\<rparr>))"

definition with_station :: "generic_message list result \<Rightarrow> wifi_interface \<Rightarrow> wifi_interface" where
  "with_station reply interface =
    (case reply of
       Err _ \<Rightarrow> interface
     | Ok messages \<Rightarrow> interface\<lparr>w_station := find_map parse_station messages\<rparr>)"

definition with_power_save :: "generic_message list result \<Rightarrow> wifi_interface \<Rightarrow> wifi_interface" where
  "with_power_save reply interface =
    (case reply of
       Err _ \<Rightarrow> interface
     | Ok messages \<Rightarrow> interface\<lparr>w_power_save :=
         map_option (\<lambda>state. state = 1) (find_map (\<lambda>m. u32_attribute m ATTR_PS_STATE) messages)\<rparr>)"

definition interface_selector :: "wifi_interface \<Rightarrow> attribute list" where
  "interface_selector interface = [attribute_u32 ATTR_IFINDEX (w_interface_index interface)]"

text \<open>The loop over the interfaces; \<open>None\<close> when a request waits for ever.\<close>

fun interface_loop ::
  "kernel \<Rightarrow> wifi_interface list \<Rightarrow> client \<Rightarrow> (wifi_interface list \<times> client) option" where
  "interface_loop k [] client = Some ([], client)"
| "interface_loop k (interface # rest) client =
    do {
      (scan, client) \<leftarrow> request k client CMD_GET_SCAN 1 True (interface_selector interface);
      (stations, client) \<leftarrow> request k client CMD_GET_STATION 1 True (interface_selector interface);
      (power, client) \<leftarrow> request k client CMD_GET_POWER_SAVE 1 False (interface_selector interface);
      (interfaces, client) \<leftarrow> interface_loop k rest client;
      Some (with_power_save power (with_station stations (with_bss scan interface)) # interfaces, client)
    }"

definition interfaces :: "kernel \<Rightarrow> wifi_interface list result option" where
  "interfaces k =
    (case connect k ''nl80211'' of
       None \<Rightarrow> None
     | Some (Err e) \<Rightarrow> Some (Err e)
     | Some (Ok client) \<Rightarrow>
         (case request k client CMD_GET_WIPHY 1 True [] of
            None \<Rightarrow> None
          | Some (Err e, _) \<Rightarrow> Some (Err e)
          | Some (Ok wiphys, client) \<Rightarrow>
              (case request k client CMD_GET_INTERFACE 1 True [] of
                 None \<Rightarrow> None
               | Some (Err e, _) \<Rightarrow> Some (Err e)
               | Some (Ok messages, client) \<Rightarrow>
                   map_option (\<lambda>(is, _). Ok (sort_key w_interface_index is))
                     (interface_loop k
                       (filter_map (\<lambda>m. parse_interface m (wiphy_names wiphys)) messages) client))))"

end
