(* ===== verification/Wifi_Spec.thy ===== *)
theory Wifi_Spec
  imports Wifi Generic_Replies
begin

text \<open>
  What \<open>wifi.rs\<close> promises: the network name is found among the information elements, the
  connected access point is decoded with its signal strength to the precision of \<open>f32\<close>, and
  the list of interfaces is complete whatever the optional requests answer.
\<close>

section \<open>Information elements\<close>

definition encode_element :: "u8 \<times> bytes \<Rightarrow> bytes" where
  "encode_element e = [fst e, of_nat (length (snd e))] @ snd e"

definition elements_ok :: "(u8 \<times> bytes) list \<Rightarrow> bool" where
  "elements_ok es \<longleftrightarrow> list_all (\<lambda>e. length (snd e) < 256) es"

text \<open>What a driver may leave at the end of its buffer: a single byte, or an element that was
  cut off.\<close>

definition cut_off :: "bytes \<Rightarrow> bool" where
  "cut_off tail \<longleftrightarrow> length tail < 2 \<or> length tail - 2 < unat (tail ! 1)"

definition network_name :: "(u8 \<times> bytes) list \<Rightarrow> string option" where
  "network_name es = Option.bind (find_map (\<lambda>(k, v). if k = 0 then Some v else None) es) from_utf8"

lemma ssid_from_cut_off:
  assumes "cut_off tail"
  shows "ssid_from (before @ tail) (length before) = None"
proof (cases "length tail < 2")
  case True
  then show ?thesis
    by (subst ssid_from.simps) simp
next
  case False
  with assms have "length tail - 2 < unat (tail ! 1)"
    by (simp add: cut_off_def)
  moreover have "(before @ tail) ! (length before + 1) = tail ! 1"
    by (simp add: nth_append)
  ultimately show ?thesis
    using False by (subst ssid_from.simps) (simp add: Let_def)
qed

lemma ssid_from_elements:
  assumes "elements_ok es" and "cut_off tail"
  shows "ssid_from (before @ concat (map encode_element es) @ tail) (length before) = network_name es"
  using assms(1)
proof (induction es arbitrary: before)
  case Nil
  then show ?case
    using ssid_from_cut_off [OF assms(2)] by (simp add: network_name_def)
next
  case (Cons e es)
  obtain k v where e: "e = (k, v)"
    by (cases e)
  have v: "length v < 256" and rest: "elements_ok es"
    using Cons.prems by (simp_all add: elements_ok_def e)
  then have len: "unat (of_nat (length v) :: u8) = length v"
    by (simp add: unat_of_nat)
  let ?all = "before @ concat (map encode_element (e # es)) @ tail"
  have parts: "?all = before @ [k, of_nat (length v)] @ v @ concat (map encode_element es) @ tail"
    by (simp add: encode_element_def e)
  have fields: "?all ! length before = k" "?all ! (length before + 1) = of_nat (length v)"
    "take (length v) (drop (length before + 2) ?all) = v"
    "2 \<le> length ?all - length before" "\<not> length ?all - (length before + 2) < length v"
    unfolding parts by (simp_all add: nth_append)
  show ?case
  proof (cases "k = 0")
    case True
    then show ?thesis
      unfolding ssid_from.simps [of ?all "length before"] Let_def fields len
      using fields(4,5) by (simp add: network_name_def e)
  next
    case False
    have "ssid_from ((before @ encode_element e) @ concat (map encode_element es) @ tail)
        (length (before @ encode_element e)) = network_name es"
      by (rule Cons.IH [OF rest])
    then have "ssid_from ?all (length before + 2 + length v) = network_name es"
      by (simp add: encode_element_def e)
    then show ?thesis
      unfolding ssid_from.simps [of ?all "length before"] Let_def fields len
      using False fields(4,5) by (simp add: network_name_def e)
  qed
qed

text \<open>The network name is the first element of kind 0, if it is UTF-8, wherever it stands among
  the information elements; a buffer that ends in a cut-off element, even a cut-off name, yields
  no name of its own and is never read past its end.\<close>

theorem ssid_of_elements:
  assumes "elements_ok es" and "cut_off tail"
  shows "parse_ssid (concat (map encode_element es) @ tail) = network_name es"
  using ssid_from_elements [OF assms, of "[]"] by (simp add: parse_ssid_def)

theorem ssid_of_elements_witness:
  "parse_ssid ([1, 1, 0x82] @ [0, 4, 116, 101, 115, 116] @ [48, 20, 1]) = Some ''test''
   \<and> parse_ssid [0, 5, 116] = None"
proof -
  have "cut_off [48, 20, 1]" "cut_off [0, 5, 116]" "elements_ok [(1, [0x82]), (0, [116, 101, 115, 116])]"
      "elements_ok []"
    by (simp_all add: cut_off_def elements_ok_def)
  moreover have "network_name [(1, [0x82]), (0, [116, 101, 115, 116])] = Some ''test''"
    by code_simp
  ultimately show ?thesis
    using ssid_of_elements [of "[(1, [0x82]), (0, [116, 101, 115, 116])]" "[48, 20, 1]"]
      ssid_of_elements [of "[]" "[0, 5, 116]"]
    by (simp add: encode_element_def network_name_def)
qed

section \<open>Scan results\<close>

text \<open>A cached scan result of the kernel; the strength is in hundredths of a dBm or, from drivers
  that cannot measure it, a quality.\<close>

record kernel_bss =
  kb_bssid :: bytes
  kb_elements :: "(u8 \<times> bytes) list"
  kb_frequency :: u32
  kb_seen_ms_ago :: u32
  kb_signal_mbm :: "i32 option"
  kb_signal_unspecified :: "u8 option"
  kb_status :: "u32 option"

definition bss_attributes :: "kernel_bss \<Rightarrow> attribute list" where
  "bss_attributes b =
    [(BSS_BSSID, kb_bssid b), (BSS_INFORMATION_ELEMENTS, concat (map encode_element (kb_elements b))),
     attribute_u32 BSS_FREQUENCY (kb_frequency b), attribute_u32 BSS_SEEN_MS_AGO (kb_seen_ms_ago b)]
    @ attribute_opt BSS_SIGNAL_MBM u32_bytes (kb_signal_mbm b)
    @ attribute_opt BSS_SIGNAL_UNSPEC (\<lambda>q. [q]) (kb_signal_unspecified b)
    @ attribute_opt BSS_STATUS u32_bytes (kb_status b)"

definition bss_ok :: "kernel_bss \<Rightarrow> bool" where
  "bss_ok b \<longleftrightarrow> length (kb_bssid b) < 65532 \<and> elements_ok (kb_elements b)
    \<and> length (concat (map encode_element (kb_elements b))) < 65532"

definition bss_view :: "kernel_bss \<Rightarrow> connected_bss" where
  "bss_view b =
    \<lparr>b_frequency_mhz = Some (kb_frequency b), b_ssid = network_name (kb_elements b),
     b_bssid = Some (format_mac (kb_bssid b)),
     b_signal_dbm = map_option (\<lambda>mbm. f32_div (f32_of_int (sint mbm)) 100) (kb_signal_mbm b),
     b_signal_unspecified = kb_signal_unspecified b, b_seen_ms_ago = Some (kb_seen_ms_ago b)\<rparr>"

definition bss_message :: "attribute list \<Rightarrow> kernel_bss \<Rightarrow> generic_message" where
  "bss_message others b =
    \<lparr>gm_command = CMD_GET_SCAN, gm_attributes = others @ [masked (attribute_nested ATTR_BSS (bss_attributes b))]\<rparr>"

lemma nested_bytes_append: "nested_bytes (xs @ ys) k = option_or (nested_bytes xs k) (nested_bytes ys k)"
  by (simp add: nested_bytes_def find_map_append)

lemma nested_bytes_opt:
  "nested_bytes (map masked (attribute_opt kind enc x)) k =
    (if kind AND NLA_TYPE_MASK = k then map_option enc x else None)"
  by (cases x) (simp_all add: nested_bytes_def attribute_opt_def masked_def)

lemma bss_fields:
  "nested_bytes (map masked (bss_attributes b)) BSS_BSSID = Some (kb_bssid b)"
  "nested_bytes (map masked (bss_attributes b)) BSS_INFORMATION_ELEMENTS =
    Some (concat (map encode_element (kb_elements b)))"
  "nested_bytes (map masked (bss_attributes b)) BSS_FREQUENCY = Some (u32_bytes (kb_frequency b))"
  "nested_bytes (map masked (bss_attributes b)) BSS_SEEN_MS_AGO = Some (u32_bytes (kb_seen_ms_ago b))"
  "nested_bytes (map masked (bss_attributes b)) BSS_SIGNAL_MBM = map_option u32_bytes (kb_signal_mbm b)"
  "nested_bytes (map masked (bss_attributes b)) BSS_SIGNAL_UNSPEC =
    map_option (\<lambda>q. [q]) (kb_signal_unspecified b)"
  "nested_bytes (map masked (bss_attributes b)) BSS_STATUS = map_option u32_bytes (kb_status b)"
  unfolding bss_attributes_def map_append nested_bytes_append nested_bytes_opt
  by (simp_all add: nested_bytes_def masked_def attribute_u32_def)

lemma bind_bytes [simp]:
  "Option.bind (map_option u32_bytes x) native_u32 = x"
  "Option.bind (map_option (\<lambda>q. [q]) y) first_opt = y"
  by (cases x; simp) (cases y; simp)

text \<open>C10: A scan result is reported exactly when the kernel marks it as the current connection,
  with every field decoded; the strength is the kernel's value in dBm to the precision of a
  32-bit floating-point number.\<close>

theorem connected_bss_exact:
  assumes "bss_ok b" and "list_all (\<lambda>(k, _). k \<noteq> ATTR_BSS) others"
  shows "parse_connected_bss (bss_message others b) =
      (if kb_status b \<in> {Some BSS_STATUS_ASSOCIATED, Some BSS_STATUS_AUTHENTICATED} then Some (bss_view b) else None)
    \<and> (case (kb_signal_mbm b, b_signal_dbm (bss_view b)) of
         (Some mbm, Some dbm) \<Rightarrow> 2 ^ 24 \<le> \<bar>sint mbm\<bar>
           \<or> \<bar>float_value dbm - of_int (sint mbm) / 100\<bar> \<le> \<bar>of_int (sint mbm) / 100\<bar> / 2 ^ 24
       | (None, None) \<Rightarrow> True
       | _ \<Rightarrow> False)"
proof
  have "find_map (\<lambda>(k, v). if k = ATTR_BSS then Some v else None) others = None"
    using assms(2) by (auto simp: find_map_None list_all_iff)
  then have bss: "bytes_attribute (bss_message others b) ATTR_BSS =
      Some (snd (attribute_nested ATTR_BSS (bss_attributes b)))"
    unfolding bytes_attribute_def bss_message_def generic_message.select_convs find_map_append
    by (simp add: masked_nested)
  have "list_all encodable_attribute (bss_attributes b)"
    using assms(1)
    by (auto simp: bss_attributes_def bss_ok_def encodable_opt encodable_attribute_def attribute_u32_def)
  note decode = nested_decode [OF this, of ATTR_BSS]
  have ssid: "parse_ssid (concat (map encode_element (kb_elements b))) = network_name (kb_elements b)"
    using ssid_from_elements [of "kb_elements b" "[]" "[]"] assms(1)
    by (simp add: parse_ssid_def bss_ok_def cut_off_def)
  show "parse_connected_bss (bss_message others b) =
      (if kb_status b \<in> {Some BSS_STATUS_ASSOCIATED, Some BSS_STATUS_AUTHENTICATED} then Some (bss_view b) else None)"
    unfolding parse_connected_bss_def bss Option.bind.bind_lunit decode nested_u32_def bss_fields bind_bytes
      native_exact option.map ssid
    by (cases "kb_status b") (simp_all add: bss_view_def)
  show "case (kb_signal_mbm b, b_signal_dbm (bss_view b)) of
         (Some mbm, Some dbm) \<Rightarrow> 2 ^ 24 \<le> \<bar>sint mbm\<bar>
           \<or> \<bar>float_value dbm - of_int (sint mbm) / 100\<bar> \<le> \<bar>of_int (sint mbm) / 100\<bar> / 2 ^ 24
       | (None, None) \<Rightarrow> True
       | _ \<Rightarrow> False"
  proof (cases "kb_signal_mbm b")
    case (Some mbm)
    have "\<bar>float_value (f32_div (f32_of_int (sint mbm)) 100) - of_int (sint mbm) / 100\<bar>
        \<le> \<bar>of_int (sint mbm) / 100\<bar> / 2 ^ 24" if "\<not> 2 ^ 24 \<le> \<bar>sint mbm\<bar>"
      using that f32_quotient_accurate [of "sint mbm" 100] by simp
    then show ?thesis
      unfolding bss_view_def connected_bss.select_convs Some option.map prod.case option.case by blast
  qed (simp add: bss_view_def)
qed

theorem connected_bss_exact_witness:
  "parse_connected_bss (bss_message [attribute_u32 ATTR_IFINDEX 3]
      \<lparr>kb_bssid = [2, 0, 0, 0, 0, 1], kb_elements = [(0, [110, 101, 116])], kb_frequency = 5180,
       kb_seen_ms_ago = 40, kb_signal_mbm = Some (- 5150), kb_signal_unspecified = None, kb_status = Some 1\<rparr>) =
    Some \<lparr>b_frequency_mhz = Some 5180, b_ssid = Some ''net'', b_bssid = Some ''02:00:00:00:00:01'',
      b_signal_dbm = Some \<lparr>significand = - 13500416, exponent = - 18\<rparr>, b_signal_unspecified = None,
      b_seen_ms_ago = Some 40\<rparr>"
proof -
  let ?b = "\<lparr>kb_bssid = [2, 0, 0, 0, 0, 1], kb_elements = [(0, [110, 101, 116])], kb_frequency = 5180,
       kb_seen_ms_ago = 40, kb_signal_mbm = Some (- 5150), kb_signal_unspecified = None, kb_status = Some 1\<rparr>"
  have "bss_ok ?b"
    by (simp add: bss_ok_def elements_ok_def encode_element_def)
  moreover have "network_name [(0, [110, 101, 116])] = Some ''net''"
      "format_mac [2, 0, 0, 0, 0, 1] = ''02:00:00:00:00:01''"
    by code_simp+
  moreover have "f32_div (f32_of_int (- 5150)) 100 = \<lparr>significand = - 13500416, exponent = - 18\<rparr>"
    by (simp add: f32_div_def float_div_def f32_of_int_def float_of_ratio_def float_ratio_def round_ratio_def
        ratio_exponent_def scaled_def bit_size.simps round_div_def Let_def)
  ultimately show ?thesis
    using connected_bss_exact [of ?b "[attribute_u32 ATTR_IFINDEX 3]"]
    by (simp add: attribute_u32_def bss_view_def)
qed

section \<open>Interfaces\<close>

text \<open>An interface with what its own requests answered.\<close>

definition refreshed ::
  "(u8 \<Rightarrow> attribute list \<Rightarrow> i32 + generic_message list) \<Rightarrow> (u8 \<Rightarrow> attribute list \<Rightarrow> i32 + generic_message)
    \<Rightarrow> wifi_interface \<Rightarrow> wifi_interface" where
  "refreshed dump single interface =
    with_power_save (dumped (map_sum id (\<lambda>g. [g]) (single CMD_GET_POWER_SAVE (interface_selector interface))))
      (with_station (dumped (dump CMD_GET_STATION (interface_selector interface)))
        (with_bss (dumped (dump CMD_GET_SCAN (interface_selector interface))) interface))"

lemma request_answered:
  assumes "answers_requests k (cl_family_id c) reply" and "ordinary_type (cl_family_id c)"
    and "cl_queue c = []"
  shows "request k c command 1 False attrs =
    Some (dumped (map_sum id (\<lambda>g. [g]) (reply command attrs)), c\<lparr>cl_sequence := cl_sequence c + 1, cl_queue := []\<rparr>)"
proof -
  let ?r = "single_reply (cl_family_id c) (cl_sequence c + 1) (reply command attrs)"
  let ?m = "build_message (cl_family_id c) (cl_sequence c + 1) command 1 NLM_F_REQUEST attrs"
  have kernel: "send_message k ?m = Ok ()" "k_replies k ?m = packets [[?r]]" "reply_ok (reply command attrs)"
    using assms(1) by (simp_all add: answers_requests_def)
  have "parse_messages (concat (map pad_to_4 [?r])) (cl_family_id c) (cl_sequence c + 1) =
      dumped (map_sum id (\<lambda>g. [g]) (reply command attrs))"
  proof (cases "reply command attrs")
    case (Inl code)
    with kernel(3) show ?thesis
      by (simp add: parse_messages_error reply_ok_def single_reply_def dumped_def del: list.map)
  next
    case (Inr g)
    with kernel(3) parse_messages_single [OF assms(2), of g "cl_sequence c + 1"] show ?thesis
      unfolding Inr by (auto simp: reply_ok_def single_reply_def dumped_def list.map(2) [of generic_view]
          simp del: list.map(2))
  qed
  with request_single [OF kernel(1) assms(3) kernel(2) packets_ok_reply [OF kernel(3)] refl] show ?thesis
    by (simp del: list.map)
qed

lemma interface_loop_answered:
  assumes "answers_dumps k family_id dump" and "answers_requests k family_id single"
    and "ordinary_type family_id" and "cl_family_id c = family_id" and "cl_queue c = []"
  shows "map_option fst (interface_loop k is c) = Some (map (refreshed dump single) is)"
  using assms(4,5)
proof (induction "is" arbitrary: c)
  case (Cons i "is")
  let ?c = "c\<lparr>cl_sequence := cl_sequence c + 3, cl_queue := []\<rparr>"
  have "map_option fst (interface_loop k is ?c) = Some (map (refreshed dump single) is)"
    using Cons.prems by (intro Cons.IH) simp_all
  with assms(1-3) Cons.prems show ?case
    by (auto simp: request_dumped [where reply = dump] request_answered [where reply = single]
        refreshed_def add.assoc
        simp del: CMD_GET_SCAN_def CMD_GET_STATION_def CMD_GET_POWER_SAVE_def)
qed simp

lemma interfaces_complete:
  assumes "connect k ''nl80211'' = Some (Ok \<lparr>cl_family_id = family_id, cl_sequence = 1, cl_queue = []\<rparr>)"
    and "ordinary_type family_id"
    and "answers_dumps k family_id dump" and "answers_requests k family_id single"
    and "dump CMD_GET_WIPHY [] = Inr radios" and "dump CMD_GET_INTERFACE [] = Inr listed"
  shows "interfaces k = Some (Ok (sort_key w_interface_index (map (refreshed dump single)
    (filter_map (\<lambda>m. parse_interface m (wiphy_names (map generic_view radios))) (map generic_view listed)))))"
proof -
  let ?is = "filter_map (\<lambda>m. parse_interface m (wiphy_names (map generic_view radios))) (map generic_view listed)"
  let ?c = "\<lambda>s. \<lparr>cl_family_id = family_id, cl_sequence = s, cl_queue = []\<rparr>"
  have radios: "request k (?c 1) CMD_GET_WIPHY 1 True [] = Some (Ok (map generic_view radios), ?c 2)"
    using request_dumped [of k "?c 1" dump CMD_GET_WIPHY "[]"] assms(2,3) unfolding assms(5)
    by (simp add: dumped_def)
  have listed: "request k (?c 2) CMD_GET_INTERFACE 1 True [] = Some (Ok (map generic_view listed), ?c 3)"
    using request_dumped [of k "?c 2" dump CMD_GET_INTERFACE "[]"] assms(2,3) unfolding assms(6)
    by (simp add: dumped_def)
  have "map_option fst (interface_loop k ?is (?c 3)) = Some (map (refreshed dump single) ?is)"
    using assms(2-4) by (intro interface_loop_answered) simp_all
  then show ?thesis
    unfolding interfaces_def assms(1) option.case result.case radios listed prod.case by auto
qed


text \<open>A kernel with one radio and one interface, connected to one network, whose driver keeps
  neither station counters nor power saving.\<close>

definition example_bss :: kernel_bss where
  "example_bss = \<lparr>kb_bssid = [2, 0, 0, 0, 0, 1], kb_elements = [(0, [110, 101, 116])], kb_frequency = 5180,
     kb_seen_ms_ago = 40, kb_signal_mbm = None, kb_signal_unspecified = Some 70, kb_status = Some 1\<rparr>"

definition example_dump :: "u8 \<Rightarrow> attribute list \<Rightarrow> i32 + generic_message list" where
  "example_dump command attrs =
    (if command = CMD_GET_WIPHY then
       Inr [\<lparr>gm_command = 3, gm_attributes = [attribute_u32 ATTR_WIPHY 0, (ATTR_WIPHY_NAME, text_value ''phy0'')]\<rparr>]
     else if command = CMD_GET_INTERFACE then
       Inr [\<lparr>gm_command = 7, gm_attributes = [attribute_u32 ATTR_IFINDEX 3, (ATTR_IFNAME, text_value ''wlan0''),
         attribute_u32 ATTR_WIPHY 0, attribute_u32 ATTR_IFTYPE 2]\<rparr>]
     else if command = CMD_GET_SCAN then
       Inr [\<lparr>gm_command = 34, gm_attributes = [attribute_nested ATTR_BSS (bss_attributes example_bss)]\<rparr>]
     else Inl (- 95))"

definition example_wifi :: kernel where
  "example_wifi =
    \<lparr>k_socket = None, k_bind = \<lambda>_. None, k_sendto = \<lambda>request. Inr (length request),
     k_replies = \<lambda>request.
       let s = mh_sequence (message_header_of request)
       in if mh_message_type (message_header_of request) = GENL_ID_CTRL
          then packets [[encode_generic GENL_ID_CTRL 1 example_family]]
          else if mh_flags (message_header_of request) = NLM_F_REQUEST
          then packets [[error_message s (- 95)]]
          else
            (case example_dump (request ! 16) [] of
               Inl code \<Rightarrow> packets [[error_message s code]]
             | Inr gs \<Rightarrow> packets [map (encode_generic 21 s) gs @ [done_message s]])\<rparr>"

lemma connect_example_wifi:
  "connect example_wifi ''nl80211'' = Some (Ok \<lparr>cl_family_id = 21, cl_sequence = 1, cl_queue = []\<rparr>)"
  by (rule connect_example)
    (simp_all add: example_wifi_def open_socket_def send_message_def family_request_def)

lemma single_answers_example_wifi: "answers_requests example_wifi 21 (\<lambda>_ _. Inl (- 95))"
  by (simp add: answers_requests_def example_wifi_def send_message_def reply_ok_def single_reply_def)

lemma example_dump_small:
  "example_dump command attrs = Inr gs \<Longrightarrow> list_all (\<lambda>g. small_attributes (gm_attributes g)) gs
    \<and> length gs = 1 \<and> list_all (\<lambda>g. length (concat (map attribute_bytes (gm_attributes g))) < 1000) gs"
  by (auto simp: example_dump_def small_attributes_def encodable_attribute_def attribute_u32_def
      length_attribute_bytes align_to_4_def text_value_def as_bytes_def length_nested bss_attributes_def
      example_bss_def encode_element_def attribute_opt_def split: if_splits)

lemma dump_answers_example_wifi: "answers_dumps example_wifi 21 example_dump"
proof -
  have "answers_dump example_wifi
      (build_message 21 s command 1 (NLM_F_REQUEST OR NLM_F_DUMP) attrs) 21 s (example_dump command attrs)"
    for s command attrs
  proof (cases "example_dump command attrs")
    case (Inl code)
    then show ?thesis
      by (simp add: answers_dump_def example_wifi_def send_message_def command_of_build)
        (auto simp: example_dump_def split: if_splits)
  next
    case (Inr gs)
    then obtain g where g: "gs = [g]" "small_attributes (gm_attributes g)"
        "length (concat (map attribute_bytes (gm_attributes g))) < 1000"
      using example_dump_small [OF Inr] by (cases gs) simp_all
    have "framed (encode_generic 21 s g)" "length (encode_generic 21 s g) < 1020"
      using g by (simp_all add: encode_generic_def build_message_framed)
        (simp add: build_message_parts)
    then have "packets_ok (64 * 1024) [[encode_generic 21 s g, done_message s]]"
      using align_to_4_less [of "length (encode_generic 21 s g)"]
      by (simp add: packets_ok_def align_to_4_def [of 20])
    moreover have "example_dump command [] = example_dump command attrs"
      by (simp add: example_dump_def)
    ultimately show ?thesis
      using g Inr by (auto simp: answers_dump_def example_wifi_def send_message_def command_of_build
          intro!: exI [of _ "[[encode_generic 21 s g, done_message s]]"])
  qed
  then show ?thesis
    by (simp add: answers_dumps_def)
qed


end
