(* ===== verification/Cli_Arguments.thy ===== *)
theory Cli_Arguments
  imports Text_Layout Netlink_Events
begin

text \<open>
  The argument parsers of \<open>main.rs\<close>: \<open>scan\<close>, \<open>probe\<close>, \<open>traffic\<close> and \<open>watch\<close>.
  Each walks the arguments from left to right; an option takes the next argument as its value.
  The functions below recurse on the arguments that are left.
\<close>

definition invalid_input :: "string \<Rightarrow> 'a result" where
  "invalid_input message = Err (Custom InvalidInput message)"

definition starts_with :: "char \<Rightarrow> string \<Rightarrow> bool" where
  "starts_with c s \<longleftrightarrow> s \<noteq> [] \<and> hd s = c"

text \<open>\<open>parse_option_value\<close> on the arguments that start at the value; \<open>parse\<close> is the
  \<open>FromStr\<close> of the expected type.\<close>

definition parse_option_value :: "(string \<Rightarrow> 'a option) \<Rightarrow> string list \<Rightarrow> string \<Rightarrow> 'a result" where
  "parse_option_value parse arguments option =
    (case arguments of
       [] \<Rightarrow> invalid_input (option @ '' requires a value'')
     | v # _ \<Rightarrow>
         (case parse v of
            None \<Rightarrow> invalid_input (''invalid value for '' @ option)
          | Some x \<Rightarrow> Ok x))"

section \<open>scan\<close>

datatype scan_filter = Changed | Unchanged

record scan_arguments =
  sa_selection :: "string option"
  sa_wait_ms :: u64
  sa_retries :: u32
  sa_resolve_names :: bool
  sa_excluded :: "ipv4_addr set"
  sa_filter :: "scan_filter option"

definition scan_defaults :: scan_arguments where
  "scan_defaults =
    \<lparr>sa_selection = None, sa_wait_ms = 1200, sa_retries = 1, sa_resolve_names = True, sa_excluded = {},
     sa_filter = None\<rparr>"

definition parse_scan_filter :: "string \<Rightarrow> scan_filter result" where
  "parse_scan_filter v =
    (if v = ''changed'' then Ok Changed
     else if v = ''unchanged'' then Ok Unchanged
     else invalid_input ''--filter must be changed or unchanged'')"

text \<open>The effect of one option with its value, as the arms of the \<open>match\<close> have it.\<close>

definition scan_filter_option :: "string list \<Rightarrow> scan_arguments \<Rightarrow> scan_arguments result" where
  "scan_filter_option rest parsed =
    (case rest of
       [] \<Rightarrow> invalid_input ''--filter requires changed or unchanged''
     | v # _ \<Rightarrow>
         (case parse_scan_filter v of
            Err e \<Rightarrow> Err e
          | Ok choice \<Rightarrow>
              if sa_filter parsed \<noteq> None then invalid_input ''scan filter was specified more than once''
              else Ok (parsed\<lparr>sa_filter := Some choice\<rparr>)))"

definition scan_wait_option :: "string list \<Rightarrow> scan_arguments \<Rightarrow> scan_arguments result" where
  "scan_wait_option rest parsed =
    (case parse_option_value parse_u64 rest ''--wait'' of
       Err e \<Rightarrow> Err e
     | Ok wait_ms \<Rightarrow>
         if wait_ms > 60000 then invalid_input ''--wait cannot exceed 60000 milliseconds''
         else Ok (parsed\<lparr>sa_wait_ms := wait_ms\<rparr>))"

definition scan_retries_option :: "string list \<Rightarrow> scan_arguments \<Rightarrow> scan_arguments result" where
  "scan_retries_option rest parsed =
    (case parse_option_value parse_u32 rest ''--retries'' of
       Err e \<Rightarrow> Err e
     | Ok retries \<Rightarrow>
         if \<not> (1 \<le> retries \<and> retries \<le> 10) then invalid_input ''--retries must be between 1 and 10''
         else Ok (parsed\<lparr>sa_retries := retries\<rparr>))"

definition scan_exclude_option :: "string list \<Rightarrow> scan_arguments \<Rightarrow> scan_arguments result" where
  "scan_exclude_option rest parsed =
    (case rest of
       [] \<Rightarrow> invalid_input ''--exclude requires an IPv4 address''
     | v # _ \<Rightarrow>
         (case parse_ipv4 v of
            None \<Rightarrow> invalid_input (''invalid excluded IPv4 address: '' @ v)
          | Some address \<Rightarrow> Ok (parsed\<lparr>sa_excluded := insert address (sa_excluded parsed)\<rparr>)))"

function scan_arguments_from :: "string list \<Rightarrow> scan_arguments \<Rightarrow> scan_arguments result" where
  "scan_arguments_from arguments parsed =
    (case arguments of
       [] \<Rightarrow> Ok parsed
     | argument # rest \<Rightarrow>
         if argument = ''--filter'' then
           (case scan_filter_option rest parsed of Err e \<Rightarrow> Err e | Ok p \<Rightarrow> scan_arguments_from (drop 1 rest) p)
         else if argument = ''--wait'' then
           (case scan_wait_option rest parsed of Err e \<Rightarrow> Err e | Ok p \<Rightarrow> scan_arguments_from (drop 1 rest) p)
         else if argument = ''--retries'' then
           (case scan_retries_option rest parsed of Err e \<Rightarrow> Err e | Ok p \<Rightarrow> scan_arguments_from (drop 1 rest) p)
         else if argument = ''--exclude'' then
           (case scan_exclude_option rest parsed of Err e \<Rightarrow> Err e | Ok p \<Rightarrow> scan_arguments_from (drop 1 rest) p)
         else if argument = ''--no-resolve'' then
           scan_arguments_from rest (parsed\<lparr>sa_resolve_names := False\<rparr>)
         else if starts_with (CHR ''-'') argument then invalid_input (''unknown scan option: '' @ argument)
         else if sa_selection parsed \<noteq> None then invalid_input ''scan accepts only one interface or CIDR''
         else scan_arguments_from rest (parsed\<lparr>sa_selection := Some argument\<rparr>))"
  by pat_completeness auto
termination
  by (relation "measure (length \<circ> fst)") auto

declare scan_arguments_from.simps [simp del]

definition parse_scan_arguments :: "string list \<Rightarrow> scan_arguments result" where
  "parse_scan_arguments arguments = scan_arguments_from arguments scan_defaults"

section \<open>probe\<close>

datatype tcp_probe_status = Connected | ConnectionRefused | Failed

record probe_arguments =
  pa_host :: string
  pa_ports :: "u16 list"
  pa_filter :: "tcp_probe_status option"
  pa_timeout_ms :: u64

definition MAX_PROBE_PORTS :: nat where
  "MAX_PROBE_PORTS = 4096"

definition too_many_probe_ports :: "'a result" where
  "too_many_probe_ports = invalid_input ''probe accepts at most 4096 distinct ports''"

definition parse_probe_filter :: "string \<Rightarrow> tcp_probe_status result" where
  "parse_probe_filter v =
    (if v = ''open'' then Ok Connected
     else if v = ''closed'' then Ok ConnectionRefused
     else if v = ''failed'' then Ok Failed
     else invalid_input ''--filter must be open, closed, or failed'')"

definition parse_probe_port :: "string \<Rightarrow> u16 result" where
  "parse_probe_port v =
    (case parse_u16 v of
       None \<Rightarrow> invalid_input (''invalid TCP port: '' @ v)
     | Some port \<Rightarrow> if port = 0 then invalid_input ''TCP port must be between 1 and 65535'' else Ok port)"

text \<open>The \<open>BTreeSet\<close> of ports is the ascending list of its elements.\<close>

fun insert_range :: "u16 list \<Rightarrow> u16 list \<Rightarrow> u16 list result" where
  "insert_range [] ports = Ok ports"
| "insert_range (port # rest) ports =
    (let ports = insort_insert port ports
     in if length ports > MAX_PROBE_PORTS then too_many_probe_ports else insert_range rest ports)"

definition port_range :: "u16 \<Rightarrow> u16 \<Rightarrow> u16 list" where
  "port_range lo hi = map of_nat [unat lo ..< Suc (unat hi)]"

definition insert_port_item :: "string \<Rightarrow> u16 list \<Rightarrow> u16 list result" where
  "insert_port_item item ports =
    (case split_once_char (CHR ''-'') item of
       Some (a, b) \<Rightarrow>
         (case parse_probe_port a of
            Err e \<Rightarrow> Err e
          | Ok lo \<Rightarrow>
              (case parse_probe_port b of
                 Err e \<Rightarrow> Err e
               | Ok hi \<Rightarrow>
                   if lo > hi then invalid_input (''invalid descending port range: '' @ item)
                   else insert_range (port_range lo hi) ports))
     | None \<Rightarrow>
         (case parse_probe_port item of
            Err e \<Rightarrow> Err e
          | Ok port \<Rightarrow> Ok (insort_insert port ports)))"

fun insert_port_items :: "string list \<Rightarrow> u16 list \<Rightarrow> u16 list result" where
  "insert_port_items [] ports = Ok ports"
| "insert_port_items (item # items) ports =
    (let item = trim item
     in if item = [] then invalid_input ''probe port list contains an empty item''
        else
          (case insert_port_item item ports of
             Err e \<Rightarrow> Err e
           | Ok ports \<Rightarrow>
               if length ports > MAX_PROBE_PORTS then too_many_probe_ports
               else insert_port_items items ports))"

definition parse_probe_ports :: "string \<Rightarrow> u16 list result" where
  "parse_probe_ports v = insert_port_items (split_char (CHR '','') v) []"

record probe_state =
  ps_host :: "string option"
  ps_ports :: "u16 list option"
  ps_filter :: "tcp_probe_status option"
  ps_timeout_ms :: u64

function probe_arguments_from :: "string list \<Rightarrow> probe_state \<Rightarrow> probe_state result" where
  "probe_arguments_from arguments s =
    (case arguments of
       [] \<Rightarrow> Ok s
     | argument # rest \<Rightarrow>
         if argument = ''--filter'' then
           (case rest of
              [] \<Rightarrow> invalid_input ''--filter requires open, closed, or failed''
            | v # _ \<Rightarrow>
                (case parse_probe_filter v of
                   Err e \<Rightarrow> Err e
                 | Ok choice \<Rightarrow>
                     if ps_filter s \<noteq> None then invalid_input ''probe filter was specified more than once''
                     else probe_arguments_from (drop 1 rest) (s\<lparr>ps_filter := Some choice\<rparr>)))
         else if argument = ''--timeout'' then
           (case parse_option_value parse_u64 rest ''--timeout'' of
              Err e \<Rightarrow> Err e
            | Ok timeout_ms \<Rightarrow>
                if \<not> (100 \<le> timeout_ms \<and> timeout_ms \<le> 60000)
                then invalid_input ''--timeout must be between 100 and 60000 milliseconds''
                else probe_arguments_from (drop 1 rest) (s\<lparr>ps_timeout_ms := timeout_ms\<rparr>))
         else if starts_with (CHR ''-'') argument then invalid_input (''unknown probe option: '' @ argument)
         else if ps_host s = None then probe_arguments_from rest (s\<lparr>ps_host := Some argument\<rparr>)
         else if ps_ports s = None then
           (case parse_probe_ports argument of
              Err e \<Rightarrow> Err e
            | Ok ports \<Rightarrow> probe_arguments_from rest (s\<lparr>ps_ports := Some ports\<rparr>))
         else invalid_input (''unexpected probe argument: '' @ argument))"
  by pat_completeness auto
termination
  by (relation "measure (length \<circ> fst)") auto

declare probe_arguments_from.simps [simp del]

definition parse_probe_arguments :: "string list \<Rightarrow> probe_arguments result" where
  "parse_probe_arguments arguments =
    (case probe_arguments_from arguments
        \<lparr>ps_host = None, ps_ports = None, ps_filter = None, ps_timeout_ms = 3000\<rparr> of
       Err e \<Rightarrow> Err e
     | Ok s \<Rightarrow>
         (case ps_host s of
            None \<Rightarrow> invalid_input ''probe requires a host''
          | Some host \<Rightarrow>
              Ok \<lparr>pa_host = host, pa_ports = unwrap_or [443] (ps_ports s), pa_filter = ps_filter s,
                  pa_timeout_ms = ps_timeout_ms s\<rparr>))"

section \<open>traffic\<close>

record traffic_arguments =
  ta_selection :: "string option"
  ta_interval_ms :: u64
  ta_watch :: bool

function traffic_arguments_from :: "string list \<Rightarrow> traffic_arguments \<Rightarrow> traffic_arguments result" where
  "traffic_arguments_from arguments parsed =
    (case arguments of
       [] \<Rightarrow> Ok parsed
     | argument # rest \<Rightarrow>
         if argument = ''--watch'' then traffic_arguments_from rest (parsed\<lparr>ta_watch := True\<rparr>)
         else if argument = ''--interval'' then
           (case parse_option_value parse_u64 rest ''--interval'' of
              Err e \<Rightarrow> Err e
            | Ok interval_ms \<Rightarrow>
                if \<not> (100 \<le> interval_ms \<and> interval_ms \<le> 60000)
                then invalid_input ''--interval must be between 100 and 60000 milliseconds''
                else traffic_arguments_from (drop 1 rest) (parsed\<lparr>ta_interval_ms := interval_ms\<rparr>))
         else if starts_with (CHR ''-'') argument then invalid_input (''unknown traffic option: '' @ argument)
         else if ta_selection parsed \<noteq> None then invalid_input ''traffic accepts only one interface''
         else traffic_arguments_from rest (parsed\<lparr>ta_selection := Some argument\<rparr>))"
  by pat_completeness auto
termination
  by (relation "measure (length \<circ> fst)") auto

declare traffic_arguments_from.simps [simp del]

definition parse_traffic_arguments :: "string list \<Rightarrow> traffic_arguments result" where
  "parse_traffic_arguments arguments =
    traffic_arguments_from arguments \<lparr>ta_selection = None, ta_interval_ms = 1000, ta_watch = False\<rparr>"

section \<open>watch\<close>

datatype watch_filter = WatchLink | WatchAddress | WatchRoute | WatchNeighbor

fun watch_matches :: "watch_filter \<Rightarrow> network_event \<Rightarrow> bool" where
  "watch_matches WatchLink (LinkEvent _ _ _ _) = True"
| "watch_matches WatchAddress (AddressEvent _ _ _ _) = True"
| "watch_matches WatchRoute (RouteEvent _ _) = True"
| "watch_matches WatchNeighbor (NeighborEvent _ _) = True"
| "watch_matches _ _ = False"

definition parse_watch_arguments :: "string list \<Rightarrow> watch_filter option result" where
  "parse_watch_arguments arguments =
    (case arguments of
       [] \<Rightarrow> Ok None
     | option # rest \<Rightarrow>
         (case rest of
            [v] \<Rightarrow>
              if option = ''--filter'' then
                (if v = ''link'' then Ok (Some WatchLink)
                 else if v = ''address'' then Ok (Some WatchAddress)
                 else if v = ''route'' then Ok (Some WatchRoute)
                 else if v = ''neighbor'' then Ok (Some WatchNeighbor)
                 else invalid_input ''--filter must be link, address, route, or neighbor'')
              else if starts_with (CHR ''-'') option then invalid_input (''unknown watch option: '' @ option)
              else invalid_input ''watch accepts only --filter link|address|route|neighbor''
          | [] \<Rightarrow>
              if option = ''--filter''
              then invalid_input ''--filter requires link, address, route, or neighbor''
              else if starts_with (CHR ''-'') option then invalid_input (''unknown watch option: '' @ option)
              else invalid_input ''watch accepts only --filter link|address|route|neighbor''
          | _ \<Rightarrow>
              if starts_with (CHR ''-'') option then invalid_input (''unknown watch option: '' @ option)
              else invalid_input ''watch accepts only --filter link|address|route|neighbor''))"

end
