(* ===== verification/Cli_Arguments_Spec.thy ===== *)
theory Cli_Arguments_Spec
  imports Cli_Arguments
begin

text \<open>
  What the argument parsers promise: options mean what they say in any order, the limits of their
  values hold whatever the command line was, and a list of ports is the set it denotes.
\<close>

section \<open>Options of scan\<close>

datatype scan_option =
  FilterBy scan_filter | Wait u64 | Retries u32 | Exclude ipv4_addr | NoResolve | Select string

fun filter_word :: "scan_filter \<Rightarrow> string" where
  "filter_word Changed = ''changed''"
| "filter_word Unchanged = ''unchanged''"

fun option_words :: "scan_option \<Rightarrow> string list" where
  "option_words (FilterBy f) = [''--filter'', filter_word f]"
| "option_words (Wait ms) = [''--wait'', decimal (unat ms)]"
| "option_words (Retries n) = [''--retries'', decimal (unat n)]"
| "option_words (Exclude a) = [''--exclude'', show_ipv4 a]"
| "option_words NoResolve = [''--no-resolve'']"
| "option_words (Select s) = [s]"

fun option_ok :: "scan_option \<Rightarrow> bool" where
  "option_ok (Wait ms) = (ms \<le> 60000)"
| "option_ok (Retries n) = (1 \<le> n \<and> n \<le> 10)"
| "option_ok (Select s) = (\<not> starts_with (CHR ''-'') s)"
| "option_ok _ = True"

text \<open>The values that a command line gives for each option, in order.\<close>

definition filters_of :: "scan_option list \<Rightarrow> scan_filter list" where
  "filters_of opts = filter_map (\<lambda>x. case x of FilterBy f \<Rightarrow> Some f | _ \<Rightarrow> None) opts"

definition waits_of :: "scan_option list \<Rightarrow> u64 list" where
  "waits_of opts = filter_map (\<lambda>x. case x of Wait ms \<Rightarrow> Some ms | _ \<Rightarrow> None) opts"

definition retries_of :: "scan_option list \<Rightarrow> u32 list" where
  "retries_of opts = filter_map (\<lambda>x. case x of Retries n \<Rightarrow> Some n | _ \<Rightarrow> None) opts"

definition excludes_of :: "scan_option list \<Rightarrow> ipv4_addr list" where
  "excludes_of opts = filter_map (\<lambda>x. case x of Exclude a \<Rightarrow> Some a | _ \<Rightarrow> None) opts"

definition selections_of :: "scan_option list \<Rightarrow> string list" where
  "selections_of opts = filter_map (\<lambda>x. case x of Select s \<Rightarrow> Some s | _ \<Rightarrow> None) opts"

lemmas option_values = filters_of_def waits_of_def retries_of_def excludes_of_def selections_of_def

text \<open>What the command line means, starting from given values.\<close>

definition options_meaning :: "scan_option list \<Rightarrow> scan_arguments \<Rightarrow> scan_arguments" where
  "options_meaning opts p =
    \<lparr>sa_selection = option_or (sa_selection p) (first_opt (selections_of opts)),
     sa_wait_ms = last (sa_wait_ms p # waits_of opts),
     sa_retries = last (sa_retries p # retries_of opts),
     sa_resolve_names = (sa_resolve_names p \<and> NoResolve \<notin> set opts),
     sa_excluded = sa_excluded p \<union> set (excludes_of opts),
     sa_filter = option_or (sa_filter p) (first_opt (filters_of opts))\<rparr>"

lemma starts_with_simps [simp]:
  "starts_with c [] = False" "starts_with c (d # s) = (d = c)"
  by (simp_all add: starts_with_def)

lemma scan_step:
  assumes "option_ok opt"
    and "sa_selection p \<noteq> None \<Longrightarrow> selections_of [opt] = []"
    and "sa_filter p \<noteq> None \<Longrightarrow> filters_of [opt] = []"
  shows "scan_arguments_from (option_words opt @ rest) p = scan_arguments_from rest (options_meaning [opt] p)"
proof (cases opt)
  case (FilterBy f)
  then have "sa_filter p = None"
    using assms(3) by (cases "sa_filter p") (simp_all add: option_values)
  then show ?thesis
    using FilterBy
    by (cases p; cases f; subst scan_arguments_from.simps)
      (simp_all add: scan_filter_option_def parse_scan_filter_def options_meaning_def option_values)
next
  case (Select s)
  with assms(1) have "s \<notin> {''--filter'', ''--wait'', ''--retries'', ''--exclude'', ''--no-resolve''}"
    by auto
  with Select assms show ?thesis
    by (cases p; subst scan_arguments_from.simps) (auto simp: options_meaning_def option_values)
next
  case (Wait ms)
  with assms(1) have "\<not> 60000 < ms"
    by simp
  with Wait show ?thesis
    by (cases p; subst scan_arguments_from.simps)
      (simp add: scan_wait_option_def parse_option_value_def options_meaning_def option_values)
next
  case (Retries n)
  with assms(1) show ?thesis
    by (cases p; subst scan_arguments_from.simps)
      (simp add: scan_retries_option_def parse_option_value_def options_meaning_def option_values)
next
  case (Exclude a)
  then show ?thesis
    by (cases p; subst scan_arguments_from.simps)
      (simp add: scan_exclude_option_def options_meaning_def option_values)
next
  case NoResolve
  then show ?thesis
    by (cases p; subst scan_arguments_from.simps) (simp add: options_meaning_def option_values)
qed

lemma scan_duplicate:
  assumes "option_ok opt"
    and "sa_selection p \<noteq> None \<and> selections_of [opt] \<noteq> [] \<or> sa_filter p \<noteq> None \<and> filters_of [opt] \<noteq> []"
  shows "\<exists>message. scan_arguments_from (option_words opt @ rest) p = Err (Custom InvalidInput message)"
proof (cases opt)
  case (FilterBy f)
  with assms show ?thesis
    by (cases f; subst scan_arguments_from.simps)
      (simp_all add: scan_filter_option_def parse_scan_filter_def option_values invalid_input_def)
next
  case (Select s)
  with assms(1) have "s \<notin> {''--filter'', ''--wait'', ''--retries'', ''--exclude'', ''--no-resolve''}"
    by auto
  with Select assms show ?thesis
    by (subst scan_arguments_from.simps) (auto simp: option_values invalid_input_def)
qed (use assms(2) in \<open>simp_all add: option_values\<close>)

lemma first_opt_append: "first_opt (xs @ ys) = option_or (first_opt xs) (first_opt ys)"
  by (cases xs) simp_all

lemma option_or_assoc: "option_or (option_or a b) c = option_or a (option_or b c)"
  by (cases a) simp_all

lemma values_Cons:
  "filters_of (opt # opts) = filters_of [opt] @ filters_of opts"
  "waits_of (opt # opts) = waits_of [opt] @ waits_of opts"
  "retries_of (opt # opts) = retries_of [opt] @ retries_of opts"
  "excludes_of (opt # opts) = excludes_of [opt] @ excludes_of opts"
  "selections_of (opt # opts) = selections_of [opt] @ selections_of opts"
  by (simp_all add: option_values split: option.split)

lemma last_Cons_append: "last (x # xs @ ys) = last (last (x # xs) # ys)"
  by (cases xs rule: rev_cases) simp_all

lemma options_meaning_Cons: "options_meaning (opt # opts) p = options_meaning opts (options_meaning [opt] p)"
  unfolding options_meaning_def values_Cons [of opt opts] first_opt_append last_Cons_append
  by (auto simp: option_or_assoc)

definition at_most_once :: "scan_option list \<Rightarrow> scan_arguments \<Rightarrow> bool" where
  "at_most_once opts p \<longleftrightarrow>
    length (selections_of opts) + (if sa_selection p = None then 0 else 1) \<le> 1
    \<and> length (filters_of opts) + (if sa_filter p = None then 0 else 1) \<le> 1"

lemma at_most_once_Cons:
  assumes "\<not> (sa_selection p \<noteq> None \<and> selections_of [opt] \<noteq> [] \<or> sa_filter p \<noteq> None \<and> filters_of [opt] \<noteq> [])"
  shows "at_most_once (opt # opts) p \<longleftrightarrow> at_most_once opts (options_meaning [opt] p)"
  using assms unfolding at_most_once_def values_Cons [of opt opts]
  by (cases opt; cases "sa_selection p"; cases "sa_filter p") (simp_all add: options_meaning_def option_values)

lemma scan_options:
  assumes "list_all option_ok opts"
  shows "if at_most_once opts p
    then scan_arguments_from (concat (map option_words opts)) p = Ok (options_meaning opts p)
    else \<exists>message. scan_arguments_from (concat (map option_words opts)) p = Err (Custom InvalidInput message)"
  using assms
proof (induction opts arbitrary: p)
  case Nil
  then show ?case
    by (cases p; subst scan_arguments_from.simps)
      (simp add: at_most_once_def options_meaning_def option_values split: option.split)
next
  case (Cons opt opts)
  show ?case
  proof (cases "sa_selection p \<noteq> None \<and> selections_of [opt] \<noteq> [] \<or> sa_filter p \<noteq> None \<and> filters_of [opt] \<noteq> []")
    case True
    then have "\<not> at_most_once (opt # opts) p"
      unfolding at_most_once_def values_Cons [of opt opts] by (auto simp: neq_Nil_conv)
    with scan_duplicate [OF _ True] Cons.prems show ?thesis
      by simp
  next
    case False
    then have "scan_arguments_from (concat (map option_words (opt # opts))) p =
        scan_arguments_from (concat (map option_words opts)) (options_meaning [opt] p)"
      using Cons.prems scan_step [of opt p "concat (map option_words opts)"] by auto
    with Cons.IH [of "options_meaning [opt] p"] Cons.prems at_most_once_Cons [OF False] show ?thesis
      unfolding options_meaning_Cons [of opt opts] by simp
  qed
qed

text \<open>C22: The options of \<open>scan\<close> mean what they say in any order and mixture: exclusions
  accumulate, the last wait and the last retry count win, one filter and one network are
  accepted, and a second one is refused as invalid input rather than ignored.\<close>

theorem scan_arguments_exact:
  assumes "list_all option_ok opts"
  shows "if length (selections_of opts) \<le> 1 \<and> length (filters_of opts) \<le> 1
    then parse_scan_arguments (concat (map option_words opts)) =
      Ok \<lparr>sa_selection = first_opt (selections_of opts),
          sa_wait_ms = last (1200 # waits_of opts), sa_retries = last (1 # retries_of opts),
          sa_resolve_names = (NoResolve \<notin> set opts),
          sa_excluded = set (excludes_of opts), sa_filter = first_opt (filters_of opts)\<rparr>
    else \<exists>message. parse_scan_arguments (concat (map option_words opts)) = Err (Custom InvalidInput message)"
proof -
  have "at_most_once opts scan_defaults \<longleftrightarrow> length (selections_of opts) \<le> 1 \<and> length (filters_of opts) \<le> 1"
    by (simp add: at_most_once_def scan_defaults_def)
  moreover have "options_meaning opts scan_defaults =
      \<lparr>sa_selection = first_opt (selections_of opts),
       sa_wait_ms = last (1200 # waits_of opts), sa_retries = last (1 # retries_of opts),
       sa_resolve_names = (NoResolve \<notin> set opts),
       sa_excluded = set (excludes_of opts), sa_filter = first_opt (filters_of opts)\<rparr>"
    by (simp add: options_meaning_def scan_defaults_def del: last.simps)
  ultimately show ?thesis
    using scan_options [OF assms, of scan_defaults] by (simp only: parse_scan_arguments_def)
qed

theorem scan_arguments_exact_witness:
  "parse_scan_arguments [''--wait'', ''500'', ''eth0'', ''--exclude'', ''10.0.0.1'', ''--wait'', ''800''] =
    Ok \<lparr>sa_selection = Some ''eth0'', sa_wait_ms = 800, sa_retries = 1, sa_resolve_names = True,
        sa_excluded = {0x0A000001}, sa_filter = None\<rparr>
   \<and> (\<exists>message. parse_scan_arguments [''eth0'', ''eth1''] = Err (Custom InvalidInput message))"
proof -
  let ?opts = "[Wait 500, Select ''eth0'', Exclude 0x0A000001, Wait 800]"
  have "concat (map option_words ?opts) =
      [''--wait'', ''500'', ''eth0'', ''--exclude'', ''10.0.0.1'', ''--wait'', ''800'']"
    by code_simp
  then show ?thesis
    using scan_arguments_exact [of ?opts] scan_arguments_exact [of "[Select ''eth0'', Select ''eth1'']"]
    by (simp add: option_values)
qed

section \<open>Lists of ports\<close>

datatype port_item = Port u16 | Range u16 u16

fun item_text :: "port_item \<Rightarrow> string" where
  "item_text (Port p) = decimal (unat p)"
| "item_text (Range a b) = decimal (unat a) @ ''-'' @ decimal (unat b)"

fun item_ports :: "port_item \<Rightarrow> u16 set" where
  "item_ports (Port p) = {p}"
| "item_ports (Range a b) = {a..b}"

fun item_ok :: "port_item \<Rightarrow> bool" where
  "item_ok (Port p) = (p \<noteq> 0)"
| "item_ok (Range a b) = (a \<noteq> 0 \<and> a \<le> b)"

definition all_ports :: "port_item list \<Rightarrow> u16 set" where
  "all_ports items = (\<Union>item \<in> set items. item_ports item)"

text \<open>The items may be padded with blanks on both sides.\<close>

definition padded_text :: "nat \<times> port_item \<times> nat \<Rightarrow> string" where
  "padded_text x = (case x of (m, item, n) \<Rightarrow> replicate m blank @ item_text item @ replicate n blank)"

text \<open>The ascending list of a set of ports.\<close>

definition port_list :: "u16 set \<Rightarrow> u16 list" where
  "port_list A = sorted_list_of_set A"

lemma length_port_list [simp]: "length (port_list A) = card A"
  by (simp add: port_list_def)

lemma port_list_empty [simp]: "port_list {} = []"
  by (simp add: port_list_def)

lemma insort_insert_ports [simp]: "insort_insert x (port_list A) = port_list (insert x A)"
  by (cases "x \<in> A")
    (simp_all add: port_list_def insort_insert_key_def insert_absorb sorted_list_of_set.fold_insort_key.insert)

lemma insert_range_ports:
  assumes "card A \<le> MAX_PROBE_PORTS"
  shows "insert_range qs (port_list A) =
    (if card (A \<union> set qs) \<le> MAX_PROBE_PORTS then Ok (port_list (A \<union> set qs)) else too_many_probe_ports)"
  using assms
proof (induction qs arbitrary: A)
  case (Cons q qs)
  have "card (insert q A) \<le> card (A \<union> set (q # qs))"
    by (rule card_mono) auto
  with Cons.IH [of "insert q A"] show ?case
    by (auto simp: Let_def)
qed simp

lemma set_port_range: "set (port_range a b) = {a..b}"
proof
  have range: "set (port_range a b) = of_nat ` {unat a..unat b}"
    by (simp add: port_range_def atLeastLessThanSuc_atLeastAtMost del: upt_Suc)
  show "{a..b} \<subseteq> set (port_range a b)"
  proof
    fix x
    assume "x \<in> {a..b}"
    then have "unat x \<in> {unat a..unat b}"
      by (simp add: word_le_nat_alt)
    moreover have "x = of_nat (unat x)"
      by simp
    ultimately show "x \<in> set (port_range a b)"
      unfolding range by (rule rev_image_eqI)
  qed
  show "set (port_range a b) \<subseteq> {a..b}"
  proof
    fix x
    assume "x \<in> set (port_range a b)"
    then obtain n where n: "x = of_nat n" "unat a \<le> n" "n \<le> unat b"
      unfolding range by auto
    have "n < 65536"
      using n(3) unat_bounds(2) [of b] by linarith
    then have "unat x = n"
      by (simp add: n(1) unat_of_nat)
    with n show "x \<in> {a..b}"
      by (simp add: word_le_nat_alt)
  qed
qed

lemma no_dash_decimal: "CHR ''-'' \<notin> set (decimal n)"
  using decimal_code [of "CHR ''-''" n] by auto

lemma parse_probe_port_decimal: "p \<noteq> 0 \<Longrightarrow> parse_probe_port (decimal (unat p)) = Ok p"
  by (simp add: parse_probe_port_def)

lemma insert_port_item_text:
  assumes "item_ok item" and "card A \<le> MAX_PROBE_PORTS"
  shows "insert_port_item (item_text item) (port_list A) =
    (case item of
       Port p \<Rightarrow> Ok (port_list (insert p A))
     | Range a b \<Rightarrow>
         if card (A \<union> {a..b}) \<le> MAX_PROBE_PORTS then Ok (port_list (A \<union> {a..b})) else too_many_probe_ports)"
proof (cases item)
  case (Port p)
  have "split_once_char (CHR ''-'') (decimal (unat p)) = None"
    using no_dash_decimal by (simp add: split_once_char_None)
  with Port assms(1) show ?thesis
    by (simp add: insert_port_item_def parse_probe_port_decimal)
next
  case (Range a b)
  have "split_once_char (CHR ''-'') (decimal (unat a) @ ''-'' @ decimal (unat b)) =
      Some (decimal (unat a), decimal (unat b))"
    using no_dash_decimal split_once_char_append [of "CHR ''-''" "decimal (unat a)" "decimal (unat b)"] by simp
  moreover have "b \<noteq> 0" "\<not> b < a"
    using Range assms(1) by auto
  ultimately show ?thesis
    using Range assms
    by (simp add: insert_port_item_def parse_probe_port_decimal insert_range_ports set_port_range)
qed

lemma item_text_trimmed: "trimmed (item_text item)"
proof (cases item)
  case (Port p)
  then show ?thesis
    by (simp add: trimmed_decimal)
next
  case (Range a b)
  have parts: "trimmed (decimal (unat a))" "trimmed (decimal (unat b))"
    by (rule trimmed_decimal)+
  then show ?thesis
    unfolding Range item_text.simps trimmed_def by (auto simp: blank_def)
qed

definition item_of :: "nat \<times> port_item \<times> nat \<Rightarrow> port_item" where
  "item_of x = fst (snd x)"

lemma trim_padded_text: "trim (padded_text (m, item, n)) = item_text item"
  unfolding padded_text_def prod.case
  by (rule trim_padded [OF item_text_trimmed]) (simp_all add: list_all_iff ascii_blank_def blank_def)

lemma item_text_not_Nil: "item_text item \<noteq> []"
  using item_text_trimmed [of item] by (simp add: trimmed_def)

lemma insert_port_items_text:
  assumes "list_all (\<lambda>x. item_ok (item_of x)) xs" and "card A \<le> MAX_PROBE_PORTS"
  shows "insert_port_items (map padded_text xs) (port_list A) =
    (if card (A \<union> all_ports (map item_of xs)) \<le> MAX_PROBE_PORTS
     then Ok (port_list (A \<union> all_ports (map item_of xs))) else too_many_probe_ports)"
  using assms
proof (induction xs arbitrary: A)
  case Nil
  then show ?case
    by (simp add: all_ports_def)
next
  case (Cons x xs)
  obtain m item n where x: "x = (m, item, n)"
    by (cases x)
  have ok: "item_ok item"
    using Cons.prems(1) by (simp add: x item_of_def)
  let ?B = "A \<union> item_ports item"
  have union: "A \<union> all_ports (map item_of (x # xs)) = ?B \<union> all_ports (map item_of xs)"
    by (auto simp: all_ports_def x item_of_def)
  have mono: "card ?B \<le> card (?B \<union> all_ports (map item_of xs))"
    by (rule card_mono) auto
  have insert: "(case insert_port_item (item_text item) (port_list A) of Err e \<Rightarrow> Err e
       | Ok ports \<Rightarrow> if length ports > MAX_PROBE_PORTS then too_many_probe_ports
           else insert_port_items (map padded_text xs) ports) =
     (if card ?B \<le> MAX_PROBE_PORTS then insert_port_items (map padded_text xs) (port_list ?B)
      else too_many_probe_ports)"
    using insert_port_item_text [OF ok Cons.prems(2)]
    by (cases item) (auto simp: too_many_probe_ports_def invalid_input_def)
  have "insert_port_items (map padded_text (x # xs)) (port_list A) =
     (if card ?B \<le> MAX_PROBE_PORTS then insert_port_items (map padded_text xs) (port_list ?B)
      else too_many_probe_ports)"
    by (simp add: x trim_padded_text item_text_not_Nil Let_def insert del: trim_def)
  then show ?case
    unfolding union using mono Cons.IH [of ?B] Cons.prems(1) by auto
qed

lemma no_comma_padded: "CHR '','' \<notin> set (padded_text x)"
proof -
  have "CHR '','' \<notin> set (decimal n)" for n
    using decimal_code [of "CHR '',''" n] by auto
  then have "CHR '','' \<notin> set (item_text item)" for item
    by (cases item) auto
  then show ?thesis
    by (cases x) (auto simp: padded_text_def blank_def)
qed

text \<open>C23: A list of ports and ranges means the set of ports it denotes: overlapping and repeated items
  count once, the order does not matter, and the limit of 4096 applies to the distinct ports.\<close>

theorem probe_ports_exact:
  assumes "xs \<noteq> []" and "list_all (\<lambda>x. item_ok (item_of x)) xs"
  shows "parse_probe_ports (join '','' (map padded_text xs)) =
    (if card (all_ports (map item_of xs)) \<le> 4096
     then Ok (sorted_list_of_set (all_ports (map item_of xs)))
     else invalid_input ''probe accepts at most 4096 distinct ports'')"
proof -
  have "split_char (CHR '','') (join '','' (map padded_text xs)) = map padded_text xs"
    using assms(1) no_comma_padded by (intro split_char_join) auto
  then show ?thesis
    using insert_port_items_text [OF assms(2), of "{}"]
    by (simp add: parse_probe_ports_def MAX_PROBE_PORTS_def port_list_def too_many_probe_ports_def)
qed

theorem probe_ports_exact_witness:
  "parse_probe_ports ''443, 80-82 ,81'' = Ok [80, 81, 82, 443]"
proof -
  let ?xs = "[(0, Port 443, 0), (1, Range 80 82, 1), (0, Port 81, 0)]"
  have "join '','' (map padded_text ?xs) = ''443, 80-82 ,81''"
    by code_simp
  moreover have "all_ports (map item_of ?xs) = set [80, 81, 82, 443]"
  proof -
    have "{80..82 :: u16} = set [80, 81, 82]"
      unfolding set_port_range [symmetric] by (rule arg_cong [of _ _ set]) code_simp
    then show ?thesis
      by (simp add: all_ports_def item_of_def insert_commute)
  qed
  moreover have "sorted_list_of_set (set [80, 81, 82, 443 :: u16]) = [80, 81, 82, 443]"
    by (subst sorted_list_of_set_sort_remdups) simp
  moreover have "card (set [80, 81, 82, 443 :: u16]) \<le> 4096"
    by simp
  ultimately show ?thesis
    using probe_ports_exact [of ?xs] by (simp add: item_of_def del: set_simps)
qed

section \<open>Limits\<close>

definition ports_ok :: "u16 list \<Rightarrow> bool" where
  "ports_ok ports \<longleftrightarrow> sorted ports \<and> distinct ports \<and> 0 \<notin> set ports \<and> length ports \<le> MAX_PROBE_PORTS"

lemma parse_probe_port_not_zero: "parse_probe_port v = Ok p \<Longrightarrow> p \<noteq> 0"
  by (auto simp: parse_probe_port_def invalid_input_def split: option.splits if_splits)

lemma insort_insert_ok:
  "sorted ports \<and> distinct ports \<and> 0 \<notin> set ports \<Longrightarrow> p \<noteq> 0 \<Longrightarrow>
    sorted (insort_insert p ports) \<and> distinct (insort_insert p ports) \<and> 0 \<notin> set (insort_insert p ports)
    \<and> p \<in> set (insort_insert p ports)"
  by (simp add: sorted_insort_insert distinct_insort_insert set_insort_insert)

lemma insert_range_ok:
  "insert_range qs ports = Ok ports' \<Longrightarrow> ports_ok ports \<Longrightarrow> 0 \<notin> set qs \<Longrightarrow>
    ports_ok ports' \<and> set ports \<union> set qs \<subseteq> set ports'"
proof (induction qs arbitrary: ports)
  case (Cons q qs)
  then have "insert_range qs (insort_insert q ports) = Ok ports'"
      "length (insort_insert q ports) \<le> MAX_PROBE_PORTS"
    by (auto simp: Let_def too_many_probe_ports_def invalid_input_def split: if_splits)
  moreover from this have "ports_ok (insort_insert q ports)"
    using Cons.prems insort_insert_ok [of ports q] by (simp add: ports_ok_def)
  ultimately show ?case
    using Cons.IH [of "insort_insert q ports"] Cons.prems by (simp add: set_insort_insert)
qed simp

lemma insert_port_item_ok:
  assumes "insert_port_item item ports = Ok ports'" and "ports_ok ports" and "length ports' \<le> MAX_PROBE_PORTS"
  shows "ports_ok ports' \<and> ports' \<noteq> []"
proof (cases "split_once_char (CHR ''-'') item")
  case None
  with assms(1) obtain p where p: "parse_probe_port item = Ok p" "ports' = insort_insert p ports"
    by (auto simp: insert_port_item_def split: result.splits)
  with assms parse_probe_port_not_zero [OF p(1)] insort_insert_ok [of ports p] show ?thesis
    by (auto simp: ports_ok_def)
next
  case (Some ab)
  with assms(1) obtain lo hi where r: "parse_probe_port (fst ab) = Ok lo" "\<not> hi < lo"
      "insert_range (port_range lo hi) ports = Ok ports'"
    by (auto simp: insert_port_item_def invalid_input_def split: result.splits prod.splits if_splits)
  have "lo \<noteq> 0"
    by (rule parse_probe_port_not_zero [OF r(1)])
  then have "0 \<notin> set (port_range lo hi)"
    by (simp add: set_port_range word_le_nat_alt unat_eq_zero)
  from insert_range_ok [OF r(3) assms(2) this] r(2) show ?thesis
    by (auto simp: set_port_range)
qed

lemma insert_port_items_ok:
  "insert_port_items items ports = Ok ports' \<Longrightarrow> ports_ok ports \<Longrightarrow>
    ports_ok ports' \<and> (items \<noteq> [] \<or> ports \<noteq> [] \<longrightarrow> ports' \<noteq> [])"
proof (induction items arbitrary: ports)
  case (Cons item items)
  then obtain q where q: "insert_port_item (trim item) ports = Ok q" "length q \<le> MAX_PROBE_PORTS"
      "insert_port_items items q = Ok ports'"
    by (auto simp: Let_def invalid_input_def too_many_probe_ports_def split: if_splits result.splits)
  then show ?case
    using insert_port_item_ok [OF q(1) Cons.prems(2) q(2)] Cons.IH [OF q(3)] by simp
qed simp

lemma parse_probe_ports_ok: "parse_probe_ports v = Ok ports \<Longrightarrow> ports_ok ports \<and> ports \<noteq> []"
  using insert_port_items_ok [of "split_char (CHR '','') v" "[]" ports]
  by (auto simp: parse_probe_ports_def ports_ok_def split_char_def)

definition scan_limits :: "scan_arguments \<Rightarrow> bool" where
  "scan_limits a \<longleftrightarrow> sa_wait_ms a \<le> 60000 \<and> 1 \<le> sa_retries a \<and> sa_retries a \<le> 10
    \<and> (case sa_selection a of None \<Rightarrow> True | Some s \<Rightarrow> \<not> starts_with (CHR ''-'') s)"

lemma scan_option_limits:
  "scan_filter_option rest p = Ok q \<Longrightarrow> scan_limits p \<Longrightarrow> scan_limits q"
  "scan_wait_option rest p = Ok q \<Longrightarrow> scan_limits p \<Longrightarrow> scan_limits q"
  "scan_retries_option rest p = Ok q \<Longrightarrow> scan_limits p \<Longrightarrow> scan_limits q"
  "scan_exclude_option rest p = Ok q \<Longrightarrow> scan_limits p \<Longrightarrow> scan_limits q"
  by (auto simp: scan_limits_def scan_filter_option_def scan_wait_option_def scan_retries_option_def
      scan_exclude_option_def invalid_input_def not_less split: if_splits result.splits list.splits option.splits)

lemma scan_arguments_from_limits:
  assumes "scan_arguments_from arguments p = Ok a" and "scan_limits p"
  shows "scan_limits a"
  using assms
proof (induction arguments p rule: scan_arguments_from.induct)
  case (1 arguments p)
  show ?case
  proof (cases arguments)
    case Nil
    with "1.prems" show ?thesis
      by (simp add: scan_arguments_from.simps)
  next
    case (Cons argument rest)
    note step = "1.prems"(1) [unfolded Cons, unfolded scan_arguments_from.simps [of "argument # rest" p] list.case]
    show ?thesis
      using step "1.prems"(2) "1.IH" [OF Cons]
      by (auto simp: scan_limits_def [of "p\<lparr>sa_resolve_names := False\<rparr>"]
          scan_limits_def [of "p\<lparr>sa_selection := Some argument\<rparr>"] scan_limits_def [of p] invalid_input_def
          split: if_splits result.splits dest: scan_option_limits)
  qed
qed

definition probe_limits :: "probe_state \<Rightarrow> bool" where
  "probe_limits s \<longleftrightarrow> 100 \<le> ps_timeout_ms s \<and> ps_timeout_ms s \<le> 60000
    \<and> (case ps_ports s of None \<Rightarrow> True | Some ports \<Rightarrow> ports_ok ports \<and> ports \<noteq> [])"

lemma probe_arguments_from_limits:
  assumes "probe_arguments_from arguments s = Ok a" and "probe_limits s"
  shows "probe_limits a"
  using assms
proof (induction arguments s rule: probe_arguments_from.induct)
  case (1 arguments s)
  show ?case
  proof (cases arguments)
    case Nil
    with "1.prems" show ?thesis
      by (simp add: probe_arguments_from.simps)
  next
    case (Cons argument rest)
    note step = "1.prems"(1) [unfolded Cons, unfolded probe_arguments_from.simps [of "argument # rest" s] list.case]
    show ?thesis
      using step "1.prems"(2) "1.IH" [OF Cons]
      by (auto simp: probe_limits_def invalid_input_def split: if_splits result.splits list.splits
          dest: parse_probe_ports_ok)
  qed
qed

lemma traffic_arguments_from_limits:
  assumes "traffic_arguments_from arguments p = Ok a" and "100 \<le> ta_interval_ms p \<and> ta_interval_ms p \<le> 60000"
  shows "100 \<le> ta_interval_ms a \<and> ta_interval_ms a \<le> 60000"
  using assms
proof (induction arguments p rule: traffic_arguments_from.induct)
  case (1 arguments p)
  show ?case
  proof (cases arguments)
    case Nil
    with "1.prems" show ?thesis
      by (simp add: traffic_arguments_from.simps)
  next
    case (Cons argument rest)
    note step = "1.prems"(1) [unfolded Cons, unfolded traffic_arguments_from.simps [of "argument # rest" p] list.case]
    show ?thesis
      using step "1.prems"(2) "1.IH" [OF Cons]
      by (auto simp: invalid_input_def split: if_splits result.splits)
  qed
qed

lemma parse_probe_arguments_limits:
  assumes "parse_probe_arguments arguments = Ok a"
  shows "pa_ports a \<noteq> [] \<and> length (pa_ports a) \<le> 4096 \<and> sorted (pa_ports a) \<and> distinct (pa_ports a)
    \<and> 0 \<notin> set (pa_ports a) \<and> 100 \<le> pa_timeout_ms a \<and> pa_timeout_ms a \<le> 60000"
proof -
  let ?start = "\<lparr>ps_host = None, ps_ports = None, ps_filter = None, ps_timeout_ms = 3000\<rparr>"
  have "case probe_arguments_from arguments ?start of Err _ \<Rightarrow> True | Ok s \<Rightarrow> probe_limits s"
    using probe_arguments_from_limits [of arguments ?start] by (auto simp: probe_limits_def split: result.split)
  moreover have "ports_ok (unwrap_or [443] x) \<and> unwrap_or [443] x \<noteq> []"
    if "case x of None \<Rightarrow> True | Some ports \<Rightarrow> ports_ok ports \<and> ports \<noteq> []" for x
    using that by (cases x) (simp_all add: ports_ok_def MAX_PROBE_PORTS_def)
  ultimately show ?thesis
    using assms by (cases "probe_arguments_from arguments ?start")
      (auto simp: parse_probe_arguments_def probe_limits_def ports_ok_def MAX_PROBE_PORTS_def invalid_input_def
        split: option.splits)
qed

text \<open>C25: Whatever the command line was, the arguments that a command goes on with are within its limits:
  a scan waits at most a minute and retries between one and ten times, a probe has at least one
  port and at most 4096, in ascending order, none of them zero, and every timeout and interval is
  between a tenth of a second and a minute.\<close>

theorem arguments_limited:
  "(case parse_scan_arguments arguments of
      Err _ \<Rightarrow> True
    | Ok a \<Rightarrow> sa_wait_ms a \<le> 60000 \<and> 1 \<le> sa_retries a \<and> sa_retries a \<le> 10)
   \<and> (case parse_probe_arguments arguments of
      Err _ \<Rightarrow> True
    | Ok a \<Rightarrow> pa_ports a \<noteq> [] \<and> length (pa_ports a) \<le> 4096 \<and> sorted (pa_ports a) \<and> distinct (pa_ports a)
        \<and> 0 \<notin> set (pa_ports a) \<and> 100 \<le> pa_timeout_ms a \<and> pa_timeout_ms a \<le> 60000)
   \<and> (case parse_traffic_arguments arguments of
      Err _ \<Rightarrow> True
    | Ok a \<Rightarrow> 100 \<le> ta_interval_ms a \<and> ta_interval_ms a \<le> 60000)"
proof (intro conjI)
  show "case parse_scan_arguments arguments of Err _ \<Rightarrow> True
    | Ok a \<Rightarrow> sa_wait_ms a \<le> 60000 \<and> 1 \<le> sa_retries a \<and> sa_retries a \<le> 10"
    using scan_arguments_from_limits [of arguments scan_defaults]
    by (auto simp: parse_scan_arguments_def scan_limits_def scan_defaults_def split: result.split)
  show "case parse_traffic_arguments arguments of Err _ \<Rightarrow> True
    | Ok a \<Rightarrow> 100 \<le> ta_interval_ms a \<and> ta_interval_ms a \<le> 60000"
    using traffic_arguments_from_limits [of arguments "\<lparr>ta_selection = None, ta_interval_ms = 1000, ta_watch = False\<rparr>"]
    by (auto simp: parse_traffic_arguments_def split: result.split)
  show "case parse_probe_arguments arguments of Err _ \<Rightarrow> True
    | Ok a \<Rightarrow> pa_ports a \<noteq> [] \<and> length (pa_ports a) \<le> 4096 \<and> sorted (pa_ports a) \<and> distinct (pa_ports a)
        \<and> 0 \<notin> set (pa_ports a) \<and> 100 \<le> pa_timeout_ms a \<and> pa_timeout_ms a \<le> 60000"
    using parse_probe_arguments_limits [of arguments] by (simp split: result.split)
qed

end
