(* ===== verification/Cli_Probe.thy ===== *)
theory Cli_Probe
  imports Cli_Arguments
begin

text \<open>
  The port probes of \<open>main.rs\<close>. Up to 64 threads share a counter and a list: each takes the next
  index, connects, and pushes its result under the lock, until the ports are exhausted. The model
  is a state machine over these atomic steps, one of some thread at a time, so that every
  interleaving is a run of it. What a connection attempt does is a parameter.
\<close>

section \<open>One port\<close>

record tcp_probe_result =
  pr_port :: u16
  pr_status :: tcp_probe_status
  pr_error :: "string option"
  pr_elapsed :: nat

text \<open>The outcome of \<open>TcpStream::connect_timeout\<close> for an address and a port, with the text of
  the error and the time it took; \<open>ECONNREFUSED\<close> is 111.\<close>

type_synonym dial = "ip_addr \<Rightarrow> u16 \<Rightarrow> unit result \<times> string \<times> nat"

definition tcp_probe :: "dial \<Rightarrow> ip_addr \<Rightarrow> u16 \<Rightarrow> tcp_probe_result" where
  "tcp_probe dial address port =
    (case dial address port of
       (Ok _, _, elapsed) \<Rightarrow>
         \<lparr>pr_port = port, pr_status = Connected, pr_error = None, pr_elapsed = elapsed\<rparr>
     | (Err e, message, elapsed) \<Rightarrow>
         if e = Os 111
         then \<lparr>pr_port = port, pr_status = ConnectionRefused, pr_error = Some message, pr_elapsed = elapsed\<rparr>
         else \<lparr>pr_port = port, pr_status = Failed, pr_error = Some message, pr_elapsed = elapsed\<rparr>)"

fun filter_name :: "tcp_probe_status \<Rightarrow> string" where
  "filter_name Connected = ''open''"
| "filter_name ConnectionRefused = ''closed''"
| "filter_name Failed = ''failed''"

fun status_text :: "tcp_probe_status \<Rightarrow> string" where
  "status_text Connected = ''connected''"
| "status_text ConnectionRefused = ''connection-refused''"
| "status_text Failed = ''failed''"

definition status_name :: "tcp_probe_result \<Rightarrow> string" where
  "status_name result = status_text (pr_status result)"

definition reachable_port :: "tcp_probe_result \<Rightarrow> bool" where
  "reachable_port result \<longleftrightarrow> pr_status result \<noteq> Failed"

section \<open>The pool of threads\<close>

definition MAX_CONCURRENT_PROBES :: nat where
  "MAX_CONCURRENT_PROBES = 64"

text \<open>A thread is about to take an index, is connecting, or has left its loop.\<close>

datatype worker = Ready | Dialing u16 | Stopped

record pool =
  po_next :: nat
  po_results :: "tcp_probe_result list"
  po_workers :: "worker list"

definition start_pool :: "u16 list \<Rightarrow> pool" where
  "start_pool ports =
    \<lparr>po_next = 0, po_results = [],
     po_workers = replicate (min (length ports) MAX_CONCURRENT_PROBES) Ready\<rparr>"

text \<open>The next atomic step of one thread: \<open>fetch_add\<close> with the test of the index, or the push of
  the result of the connection.\<close>

definition advance :: "(u16 \<Rightarrow> tcp_probe_result) \<Rightarrow> u16 list \<Rightarrow> nat \<Rightarrow> pool \<Rightarrow> pool option" where
  "advance probe ports i p =
    (if i < length (po_workers p) then
       (case po_workers p ! i of
          Ready \<Rightarrow>
            (case get_at (po_next p) ports of
               None \<Rightarrow> Some (p\<lparr>po_next := po_next p + 1, po_workers := (po_workers p)[i := Stopped]\<rparr>)
             | Some port \<Rightarrow> Some (p\<lparr>po_next := po_next p + 1, po_workers := (po_workers p)[i := Dialing port]\<rparr>))
        | Dialing port \<Rightarrow>
            Some (p\<lparr>po_results := po_results p @ [probe port], po_workers := (po_workers p)[i := Ready]\<rparr>)
        | Stopped \<Rightarrow> None)
     else None)"

inductive pool_step :: "(u16 \<Rightarrow> tcp_probe_result) \<Rightarrow> u16 list \<Rightarrow> pool \<Rightarrow> pool \<Rightarrow> bool"
  for probe :: "u16 \<Rightarrow> tcp_probe_result" and ports :: "u16 list" where
  advance: "advance probe ports i p = Some q \<Longrightarrow> pool_step probe ports p q"

inductive reachable_pool :: "(u16 \<Rightarrow> tcp_probe_result) \<Rightarrow> u16 list \<Rightarrow> pool \<Rightarrow> bool"
  for probe :: "u16 \<Rightarrow> tcp_probe_result" and ports :: "u16 list" where
  start: "reachable_pool probe ports (start_pool ports)"
| step: "reachable_pool probe ports p \<Longrightarrow> pool_step probe ports p q \<Longrightarrow> reachable_pool probe ports q"

inductive_cases pool_stepE: "pool_step probe ports p q"

text \<open>The end of the scope: every thread has been joined.\<close>

definition joined :: "pool \<Rightarrow> bool" where
  "joined p \<longleftrightarrow> list_all (\<lambda>w. w = Stopped) (po_workers p)"

text \<open>A schedule names the thread that moves next; it is one run of the pool.\<close>

fun run_schedule :: "(u16 \<Rightarrow> tcp_probe_result) \<Rightarrow> u16 list \<Rightarrow> nat list \<Rightarrow> pool \<Rightarrow> pool option" where
  "run_schedule probe ports [] p = Some p"
| "run_schedule probe ports (i # rest) p =
    Option.bind (advance probe ports i p) (run_schedule probe ports rest)"

text \<open>\<open>tcp_probe_ports\<close> under a schedule: \<open>None\<close> while some thread is still running.\<close>

definition tcp_probe_ports :: "dial \<Rightarrow> ip_addr \<Rightarrow> nat list \<Rightarrow> u16 list \<Rightarrow> tcp_probe_result list option" where
  "tcp_probe_ports dial address schedule ports =
    (case ports of
       [port] \<Rightarrow> Some [tcp_probe dial address port]
     | _ \<Rightarrow>
         (case run_schedule (tcp_probe dial address) ports schedule (start_pool ports) of
            None \<Rightarrow> None
          | Some p \<Rightarrow> if joined p then Some (sort_key pr_port (po_results p)) else None))"

section \<open>Every interleaving\<close>

text \<open>The ports whose connection is under way.\<close>

definition dialing :: "worker list \<Rightarrow> u16 list" where
  "dialing ws = filter_map (\<lambda>w. case w of Dialing port \<Rightarrow> Some port | _ \<Rightarrow> None) ws"

lemma dialing_update:
  assumes "i < length ws"
  shows "mset (dialing (ws[i := w])) + mset (dialing [ws ! i]) = mset (dialing ws) + mset (dialing [w])"
proof -
  obtain xs v zs where ws: "ws = xs @ v # zs" "length xs = i"
    using id_take_nth_drop [OF assms] assms by (metis length_take min.absorb4)
  have parts: "dialing (xs @ u # zs) = dialing xs @ dialing [u] @ dialing zs" for u
    by (simp add: dialing_def split: option.split)
  have "ws[i := w] = xs @ w # zs" "ws ! i = v"
    by (simp_all add: ws(1) ws(2) [symmetric])
  then show ?thesis
    by (simp add: ws(1) parts ac_simps)
qed

definition pool_invariant :: "(u16 \<Rightarrow> tcp_probe_result) \<Rightarrow> u16 list \<Rightarrow> pool \<Rightarrow> bool" where
  "pool_invariant probe ports p \<longleftrightarrow>
    mset (po_results p) + mset (map probe (dialing (po_workers p))) = mset (map probe (take (po_next p) ports))
    \<and> length (po_workers p) = min (length ports) MAX_CONCURRENT_PROBES
    \<and> (Stopped \<in> set (po_workers p) \<longrightarrow> length ports \<le> po_next p)"

lemma invariant_start: "pool_invariant probe ports (start_pool ports)"
proof -
  have "dialing (replicate n Ready) = []" for n
    by (induction n) (simp_all add: dialing_def)
  then show ?thesis
    by (simp add: pool_invariant_def start_pool_def)
qed

lemma invariant_advance:
  assumes "pool_invariant probe ports p" and "advance probe ports i p = Some q"
  shows "pool_invariant probe ports q"
proof -
  let ?ws = "po_workers p"
  have i: "i < length ?ws"
    using assms(2) by (simp add: advance_def split: if_splits)
  note update = dialing_update [OF i]
  have stopped: "Stopped \<in> set (?ws[i := w]) \<Longrightarrow> w \<noteq> Stopped \<Longrightarrow> length ports \<le> po_next p" for w
    using assms(1) set_update_subset_insert [of ?ws i w] by (auto simp: pool_invariant_def)
  show ?thesis
  proof (cases "?ws ! i")
    case Ready
    show ?thesis
    proof (cases "po_next p < length ports")
      case True
      with assms(2) Ready i have q: "q = p\<lparr>po_next := po_next p + 1, po_workers := ?ws[i := Dialing (ports ! po_next p)]\<rparr>"
        by (simp add: advance_def get_at_def)
      have "mset (dialing (?ws[i := Dialing (ports ! po_next p)])) = add_mset (ports ! po_next p) (mset (dialing ?ws))"
        using update [of "Dialing (ports ! po_next p)"] by (simp add: Ready dialing_def)
      then have "mset (map probe (dialing (?ws[i := Dialing (ports ! po_next p)]))) =
          add_mset (probe (ports ! po_next p)) (mset (map probe (dialing ?ws)))"
        by simp
      with True assms(1) stopped [of "Dialing (ports ! po_next p)"] show ?thesis
        by (auto simp: pool_invariant_def q take_Suc_conv_app_nth simp del: mset_map)
    next
      case False
      with assms(2) Ready i have q: "q = p\<lparr>po_next := po_next p + 1, po_workers := ?ws[i := Stopped]\<rparr>"
        by (simp add: advance_def get_at_def)
      have "mset (dialing (?ws[i := Stopped])) = mset (dialing ?ws)"
        using update [of Stopped] by (simp add: Ready dialing_def)
      then have "mset (map probe (dialing (?ws[i := Stopped]))) = mset (map probe (dialing ?ws))"
        by simp
      with False assms(1) show ?thesis
        by (simp add: pool_invariant_def q del: mset_map)
    qed
  next
    case (Dialing port)
    with assms(2) i have q: "q = p\<lparr>po_results := po_results p @ [probe port], po_workers := ?ws[i := Ready]\<rparr>"
      by (simp add: advance_def)
    have "add_mset port (mset (dialing (?ws[i := Ready]))) = mset (dialing ?ws)"
      using update [of Ready] by (simp add: Dialing dialing_def)
    then have "mset (map probe (dialing ?ws)) = add_mset (probe port) (mset (map probe (dialing (?ws[i := Ready]))))"
      by (metis image_mset_add_mset mset_map)
    with assms(1) stopped [of Ready] show ?thesis
      by (auto simp: pool_invariant_def q simp del: mset_map)
  next
    case Stopped
    with assms(2) i show ?thesis
      by (simp add: advance_def)
  qed
qed

lemma invariant_reachable: "reachable_pool probe ports p \<Longrightarrow> pool_invariant probe ports p"
  by (induction rule: reachable_pool.induct) (auto intro: invariant_start invariant_advance elim: pool_stepE)

lemma joined_results:
  assumes "pool_invariant probe ports p" and "joined p"
  shows "mset (po_results p) = mset (map probe ports)"
proof -
  have none: "dialing (po_workers p) = []"
  proof -
    have "list_all (\<lambda>w. w = Stopped) ws \<Longrightarrow> dialing ws = []" for ws
      by (induction ws) (simp_all add: dialing_def)
    with assms(2) show ?thesis
      by (simp add: joined_def)
  qed
  have "length ports \<le> po_next p"
  proof (cases "po_workers p")
    case Nil
    with assms(1) show ?thesis
      by (auto simp: pool_invariant_def MAX_CONCURRENT_PROBES_def split: if_splits)
  next
    case (Cons w ws)
    with assms(2) have "Stopped \<in> set (po_workers p)"
      by (simp add: joined_def)
    with assms(1) show ?thesis
      by (simp add: pool_invariant_def)
  qed
  with assms(1) none show ?thesis
    by (simp add: pool_invariant_def)
qed

text \<open>Sorted by port, the results do not depend on the order in which they were pushed.\<close>

lemma sorted_results:
  assumes "mset rs = mset (map probe ports)" and "\<And>port. pr_port (probe port) = port"
    and "sorted ports" and "distinct ports"
  shows "sort_key pr_port rs = map probe ports"
proof (rule properties_for_sort_key)
  show "mset (map probe ports) = mset rs"
    by (simp add: assms(1))
  show "sorted (map pr_port (map probe ports))"
    using assms(2,3) by (simp add: comp_def)
  fix r
  assume "r \<in> set (map probe ports)"
  then have r: "r \<in> set rs"
    using arg_cong [OF assms(1), of set_mset] by simp
  have inj: "inj_on pr_port (set rs)"
  proof -
    have "set rs = probe ` set ports"
      using arg_cong [OF assms(1), of set_mset] by simp
    then show ?thesis
      using assms(2) by (auto simp: inj_on_def)
  qed
  have only: "filter (\<lambda>x. pr_port r = pr_port x) xs = filter (\<lambda>x. r = x) xs" if "set xs = set rs" for xs
    using inj r that by (intro filter_cong) (auto simp: inj_on_def)
  have "length (filter (\<lambda>x. r = x) (map probe ports)) = length (filter (\<lambda>x. r = x) rs)"
    using arg_cong [OF assms(1), of "\<lambda>m. size (filter_mset (\<lambda>x. r = x) m)"]
    by (metis mset_filter size_mset)
  moreover have "filter (\<lambda>x. r = x) xs = replicate (length (filter (\<lambda>x. r = x) xs)) r" for xs
    by (induction xs) auto
  ultimately have "filter (\<lambda>x. r = x) (map probe ports) = filter (\<lambda>x. r = x) rs"
    by metis
  moreover have "set (map probe ports) = set rs"
    using arg_cong [OF assms(1), of set_mset] by simp
  ultimately show "filter (\<lambda>x. pr_port r = pr_port x) (map probe ports) = filter (\<lambda>x. pr_port r = pr_port x) rs"
    using only [of "map probe ports"] only [of rs] by simp
qed

lemma tcp_probe_port [simp]: "pr_port (tcp_probe dial address port) = port"
  by (simp add: tcp_probe_def split: prod.split result.split)

section \<open>Termination\<close>

fun worker_cost :: "worker \<Rightarrow> nat" where
  "worker_cost Ready = 1"
| "worker_cost (Dialing _) = 2"
| "worker_cost Stopped = 0"

text \<open>The number of steps that are left: two for each port nobody has taken, and those of the
  threads. Every step takes exactly one of them.\<close>

definition steps_left :: "u16 list \<Rightarrow> pool \<Rightarrow> nat" where
  "steps_left ports p = 2 * (length ports - po_next p) + sum_list (map worker_cost (po_workers p))"

lemma worker_cost_update:
  "i < length ws \<Longrightarrow> sum_list (map worker_cost (ws[i := w])) + worker_cost (ws ! i) =
    sum_list (map worker_cost ws) + worker_cost w"
proof (induction ws arbitrary: i)
  case (Cons v ws)
  then show ?case
    by (cases i) auto
qed simp

lemma advance_cost:
  assumes "advance probe ports i p = Some q"
  shows "Suc (steps_left ports q) = steps_left ports p"
proof -
  let ?ws = "po_workers p"
  have i: "i < length ?ws"
    using assms by (simp add: advance_def split: if_splits)
  note update = worker_cost_update [OF i]
  show ?thesis
  proof (cases "?ws ! i")
    case Ready
    show ?thesis
    proof (cases "po_next p < length ports")
      case True
      then show ?thesis
        using assms i update [of "Dialing (ports ! po_next p)"]
        by (auto simp: Ready advance_def get_at_def steps_left_def)
    next
      case False
      then show ?thesis
        using assms i update [of Stopped] by (auto simp: Ready advance_def get_at_def steps_left_def)
    qed
  next
    case (Dialing port)
    then show ?thesis
      using assms i update [of Ready] by (auto simp: advance_def steps_left_def)
  next
    case Stopped
    with assms i show ?thesis
      by (simp add: advance_def)
  qed
qed

lemma run_schedule_reachable:
  "run_schedule probe ports schedule p = Some q \<Longrightarrow> reachable_pool probe ports p \<Longrightarrow> reachable_pool probe ports q"
proof (induction schedule arbitrary: p)
  case (Cons i schedule)
  then obtain r where "advance probe ports i p = Some r" "run_schedule probe ports schedule r = Some q"
    by (auto simp: Option.bind_eq_Some_conv)
  with Cons show ?case
    by (blast intro: reachable_pool.step pool_step.advance)
qed simp

lemma run_schedule_cost:
  "run_schedule probe ports schedule p = Some q \<Longrightarrow> length schedule + steps_left ports q = steps_left ports p"
proof (induction schedule arbitrary: p)
  case (Cons i schedule)
  then obtain r where "advance probe ports i p = Some r" "run_schedule probe ports schedule r = Some q"
    by (auto simp: Option.bind_eq_Some_conv)
  with Cons.IH [of r] advance_cost [of probe ports i p r] show ?case
    by simp
qed simp

lemma advance_possible:
  assumes "\<not> joined p"
  shows "\<exists>i q. advance probe ports i p = Some q"
proof -
  obtain i where i: "i < length (po_workers p)" "po_workers p ! i \<noteq> Stopped"
    using assms by (auto simp: joined_def list_all_length)
  then show ?thesis
    by (intro exI [of _ i]) (auto simp: advance_def split: worker.split option.split)
qed

lemma schedule_exists:
  "\<exists>schedule q. run_schedule probe ports schedule p = Some q \<and> joined q"
proof (induction "steps_left ports p" arbitrary: p rule: less_induct)
  case less
  show ?case
  proof (cases "joined p")
    case True
    then show ?thesis
      by (intro exI [of _ "[]"] exI [of _ p]) simp
  next
    case False
    then obtain i r where r: "advance probe ports i p = Some r"
      using advance_possible by blast
    then have "steps_left ports r < steps_left ports p"
      using advance_cost [OF r] by simp
    then obtain schedule q where "run_schedule probe ports schedule r = Some q" "joined q"
      using less.hyps by blast
    with r show ?thesis
      by (intro exI [of _ "i # schedule"] exI [of _ q]) simp
  qed
qed

lemma start_cost: "steps_left ports (start_pool ports) = 2 * length ports + min (length ports) 64"
  by (simp add: steps_left_def start_pool_def MAX_CONCURRENT_PROBES_def sum_list_replicate)

lemma joined_cost:
  assumes "pool_invariant probe ports p" and "joined p"
  shows "steps_left ports p = 0"
proof -
  have "list_all (\<lambda>w. w = Stopped) ws \<Longrightarrow> sum_list (map worker_cost ws) = 0" for ws
    by (induction ws) simp_all
  moreover have "length ports \<le> po_next p"
  proof (cases "po_workers p")
    case Nil
    with assms(1) show ?thesis
      by (auto simp: pool_invariant_def MAX_CONCURRENT_PROBES_def split: if_splits)
  next
    case (Cons w ws)
    with assms show ?thesis
      by (simp add: pool_invariant_def joined_def)
  qed
  ultimately show ?thesis
    using assms(2) by (simp add: steps_left_def joined_def)
qed

lemma length_dialing: "length (dialing ws) \<le> length ws"
  by (induction ws) (simp_all add: dialing_def split: option.split)

text \<open>The results of any schedule that completes.\<close>

lemma scheduled_results:
  assumes "sorted ports" and "distinct ports" and "tcp_probe_ports dial address schedule ports = Some rs"
  shows "rs = map (tcp_probe dial address) ports"
proof -
  let ?probe = "tcp_probe dial address"
  have exact: "sort_key pr_port (po_results p) = map ?probe ports"
    if "run_schedule ?probe ports schedule (start_pool ports) = Some p" "joined p" for p
    using that sorted_results [of "po_results p" ?probe ports] assms(1,2)
      joined_results [OF invariant_reachable [OF run_schedule_reachable [OF that(1) reachable_pool.start]]]
    by simp
  show ?thesis
    using assms(3) exact by (auto simp: tcp_probe_ports_def split: list.splits option.splits if_splits)
qed

lemma schedule_completes: "\<exists>schedule rs. tcp_probe_ports dial address schedule ports = Some rs"
proof -
  obtain s p where run: "run_schedule (tcp_probe dial address) ports s (start_pool ports) = Some p" "joined p"
    using schedule_exists [of "tcp_probe dial address" ports "start_pool ports"] by blast
  then have "tcp_probe_ports dial address s ports \<noteq> None"
    by (auto simp: tcp_probe_ports_def split: list.split)
  then show ?thesis
    by blast
qed

text \<open>C19: However the threads are scheduled, a probe of an ascending list of ports reports each port
  exactly once, in order, with the outcome of its own connection; some schedule completes.\<close>

theorem probe_schedule_irrelevant:
  assumes "sorted ports" and "distinct ports"
  shows "(case tcp_probe_ports dial address schedule ports of
      None \<Rightarrow> True | Some rs \<Rightarrow> rs = map (tcp_probe dial address) ports)
    \<and> (\<exists>schedule. tcp_probe_ports dial address schedule ports = Some (map (tcp_probe dial address) ports))"
proof -
  obtain s rs where run: "tcp_probe_ports dial address s ports = Some rs"
    using schedule_completes by blast
  from scheduled_results [OF assms run] run scheduled_results [OF assms, of dial address schedule] show ?thesis
    by (auto split: option.split)
qed

theorem probe_schedule_irrelevant_witness:
  "tcp_probe_ports (\<lambda>_ port. (if port = 443 then Ok () else Err (Os 111), ''refused'', 5)) (V4 0x7F000001)
      [0, 1, 1, 0, 0, 1] [22, 443] =
    Some [\<lparr>pr_port = 22, pr_status = ConnectionRefused, pr_error = Some ''refused'', pr_elapsed = 5\<rparr>,
      \<lparr>pr_port = 443, pr_status = Connected, pr_error = None, pr_elapsed = 5\<rparr>]"
proof -
  let ?dial = "\<lambda>_ :: ip_addr. \<lambda>port :: u16. (if port = 443 then Ok () else Err (Os 111), ''refused'', 5 :: nat)"
  have "tcp_probe_ports ?dial (V4 0x7F000001) [0, 1, 1, 0, 0, 1] [22, 443] \<noteq> None"
    by (simp add: tcp_probe_ports_def start_pool_def MAX_CONCURRENT_PROBES_def advance_def get_at_def joined_def
        numeral_2_eq_2)
  then show ?thesis
    using probe_schedule_irrelevant [of "[22, 443]" ?dial "V4 0x7F000001" "[0, 1, 1, 0, 0, 1]"]
    by (auto simp: tcp_probe_def)
qed

text \<open>C20: The pool always terminates, without deadlock: a run takes at most two steps per port and one per
  thread, a run that has not ended can go on, one that has ended took exactly that many steps,
  and no more than 64 connections are ever open at once.\<close>

theorem probe_pool_terminates:
  assumes "run_schedule probe ports schedule (start_pool ports) = Some p"
  shows "length schedule \<le> 2 * length ports + min (length ports) 64
    \<and> (if joined p then length schedule = 2 * length ports + min (length ports) 64
       else \<exists>i. advance probe ports i p \<noteq> None)
    \<and> length (dialing (po_workers p)) \<le> 64"
proof (intro conjI)
  note cost = run_schedule_cost [OF assms, unfolded start_cost]
  have invariant: "pool_invariant probe ports p"
    by (rule invariant_reachable [OF run_schedule_reachable [OF assms reachable_pool.start]])
  show "length schedule \<le> 2 * length ports + min (length ports) 64"
    using cost by linarith
  show "if joined p then length schedule = 2 * length ports + min (length ports) 64
       else \<exists>i. advance probe ports i p \<noteq> None"
    using cost joined_cost [OF invariant] advance_possible [of p probe ports] by auto
  show "length (dialing (po_workers p)) \<le> 64"
    using length_dialing [of "po_workers p"] invariant
    by (simp add: pool_invariant_def MAX_CONCURRENT_PROBES_def)
qed

theorem probe_pool_terminates_witness:
  "\<exists>p. run_schedule (\<lambda>port. \<lparr>pr_port = port, pr_status = Failed, pr_error = None, pr_elapsed = 0\<rparr>) [22, 443]
      [1, 0, 0] (start_pool [22, 443]) = Some p
    \<and> (\<exists>i. advance (\<lambda>port. \<lparr>pr_port = port, pr_status = Failed, pr_error = None, pr_elapsed = 0\<rparr>) [22, 443] i p \<noteq> None)"
proof -
  let ?probe = "\<lambda>port. \<lparr>pr_port = port, pr_status = Failed, pr_error = None, pr_elapsed = 0\<rparr>"
  obtain p where p: "run_schedule ?probe [22, 443] [1, 0, 0] (start_pool [22, 443]) = Some p" "\<not> joined p"
    by (simp add: start_pool_def MAX_CONCURRENT_PROBES_def advance_def get_at_def joined_def numeral_2_eq_2)
  show ?thesis
    using probe_pool_terminates [OF p(1)] p by auto
qed

end
