(* ===== verification/Ip_Text.thy ===== *)
theory Ip_Text
  imports Net_Types
begin

text \<open>
  The display form of IP addresses (\<open>std::net\<close>), as the error texts, the tables and the JSON
  documents contain it.
\<close>

definition segments :: "ipv6_addr \<Rightarrow> u16 list" where
  "segments a = map (\<lambda>i. ucast (drop_bit (112 - 16 * i) a)) [0..<8]"

text \<open>The first of the longest runs of zero segments, as its start and length.\<close>

fun zero_run :: "u16 list \<Rightarrow> nat \<Rightarrow> nat \<times> nat \<Rightarrow> nat \<times> nat \<Rightarrow> nat \<times> nat" where
  "zero_run [] i current longest = longest"
| "zero_run (s # ss) i (start, len) longest =
    (if s = 0 then
       let current = (if len = 0 then (i, 1) else (start, len + 1))
       in zero_run ss (i + 1) current (if snd longest < snd current then current else longest)
     else zero_run ss (i + 1) (0, 0) longest)"

definition show_segments :: "u16 list \<Rightarrow> string" where
  "show_segments ss = join '':'' (map (\<lambda>s. hexadecimal (unat s)) ss)"

definition show_ipv6 :: "ipv6_addr \<Rightarrow> string" where
  "show_ipv6 a =
    (let ss = segments a
     in if take 6 ss = [0, 0, 0, 0, 0, 0xFFFF] then ''::ffff:'' @ show_ipv4 (ucast a)
        else case zero_run ss 0 (0, 0) (0, 0) of
          (start, len) \<Rightarrow>
            if 1 < len then show_segments (take start ss) @ ''::'' @ show_segments (drop (start + len) ss)
            else show_segments ss)"

fun show_ip :: "ip_addr \<Rightarrow> string" where
  "show_ip (V4 a) = show_ipv4 a"
| "show_ip (V6 a) = show_ipv6 a"

section \<open>Reading an address\<close>

text \<open>\<open>IpAddr::from_str\<close>. Every reader returns what it has read and the rest of the text, and reads
  nothing when it fails. A number has at most the given digits; one that continues is no number.\<close>

definition read_digits :: "nat \<Rightarrow> nat \<Rightarrow> nat \<Rightarrow> bool \<Rightarrow> string \<Rightarrow> (nat \<times> string) option" where
  "read_digits radix limit bound zero_prefix s =
    (let ds = takeWhile (\<lambda>c. to_digit radix c \<noteq> None) s
     in if ds = [] \<or> limit < length ds \<or> (\<not> zero_prefix \<and> 1 < length ds \<and> hd ds = CHR ''0'') then None
        else case digits_value radix 0 ds of
          None \<Rightarrow> None
        | Some n \<Rightarrow> if n < bound then Some (n, drop (length ds) s) else None)"

text \<open>\<open>read_separator\<close>: every element but the first follows a separator.\<close>

definition after_separator :: "char \<Rightarrow> nat \<Rightarrow> string \<Rightarrow> string option" where
  "after_separator c i s =
    (if i = 0 then Some s
     else case s of [] \<Rightarrow> None | d # rest \<Rightarrow> if d = c then Some rest else None)"

fun read_octets :: "nat \<Rightarrow> nat \<Rightarrow> string \<Rightarrow> (bytes \<times> string) option" where
  "read_octets 0 i s = Some ([], s)"
| "read_octets (Suc n) i s =
    (case Option.bind (after_separator (CHR ''.'') i s) (read_digits 10 3 256 False) of
       None \<Rightarrow> None
     | Some (octet, rest) \<Rightarrow>
         map_option (\<lambda>(bs, rest'). (of_nat octet # bs, rest')) (read_octets n (i + 1) rest))"

text \<open>\<open>read_groups\<close> with what is left of the limit: the groups, whether an IPv4 address ended them,
  and the rest.\<close>

fun read_groups :: "nat \<Rightarrow> nat \<Rightarrow> string \<Rightarrow> u16 list \<times> bool \<times> string" where
  "read_groups 0 i s = ([], False, s)"
| "read_groups (Suc n) i s =
    (case (if 0 < n then Option.bind (after_separator (CHR '':'') i s) (read_octets 4 0) else None) of
       Some (bs, rest) \<Rightarrow> ([of_be_bytes (take 2 bs), of_be_bytes (drop 2 bs)], True, rest)
     | None \<Rightarrow>
         (case Option.bind (after_separator (CHR '':'') i s) (read_digits 16 4 65536 True) of
            None \<Rightarrow> ([], False, s)
          | Some (g, rest) \<Rightarrow>
              (case read_groups n (i + 1) rest of (gs, v4, rest') \<Rightarrow> (of_nat g # gs, v4, rest'))))"

definition ipv6_of_segments :: "u16 list \<Rightarrow> ipv6_addr" where
  "ipv6_of_segments ss = ipv6_from_octets (concat (map (to_be_bytes 2) ss))"

definition parse_ipv6 :: "string \<Rightarrow> ipv6_addr option" where
  "parse_ipv6 s =
    (case read_groups 8 0 s of
       (head, head_v4, rest) \<Rightarrow>
         if length head = 8 then (if rest = [] then Some (ipv6_of_segments head) else None)
         else if head_v4 then None
         else case strip_prefix ''::'' rest of
           None \<Rightarrow> None
         | Some after \<Rightarrow>
             (case read_groups (7 - length head) 0 after of
                (tail, _, rest') \<Rightarrow>
                  if rest' = []
                  then Some (ipv6_of_segments (head @ replicate (8 - length head - length tail) 0 @ tail))
                  else None))"

definition parse_ip :: "string \<Rightarrow> ip_addr option" where
  "parse_ip s = option_or (map_option V4 (parse_ipv4 s)) (map_option V6 (parse_ipv6 s))"

end
