(* ===== verification/Cli_Networks.thy ===== *)
theory Cli_Networks
  imports Cli_Arguments_Spec Scanner Traffic Ip_Text
begin

text \<open>
  The choice of the networks that \<open>networkrs scan\<close> probes (\<open>main.rs\<close>), and the command itself up to
  its printing. The file system, the interface addresses that \<open>ioctl\<close> reports and the kernel that
  answers the netlink requests are parameters.
\<close>

section \<open>The host\<close>

text \<open>\<open>h_ioctl\<close> is \<open>None\<close> when the UDP socket cannot be bound; otherwise it maps a request and the 16
  bytes of an interface name to the \<open>sa_data\<close> of the answer.\<close>

record host = file_system +
  fs_exists :: "string \<Rightarrow> bool"
  h_ioctl :: "(u64 \<Rightarrow> bytes \<Rightarrow> bytes option) option"

definition read_trimmed_at :: "host \<Rightarrow> string \<Rightarrow> string option" where
  "read_trimmed_at h path =
    option_filter (\<lambda>v. v \<noteq> []) (map_option trim (result_option (fs_read_to_string h path)))"

text \<open>\<open>i32::from_str\<close>.\<close>

definition parse_i32 :: "string \<Rightarrow> i32 option" where
  "parse_i32 s =
    (case s of
       [] \<Rightarrow> None
     | c # cs \<Rightarrow>
         if c = CHR ''-'' then
           (if cs = [] then None
            else case digits_value 10 0 cs of
              None \<Rightarrow> None
            | Some n \<Rightarrow> if n \<le> 2 ^ 31 then Some (- of_nat n) else None)
         else map_option of_nat (from_str_radix 10 (2 ^ 31) s))"

definition interface_kind :: "host \<Rightarrow> string \<Rightarrow> string option" where
  "interface_kind h path =
    (if fs_exists h (path_join path ''wireless'') then Some ''wireless''
     else case read_trimmed_at h (path_join path ''type'') of
       None \<Rightarrow> None
     | Some v \<Rightarrow>
         if v = ''1'' then Some ''ethernet''
         else if v = ''772'' then Some ''loopback''
         else Some (''ARPHRD '' @ v))"

text \<open>\<open>DirEntry::file_name\<close> of an entry given by its path, as an \<open>OsString\<close> and as a \<open>String\<close>.\<close>

definition entry_name :: "string \<Rightarrow> string" where
  "entry_name path = unwrap_or [] (file_name path)"

definition interface_names :: "host \<Rightarrow> (i32, string) map" where
  "interface_names h =
    (case fs_read_dir h SYS_CLASS_NET of
       Err _ \<Rightarrow> Map.empty
     | Ok entries \<Rightarrow>
         map_of (rev (filter_map (\<lambda>path.
             case to_str (entry_name path) of
               None \<Rightarrow> None
             | Some name \<Rightarrow>
                 (case Option.bind (read_trimmed_at h (path_join path ''ifindex'')) parse_i32 of
                    None \<Rightarrow> None
                  | Some index \<Rightarrow> Some (index, name)))
           (filter_map result_option entries))))"

definition interface_label :: "(i32, string) map \<Rightarrow> i32 \<Rightarrow> string" where
  "interface_label names index = unwrap_or (''ifindex '' @ signed_decimal (sint index)) (names index)"

definition ioctl_ipv4 :: "(u64 \<Rightarrow> bytes \<Rightarrow> bytes option) \<Rightarrow> string \<Rightarrow> u64 \<Rightarrow> ipv4_addr option" where
  "ioctl_ipv4 ioctl interface request =
    (if 16 \<le> length interface then None
     else map_option (\<lambda>data. ipv4_from_octets (take 4 (drop 2 data)))
       (ioctl request (as_bytes interface @ replicate (16 - length interface) 0)))"

definition count_ones :: "u32 \<Rightarrow> nat" where
  "count_ones w = length (filter (bit w) [0..<32])"

definition SIOCGIFADDR :: u64 where "SIOCGIFADDR = 0x8915"
definition SIOCGIFNETMASK :: u64 where "SIOCGIFNETMASK = 0x891b"

definition ipv4_address :: "host \<Rightarrow> string \<Rightarrow> (ipv4_addr \<times> u32) option" where
  "ipv4_address h interface =
    (case h_ioctl h of
       None \<Rightarrow> None
     | Some ioctl \<Rightarrow>
         (case ioctl_ipv4 ioctl interface SIOCGIFADDR of
            None \<Rightarrow> None
          | Some address \<Rightarrow>
              map_option (\<lambda>bits. (address, of_nat (count_ones bits))) (ioctl_ipv4 ioctl interface SIOCGIFNETMASK)))"

section \<open>The default route\<close>

record default_ipv4_route =
  d_interface :: string
  d_gateway :: ipv4_addr
  d_metric :: u32

definition parse_ipv4_hex :: "string \<Rightarrow> ipv4_addr option" where
  "parse_ipv4_hex v = map_option (\<lambda>w. ipv4_from_octets (to_le_bytes 4 w)) (parse_u32_hex v)"

text \<open>One line of \<open>/proc/net/route\<close>.\<close>

definition default_route_of_line :: "string \<Rightarrow> default_ipv4_route option" where
  "default_route_of_line line =
    (let fields = split_whitespace line
     in if length fields < 8 \<or> fields ! 1 \<noteq> ''00000000'' \<or> fields ! 7 \<noteq> ''00000000'' then None
        else case parse_u32_hex (fields ! 3) of
          None \<Rightarrow> None
        | Some flags \<Rightarrow>
            if flags AND 0x0001 = 0 \<or> flags AND 0x0200 \<noteq> 0 then None
            else (case parse_ipv4_hex (fields ! 2) of
               None \<Rightarrow> None
             | Some gateway \<Rightarrow>
                 map_option (\<lambda>metric. \<lparr>d_interface = fields ! 0, d_gateway = gateway, d_metric = metric\<rparr>)
                   (parse_u32 (fields ! 6))))"

text \<open>\<open>Iterator::min_by_key\<close> returns the first of the least elements.\<close>

fun min_by_key :: "('a \<Rightarrow> 'k::linorder) \<Rightarrow> 'a list \<Rightarrow> 'a option" where
  "min_by_key f [] = None"
| "min_by_key f (x # xs) =
    (case min_by_key f xs of
       None \<Rightarrow> Some x
     | Some y \<Rightarrow> if f x \<le> f y then Some x else Some y)"

definition parse_default_ipv4_route :: "string \<Rightarrow> default_ipv4_route option" where
  "parse_default_ipv4_route contents =
    min_by_key d_metric (filter_map default_route_of_line (drop 1 (lines contents)))"

definition PROC_NET_ROUTE :: string where
  "PROC_NET_ROUTE = ''/proc/net/route''"

definition default_ipv4_interface :: "host \<Rightarrow> string option" where
  "default_ipv4_interface h =
    (case fs_read_to_string h PROC_NET_ROUTE of
       Err _ \<Rightarrow> None
     | Ok contents \<Rightarrow> map_option d_interface (parse_default_ipv4_route contents))"

section \<open>A network given as CIDR\<close>

definition parse_ipv4_cidr :: "string \<Rightarrow> (ipv4_addr \<times> u32) result" where
  "parse_ipv4_cidr v =
    (case split_once_char (CHR ''/'') v of
       None \<Rightarrow> invalid_input ''CIDR must contain a prefix length''
     | Some (address, prefix_text) \<Rightarrow>
         if CHR ''/'' \<in> set prefix_text then invalid_input ''invalid IPv4 CIDR''
         else (case parse_ipv4 address of
            None \<Rightarrow> invalid_input ''CIDR address must be IPv4''
          | Some a \<Rightarrow>
              (case parse_u32 prefix_text of
                 None \<Rightarrow> invalid_input ''CIDR prefix must be a number''
               | Some p \<Rightarrow>
                   if p > 32 then invalid_input ''CIDR prefix must be between 0 and 32'' else Ok (a, p))))"

text \<open>The candidates are tried in order; the increment is not reached at the last one, so it cannot
  overflow.\<close>

function first_candidate :: "u32 \<Rightarrow> u32 \<Rightarrow> ipv4_addr set \<Rightarrow> ipv4_addr option" where
  "first_candidate candidate final local_addresses =
    (if candidate \<le> final then
       (if candidate \<notin> local_addresses then Some candidate
        else if candidate = final then None
        else first_candidate (candidate + 1) final local_addresses)
     else None)"
  by pat_completeness auto
termination
proof (relation "measure (\<lambda>(candidate, final, _). unat final - unat candidate)")
  fix candidate final :: u32 and local_addresses :: "ipv4_addr set"
  assume "candidate \<le> final" and "\<not> candidate \<notin> local_addresses" and "candidate \<noteq> final"
  then have less: "unat candidate < unat final"
    by (simp add: word_le_nat_alt word_unat_eq_iff)
  then have "unat (candidate + 1) = unat candidate + 1"
    using unat_bounds(3) [of final] by (simp add: unat_word_ariths)
  with less show "((candidate + 1, final, local_addresses), candidate, final, local_addresses)
      \<in> measure (\<lambda>(candidate, final, _). unat final - unat candidate)"
    by simp
qed simp

declare first_candidate.simps [simp del]

definition first_non_local_scan_address :: "ipv4_addr \<Rightarrow> ipv4_addr \<Rightarrow> u32 \<Rightarrow> ipv4_addr set \<Rightarrow> ipv4_addr option" where
  "first_non_local_scan_address network broadcast prefix_length local_addresses =
    (if prefix_length \<le> 30 then first_candidate (network + 1) (broadcast - 1) local_addresses
     else first_candidate network broadcast local_addresses)"

text \<open>The own address that lies in a network consisting only of own addresses.\<close>

definition own_address_in :: "ipv4_addr \<Rightarrow> ipv4_addr \<Rightarrow> address list \<Rightarrow> (ipv4_addr \<times> i32) option" where
  "own_address_in network broadcast configured =
    find_map (\<lambda>a. case a_local a of
        V4 local_address \<Rightarrow>
          if network \<le> local_address \<and> local_address \<le> broadcast
          then Some (local_address, a_interface_index a) else None
      | V6 _ \<Rightarrow> None) configured"

text \<open>The network of the route to a probe address.\<close>

definition network_of_route :: "host \<Rightarrow> string \<Rightarrow> ipv4_addr \<Rightarrow> u32 \<Rightarrow> route \<Rightarrow> network result" where
  "network_of_route h v network_address prefix_length r =
    (case r_gateway r of
       Some gateway \<Rightarrow>
         invalid_input (v @ '' is reached through gateway '' @ show_ip gateway @ '', not directly connected'')
     | None \<Rightarrow>
         (case r_interface_index r of
            None \<Rightarrow> Err (Custom NotFound ''kernel route has no output interface'')
          | Some interface_index \<Rightarrow>
              (case r_source r of
                 None \<Rightarrow> Err (Custom AddrNotAvailable ''kernel route has no source address'')
               | Some (V6 _) \<Rightarrow>
                   Err (Custom InvalidData ''kernel returned a non-IPv4 source for an IPv4 route'')
               | Some (V4 source) \<Rightarrow>
                   Ok (for_cidr (interface_label (interface_names h) interface_index) interface_index
                     source network_address prefix_length))))"

text \<open>The addresses and the route are asked of two kernels; \<open>None\<close> while one of them has not
  answered.\<close>

definition scan_cidr :: "host \<Rightarrow> kernel \<Rightarrow> kernel \<Rightarrow> string \<Rightarrow> network result option" where
  "scan_cidr h k_addresses k_route v =
    (case parse_ipv4_cidr v of
       Err e \<Rightarrow> Some (Err e)
     | Ok (cidr_address, prefix_length) \<Rightarrow>
         let bits = network_mask prefix_length;
             network_address = cidr_address AND bits;
             broadcast = network_address OR NOT bits
         in Option.bind (addresses_for_family k_addresses AF_INET) (\<lambda>configured_addresses.
              case configured_addresses of
                Err e \<Rightarrow> Some (Err e)
              | Ok configured \<Rightarrow>
                  (case first_non_local_scan_address network_address broadcast prefix_length
                       (set (filter_map (\<lambda>a. case a_local a of V4 x \<Rightarrow> Some x | V6 _ \<Rightarrow> None) configured)) of
                     None \<Rightarrow>
                       Some (case own_address_in network_address broadcast configured of
                         None \<Rightarrow> Err (Custom AddrNotAvailable
                           ''CIDR contains no address that can be used for route selection'')
                       | Some (local_address, interface_index) \<Rightarrow>
                           Ok (for_cidr (interface_label (interface_names h) interface_index) interface_index
                             local_address network_address prefix_length))
                   | Some probe_address \<Rightarrow>
                       map_option (\<lambda>route. case route of
                           Err e \<Rightarrow> Err e
                         | Ok r \<Rightarrow> network_of_route h v network_address prefix_length r)
                         (ipv4_route k_route probe_address))))"

section \<open>Interfaces\<close>

definition scan_interface :: "host \<Rightarrow> string \<Rightarrow> network result" where
  "scan_interface h name =
    (let path = path_join SYS_CLASS_NET name
     in if \<not> fs_exists h path then Err (Custom NotFound (''interface '' @ name @ '' does not exist''))
        else if interface_kind h path = Some ''loopback'' then
          invalid_input ''loopback is not a scannable network''
        else if read_trimmed_at h (path_join path ''carrier'') \<noteq> Some ''1'' then
          Err (Custom NotConnected (''interface '' @ name @ '' has no carrier''))
        else (case ipv4_address h name of
            None \<Rightarrow> Err (Custom AddrNotAvailable (''interface '' @ name @ '' has no IPv4 address''))
          | Some (address, prefix_length) \<Rightarrow>
              (case Option.bind (read_trimmed_at h (path_join path ''ifindex'')) parse_i32 of
                 None \<Rightarrow> Err (Custom InvalidData ''invalid interface index'')
               | Some index \<Rightarrow> Ok (network_new name index address prefix_length))))"

text \<open>The network of one directory entry, if it is to be scanned.\<close>

definition active_network :: "host \<Rightarrow> string option \<Rightarrow> string \<Rightarrow> network option" where
  "active_network h preferred path =
    (case to_str (entry_name path) of
       None \<Rightarrow> None
     | Some name \<Rightarrow>
         if preferred \<notin> {None, Some name}
           \<or> interface_kind h path = Some ''loopback''
           \<or> read_trimmed_at h (path_join path ''carrier'') \<noteq> Some ''1''
         then None
         else (case ipv4_address h name of
            None \<Rightarrow> None
          | Some (address, prefix_length) \<Rightarrow>
              map_option (\<lambda>index. network_new name index address prefix_length)
                (Option.bind (read_trimmed_at h (path_join path ''ifindex'')) parse_i32)))"

definition active_networks :: "host \<Rightarrow> network list result" where
  "active_networks h =
    (case fs_read_dir h SYS_CLASS_NET of
       Err e \<Rightarrow> Err e
     | Ok entries \<Rightarrow>
         let networks = filter_map (active_network h (default_ipv4_interface h))
           (sort_key entry_name (filter_map result_option entries))
         in if networks = [] then Err (Custom NotFound ''no active non-loopback IPv4 network found'')
            else Ok networks)"

definition scan_networks :: "host \<Rightarrow> kernel \<Rightarrow> kernel \<Rightarrow> string option \<Rightarrow> network list result option" where
  "scan_networks h k_addresses k_route selection =
    (case selection of
       None \<Rightarrow> Some (active_networks h)
     | Some v \<Rightarrow>
         map_option (\<lambda>r. case r of Err e \<Rightarrow> Err e | Ok n \<Rightarrow> Ok [n])
           (if CHR ''/'' \<in> set v then scan_cidr h k_addresses k_route v
            else Some (scan_interface h v)))"

section \<open>The command\<close>

fun scan_filter_matches :: "scan_filter \<Rightarrow> neighbor \<Rightarrow> ipv4_addr set \<Rightarrow> bool" where
  "scan_filter_matches f n changed =
    (let is_changed = (case n_address n of V4 address \<Rightarrow> address \<in> changed | V6 _ \<Rightarrow> False)
     in case f of Changed \<Rightarrow> is_changed | Unchanged \<Rightarrow> \<not> is_changed)"

text \<open>The kernel and the surroundings of one run: it is asked for addresses, a route, and twice for
  its neighbors.\<close>

record surroundings =
  e_sysconf :: u64
  e_addresses :: kernel
  e_route :: kernel
  e_before :: kernel
  e_after :: kernel
  e_bind_error :: "i32 option"
  e_elapsed :: nat

record scan_report =
  rp_arguments :: scan_arguments
  rp_networks :: "network list"
  rp_neighbors :: "neighbor list"
  rp_result :: scan_result

definition options_of :: "scan_arguments \<Rightarrow> options" where
  "options_of a = \<lparr>o_wait = unat (sa_wait_ms a) * 1000000, o_retries = sa_retries a, o_excluded = sa_excluded a\<rparr>"

definition retained :: "scan_filter option \<Rightarrow> scan_result \<Rightarrow> neighbor list" where
  "retained f r =
    (case f of
       None \<Rightarrow> sr_neighbors r
     | Some g \<Rightarrow> filter (\<lambda>n. scan_filter_matches g n (sr_changed r)) (sr_neighbors r))"

text \<open>What \<open>scan\<close> and \<open>scan_json\<close> report on, with the probes that were sent.\<close>

definition scan_command :: "host \<Rightarrow> surroundings \<Rightarrow> string list \<Rightarrow> (scan_report result \<times> ipv4_addr list) option" where
  "scan_command h e arguments =
    (case parse_scan_arguments arguments of
       Err err \<Rightarrow> Some (Err err, [])
     | Ok a \<Rightarrow>
         (case scan_networks h (e_addresses e) (e_route e) (sa_selection a) of
            None \<Rightarrow> None
          | Some (Err err) \<Rightarrow> Some (Err err, [])
          | Some (Ok networks) \<Rightarrow>
              map_option (\<lambda>(outcome, probes).
                  (case outcome of
                     Err err \<Rightarrow> Err err
                   | Ok r \<Rightarrow>
                       Ok \<lparr>rp_arguments = a, rp_networks = networks,
                         rp_neighbors = retained (sa_filter a) r, rp_result = r\<rparr>, probes))
                (scan (e_sysconf e) (e_before e) (e_after e) (e_bind_error e) (e_elapsed e) networks
                  (options_of a))))"

end
