(* ===== verification/Cli_Networks_Spec.thy ===== *)
theory Cli_Networks_Spec
  imports Cli_Networks Sockets
begin

text \<open>
  The choice of networks is right: the probe address is the first host address that is not the
  scanner's own, a CIDR network is the prefix of an address on the interface of a direct route,
  the default interface is that of the least metric, and the whole command stays within its limits.
\<close>

section \<open>The probe address\<close>

lemma address_range_split: "lo < hi \<Longrightarrow> address_range lo hi = lo # address_range (lo + 1) hi"
proof -
  assume less: "lo < hi"
  then have "unat lo < unat hi"
    by (simp add: word_less_nat_alt)
  moreover from this have "unat (lo + 1) = Suc (unat lo)"
    using unat_bounds(3) [of hi] by (simp add: unat_word_ariths)
  ultimately show ?thesis
    by (simp add: address_range_def upt_conv_Cons del: upt_Suc)
qed

lemma address_range_single: "address_range a a = [a]"
  by (simp add: address_range_def)

lemma address_range_none: "hi < lo \<Longrightarrow> address_range lo hi = []"
  by (simp add: address_range_def word_less_nat_alt)

lemma first_candidate_find:
  "first_candidate candidate final own = find (\<lambda>a. a \<notin> own) (address_range candidate final)"
proof (induction candidate final own rule: first_candidate.induct)
  case (1 candidate final own)
  consider "candidate < final" | "candidate = final" | "final < candidate"
    using less_linear by blast
  then show ?case
  proof cases
    case less: 1
    show ?thesis
    proof (cases "candidate \<in> own")
      case True
      then have "first_candidate (candidate + 1) final own =
          find (\<lambda>a. a \<notin> own) (address_range (candidate + 1) final)"
        using less by (intro "1.IH") auto
      moreover have "candidate \<le> final" "candidate \<noteq> final"
        using less by auto
      ultimately show ?thesis
        using True by (simp add: first_candidate.simps [of candidate] address_range_split [OF less])
    next
      case False
      with less show ?thesis
        by (simp add: first_candidate.simps [of candidate] address_range_split [OF less])
    qed
  next
    case 2
    then show ?thesis
      by (simp add: first_candidate.simps [of final] address_range_single)
  next
    case 3
    then have "\<not> candidate \<le> final"
      by simp
    then show ?thesis
      by (simp add: first_candidate.simps [of candidate] address_range_none [OF 3])
  qed
qed

text \<open>The address whose route selects the interface of a CIDR network is the first of its host
  addresses that is not an address of this host; there is none exactly when all of them are.
  The search ends for every network, also at the last address of the address space.\<close>

theorem probe_address_exact:
  "let n = for_cidr interface index address cidr prefix_length
    in first_non_local_scan_address (w_network n) (w_broadcast n) prefix_length own =
      find (\<lambda>a. a \<notin> own) (address_range (fst (host_bounds n)) (snd (host_bounds n)))"
  by (simp add: Let_def first_non_local_scan_address_def first_candidate_find host_bounds_def for_cidr_def)

section \<open>A network given as CIDR\<close>

lemma slash_not_in_decimal: "CHR ''/'' \<notin> set (decimal n)"
  using decimal_plain [of "CHR ''/''" n] by auto

lemma slash_not_in_show_ipv4: "CHR ''/'' \<notin> set (show_ipv4 a)"
proof -
  have "CHR ''/'' \<notin> set (join ''.'' (map (\<lambda>b. decimal (unat b)) bs))" for bs :: bytes
  proof (induction bs)
    case (Cons b bs)
    then show ?case
      by (cases bs) (auto simp: slash_not_in_decimal)
  qed simp
  then show ?thesis
    by (simp add: show_ipv4_def)
qed

lemma parse_cidr_text:
  "parse_ipv4_cidr (show_ipv4 a @ ''/'' @ decimal (unat p)) =
    (if p \<le> 32 then Ok (a, p)
     else Err (Custom InvalidInput ''CIDR prefix must be between 0 and 32''))"
proof -
  have "split_once_char (CHR ''/'') (show_ipv4 a @ ''/'' @ decimal (unat p)) =
      Some (show_ipv4 a, decimal (unat p))"
    using split_once_char_append [OF slash_not_in_show_ipv4] by simp
  then show ?thesis
    by (simp add: parse_ipv4_cidr_def slash_not_in_decimal invalid_input_def not_le)
qed

text \<open>A CIDR text is read as the address and the prefix length it was written from, and one whose
  prefix length exceeds 32 is refused as invalid input.\<close>

theorem cidr_roundtrip:
  "parse_ipv4_cidr (show_ipv4 a @ ''/'' @ decimal (unat p)) =
    (if p \<le> 32 then Ok (a, p)
     else Err (Custom InvalidInput ''CIDR prefix must be between 0 and 32''))"
  by (rule parse_cidr_text)

lemma own_address_in_Some:
  "own_address_in network broadcast configured = Some (a, i) \<Longrightarrow>
    network \<le> a \<and> a \<le> broadcast \<and> (\<exists>x \<in> set configured. a_local x = V4 a \<and> a_interface_index x = i)"
  unfolding own_address_in_def
  by (drule find_map_Some) (fastforce split: ip_addr.splits if_splits)

text \<open>What \<open>scan_cidr\<close> may rely on when it returns a network: a direct route to the probe address, or
  an address of this host when every host address is its own.\<close>

definition directly_connected :: "kernel \<Rightarrow> address list \<Rightarrow> network \<Rightarrow> bool" where
  "directly_connected k_route configured n \<longleftrightarrow>
    (case first_non_local_scan_address (w_network n) (w_broadcast n) (w_prefix n)
        (set (filter_map (\<lambda>a. case a_local a of V4 x \<Rightarrow> Some x | V6 _ \<Rightarrow> None) configured)) of
       Some probe \<Rightarrow>
         (case ipv4_route k_route probe of
            Some (Ok r) \<Rightarrow> r_gateway r = None \<and> r_interface_index r = Some (w_interface_index n)
              \<and> r_source r = Some (V4 (w_address n))
          | _ \<Rightarrow> False)
     | None \<Rightarrow>
         network_contains n (w_address n)
         \<and> list_ex (\<lambda>a. a_local a = V4 (w_address n) \<and> a_interface_index a = w_interface_index n) configured)"

lemma scan_cidr_Ok:
  assumes "scan_cidr h k_addresses k_route v = Some (Ok n)"
  obtains a configured where "parse_ipv4_cidr v = Ok (a, w_prefix n)" "w_prefix n \<le> 32"
    "n = for_cidr (w_interface n) (w_interface_index n) (w_address n) (a AND network_mask (w_prefix n)) (w_prefix n)"
    "w_interface n = interface_label (interface_names h) (w_interface_index n)"
    "addresses_for_family k_addresses AF_INET = Some (Ok configured)"
    "directly_connected k_route configured n"
proof -
  obtain a p where cidr: "parse_ipv4_cidr v = Ok (a, p)"
    using assms by (cases "parse_ipv4_cidr v") (auto simp: scan_cidr_def)
  obtain configured where configured: "addresses_for_family k_addresses AF_INET = Some (Ok configured)"
  proof (cases "addresses_for_family k_addresses AF_INET")
    case (Some reply)
    with assms cidr that show ?thesis
      by (cases reply) (simp_all add: scan_cidr_def Let_def)
  qed (use assms cidr in \<open>simp add: scan_cidr_def Let_def\<close>)
  let ?network = "a AND network_mask p"
  let ?broadcast = "?network OR NOT (network_mask p)"
  let ?own = "set (filter_map (\<lambda>a. case a_local a of V4 x \<Rightarrow> Some x | V6 _ \<Rightarrow> None) configured)"
  have p: "p \<le> 32"
    using cidr by (auto simp: parse_ipv4_cidr_def invalid_input_def split: option.splits if_splits)
  have built: "for_cidr interface index address ?network p =
      \<lparr>w_interface = interface, w_interface_index = index, w_address = address, w_prefix = p,
        w_network = ?network, w_broadcast = ?broadcast\<rparr>" for interface index address
    by (simp add: for_cidr_def Let_def and.assoc)
  have "w_prefix n = p \<and> n = for_cidr (w_interface n) (w_interface_index n) (w_address n) ?network p
      \<and> w_interface n = interface_label (interface_names h) (w_interface_index n)
      \<and> directly_connected k_route configured n"
  proof (cases "first_non_local_scan_address ?network ?broadcast p ?own")
    case None
    with assms cidr configured obtain address index where own: "own_address_in ?network ?broadcast configured = Some (address, index)"
      and n: "n = for_cidr (interface_label (interface_names h) index) index address ?network p"
      by (auto simp: scan_cidr_def Let_def split: option.splits)
    show ?thesis
      using None own_address_in_Some [OF own]
      by (auto simp: n built directly_connected_def network_contains_def list_ex_iff)
  next
    case (Some probe)
    obtain r where r: "ipv4_route k_route probe = Some (Ok r)"
      and n: "network_of_route h v ?network p r = Ok n"
    proof (cases "ipv4_route k_route probe")
      case (Some reply)
      with \<open>first_non_local_scan_address ?network ?broadcast p ?own = Some probe\<close> assms cidr configured that
      show ?thesis
        by (cases reply) (simp_all add: scan_cidr_def Let_def)
    qed (use \<open>first_non_local_scan_address ?network ?broadcast p ?own = Some probe\<close> assms cidr configured
        in \<open>simp add: scan_cidr_def Let_def\<close>)
    from n show ?thesis
      using Some r by (auto simp: network_of_route_def invalid_input_def built directly_connected_def
          split: option.splits ip_addr.splits)
  qed
  with that cidr configured p show ?thesis
    by metis
qed

text \<open>C21: A network that is scanned by its CIDR text is the prefix of the given address, named after its
  interface, and directly connected: the kernel's route to its first foreign host address has no
  gateway and leaves by that interface with that source address, or else the network consists of
  addresses of this host and the interface owns one of them.\<close>

theorem scan_cidr_direct:
  assumes "scan_cidr h k_addresses k_route v = Some (Ok n)"
  shows "network_ok n \<and> w_interface n = interface_label (interface_names h) (w_interface_index n)
    \<and> (case parse_ipv4_cidr v of
         Err _ \<Rightarrow> False
       | Ok (a, p) \<Rightarrow> w_prefix n = p \<and> w_network n = a AND network_mask p)
    \<and> (case addresses_for_family k_addresses AF_INET of
         Some (Ok configured) \<Rightarrow> directly_connected k_route configured n
       | _ \<Rightarrow> False)"
proof -
  obtain a configured where n: "parse_ipv4_cidr v = Ok (a, w_prefix n)" "w_prefix n \<le> 32"
    "n = for_cidr (w_interface n) (w_interface_index n) (w_address n) (a AND network_mask (w_prefix n)) (w_prefix n)"
    "w_interface n = interface_label (interface_names h) (w_interface_index n)"
    "addresses_for_family k_addresses AF_INET = Some (Ok configured)"
    "directly_connected k_route configured n"
    by (rule scan_cidr_Ok [OF assms])
  have "network_ok n"
    by (subst n(3)) (rule for_cidr_ok [OF n(2)])
  moreover have "w_network n = a AND network_mask (w_prefix n)"
    using arg_cong [OF n(3), of w_network] by (simp add: for_cidr_def Let_def and.assoc)
  ultimately show ?thesis
    using n by simp
qed

definition idle_host :: host where
  "idle_host =
    \<lparr>fs_is_dir = \<lambda>_. True, fs_read_dir = \<lambda>_. Err (Os 2), fs_read_to_string = \<lambda>_. Err (Os 2),
     fs_exists = \<lambda>_. True, h_ioctl = None\<rparr>"

theorem scan_cidr_direct_witness:
  "let k = example_kernel (packets
      [[address_message_for RTM_NEWADDR ADDRESS_SEQUENCE example_address, done_message 3]])
    in \<exists>n. scan_cidr idle_host k k (show_ipv4 0xC0A80002 @ ''/'' @ decimal (unat (32 :: u32))) = Some (Ok n) \<and> network_ok n
      \<and> w_interface n = interface_label (interface_names idle_host) (w_interface_index n)"
proof -
  let ?k = "example_kernel (packets
      [[address_message_for RTM_NEWADDR ADDRESS_SEQUENCE example_address, done_message 3]])"
  have cidr: "parse_ipv4_cidr (show_ipv4 0xC0A80002 @ ''/'' @ decimal (unat (32 :: u32))) = Ok (0xC0A80002, 32)"
    unfolding parse_cidr_text by simp
  have own: "address_view example_address \<noteq> None"
      "a_local (the (address_view example_address)) = V4 0xC0A80002"
    by (simp_all add: address_view_def example_address_def)
  have "network_mask 32 = - 1"
    by code_simp
  then have "first_non_local_scan_address (0xC0A80002 AND network_mask 32)
      (0xC0A80002 AND network_mask 32 OR NOT (network_mask 32)) 32 {0xC0A80002} = None"
    by (simp add: first_non_local_scan_address_def first_candidate_find address_range_single)
  moreover have "own_address_in (0xC0A80002 AND network_mask 32)
      (0xC0A80002 AND network_mask 32 OR NOT (network_mask 32)) [the (address_view example_address)] \<noteq> None"
    using \<open>network_mask 32 = - 1\<close> own by (simp add: own_address_in_def)
  ultimately have run: "\<exists>n. scan_cidr idle_host k k v = Some (Ok n)"
    if "parse_ipv4_cidr v = Ok (0xC0A80002, 32)"
      and "addresses_for_family k AF_INET = Some (Ok [the (address_view example_address)])" for k v
    using that own by (auto simp: scan_cidr_def Let_def)
  from run [OF cidr addresses_example] obtain n
    where n: "scan_cidr idle_host ?k ?k (show_ipv4 0xC0A80002 @ ''/'' @ decimal (unat (32 :: u32))) = Some (Ok n)"
    ..
  from scan_cidr_direct [OF n] n show ?thesis
    unfolding Let_def by blast
qed

section \<open>The default route\<close>

text \<open>A row of \<open>/proc/net/route\<close>, whose columns are separated by tabs and which is padded with
  blanks; the kernel prints the addresses as words in host order.\<close>

record route_row =
  rr_interface :: string
  rr_destination :: ipv4_addr
  rr_gateway :: ipv4_addr
  rr_flags :: u16
  rr_references :: nat
  rr_uses :: nat
  rr_metric :: u32
  rr_mask :: ipv4_addr
  rr_rest :: "nat list"
  rr_padding :: nat

definition address_field :: "ipv4_addr \<Rightarrow> string" where
  "address_field a = hex_field 8 (unat (of_le_bytes (ipv4_octets a) :: u32))"

definition route_columns :: "route_row \<Rightarrow> string list" where
  "route_columns r =
    [rr_interface r, address_field (rr_destination r), address_field (rr_gateway r),
     hex_field 4 (unat (rr_flags r)), decimal (rr_references r), decimal (rr_uses r),
     decimal (unat (rr_metric r)), address_field (rr_mask r)] @ map decimal (rr_rest r)"

definition tab :: char where
  "tab = char_of (9 :: nat)"

definition route_row_text :: "route_row \<Rightarrow> string" where
  "route_row_text r = join [tab] (route_columns r) @ replicate (rr_padding r) blank"

text \<open>The routes for every destination that are up and do not reject.\<close>

definition default_row :: "route_row \<Rightarrow> bool" where
  "default_row r \<longleftrightarrow>
    rr_destination r = 0 \<and> rr_mask r = 0 \<and> bit (rr_flags r) 0 \<and> \<not> bit (rr_flags r) 9"

definition row_route :: "route_row \<Rightarrow> default_ipv4_route" where
  "row_route r = \<lparr>d_interface = rr_interface r, d_gateway = rr_gateway r, d_metric = rr_metric r\<rparr>"

lemma pieces_of_join:
  "list_all plain_field cols \<Longrightarrow>
    pieces_of (join [tab] cols @ replicate n blank) = map (map (\<lambda>c. [c])) cols"
proof (induction cols)
  case (Cons f cols)
  have none: "\<forall>x \<in> set (map (\<lambda>c. [c]) f). \<not> whitespace x"
    using plain_not_whitespace [of f] Cons.prems by auto
  show ?case
  proof (cases cols)
    case Nil
    then show ?thesis
      using pieces_of_field [of f "replicate n blank"] pieces_of_only_blanks [of n] Cons.prems
      by (cases n) auto
  next
    case (Cons g gs)
    have "whitespace [tab]"
      by (simp add: whitespace_ascii tab_def)
    with none Cons.prems Cons show ?thesis
      using Cons.IH by (simp add: pieces_of_def split_on_piece plain_field_def)
  qed
qed simp

definition route_row_ok :: "route_row \<Rightarrow> bool" where
  "route_row_ok r \<longleftrightarrow> plain_field (rr_interface r)"

lemma address_field_zero: "address_field a = ''00000000'' \<longleftrightarrow> a = 0"
proof -
  have zero: "''00000000'' = hex_field 8 0"
    by code_simp
  have word: "to_le_bytes 4 (of_le_bytes (ipv4_octets a) :: u32) = ipv4_octets a"
    using to_of_le_bytes [of "ipv4_octets a", where 'a = 32] by simp
  have "hex_field 8 n = hex_field 8 0 \<longleftrightarrow> n = 0" if "n < 2 ^ 32" for n
    using that digits_value_hex_field [of 8 n] digits_value_hex_field [of 8 0] by (cases "n = 0") auto
  from this [of "unat (of_le_bytes (ipv4_octets a) :: u32)"] have "address_field a = ''00000000'' \<longleftrightarrow> (of_le_bytes (ipv4_octets a) :: u32) = 0"
    using unat_bounds(3) [of "of_le_bytes (ipv4_octets a)"] by (simp add: address_field_def zero unat_eq_0)
  also have "\<dots> \<longleftrightarrow> a = 0"
  proof
    assume "(of_le_bytes (ipv4_octets a) :: u32) = 0"
    with word have "ipv4_octets a = to_le_bytes 4 (0 :: u32)"
      by simp
    moreover have "to_le_bytes 4 (0 :: u32) = ipv4_octets 0"
      by code_simp
    ultimately have "ipv4_from_octets (ipv4_octets a) = ipv4_from_octets (ipv4_octets 0)"
      by simp
    then show "a = 0"
      by simp
  next
    assume "a = 0"
    moreover have "(of_le_bytes (ipv4_octets 0) :: u32) = 0"
      by code_simp
    ultimately show "(of_le_bytes (ipv4_octets a) :: u32) = 0"
      by simp
  qed
  finally show ?thesis .
qed

lemma parse_address_field: "parse_ipv4_hex (address_field a) = Some a"
  using to_of_le_bytes [of "ipv4_octets a", where 'a = 32]
  by (simp add: parse_ipv4_hex_def address_field_def)

lemma parse_flags: "parse_u32_hex (hex_field 4 (unat (flags :: u16))) = Some (ucast flags)"
  using unat_bounds(2) [of flags] by (simp add: parse_u32_hex_def from_str_radix_hex_field)

lemma flag_bits:
  "(ucast (flags :: u16) :: u32) AND 1 = 0 \<longleftrightarrow> \<not> bit flags 0"
  "(ucast (flags :: u16) :: u32) AND 0x200 = 0 \<longleftrightarrow> \<not> bit flags 9"
proof -
  show "(ucast flags :: u32) AND 1 = 0 \<longleftrightarrow> \<not> bit flags 0"
    using and_exp_eq_0_iff_not_bit [of "ucast flags :: u32" 0] by (simp add: bit_simps)
  show "(ucast flags :: u32) AND 0x200 = 0 \<longleftrightarrow> \<not> bit flags 9"
    using and_exp_eq_0_iff_not_bit [of "ucast flags :: u32" 9] by (simp add: bit_simps)
qed

lemma route_row_fields:
  assumes "route_row_ok r"
  shows "split_whitespace (route_row_text r) = route_columns r" and "plain_line (route_row_text r)"
proof -
  have plain: "list_all plain_field (route_columns r)"
    using assms by (auto simp: route_row_ok_def route_columns_def address_field_def plain_columns list_all_iff)
  have join: "list_all plain_field cols \<Longrightarrow> c \<in> set (join [tab] cols) \<Longrightarrow>
      c = tab \<or> 33 \<le> (of_char c :: nat) \<and> (of_char c :: nat) < 128" for c cols
    by (induction "[tab]" cols rule: join.induct) (auto simp: plain_field_def list_all_iff)
  have chars: "c \<in> set (route_row_text r) \<Longrightarrow>
      c = tab \<or> 32 \<le> (of_char c :: nat) \<and> (of_char c :: nat) < 128" for c
    using join [OF plain, of c] by (auto simp: route_row_text_def blank_def)
  have "utf8_chars (route_row_text r) = map (\<lambda>c. [c]) (route_row_text r)"
  proof (rule utf8_chars_ascii, rule ballI)
    fix c
    assume "c \<in> set (route_row_text r)"
    from chars [OF this] have "(of_char c :: nat) < 128"
      by (auto simp: tab_def)
    then show "byte_of_char c < 0x80"
      by (rule byte_of_char_less)
  qed
  with pieces_of_join [OF plain, of "rr_padding r"] show "split_whitespace (route_row_text r) = route_columns r"
    by (simp add: split_whitespace_def pieces_of_def route_row_text_def comp_def)
  show "plain_line (route_row_text r)"
    using chars [of newline] chars [of carriage_return]
    by (auto simp: plain_line_def newline_def carriage_return_def tab_def)
qed

lemma default_route_of_row:
  assumes "route_row_ok r"
  shows "default_route_of_line (route_row_text r) = (if default_row r then Some (row_route r) else None)"
  using route_row_fields(1) [OF assms]
  by (simp add: default_route_of_line_def route_columns_def address_field_zero parse_address_field parse_flags
      flag_bits default_row_def row_route_def Let_def)

lemma min_by_key_find:
  "min_by_key f xs = find (\<lambda>x. \<forall>y \<in> set xs. f x \<le> f y) xs"
proof (induction xs)
  case (Cons x xs)
  show ?case
  proof (cases "find (\<lambda>x. \<forall>y \<in> set xs. f x \<le> f y) xs")
    case None
    then have "xs = []"
    proof -
      have "\<exists>x \<in> set xs. \<forall>y \<in> set xs. f x \<le> f y" if "xs \<noteq> []"
        using that ex_min_if_finite [of "f ` set xs"] by (auto simp: not_less) 
      with None show ?thesis
        by (auto simp: find_None_iff)
    qed
    with Cons None show ?thesis
      by simp
  next
    case (Some y)
    then have y: "y \<in> set xs" "\<forall>z \<in> set xs. f y \<le> f z"
      by (auto simp: find_Some_iff)
    show ?thesis
    proof (cases "f x \<le> f y")
      case True
      with y have "\<forall>z \<in> set (x # xs). f x \<le> f z"
        by (auto intro: order_trans)
      with True Cons Some show ?thesis
        by simp
    next
      case False
      have "find (\<lambda>z. \<forall>w \<in> set (x # xs). f z \<le> f w) xs = find (\<lambda>z. \<forall>w \<in> set xs. f z \<le> f w) xs"
      proof (rule find_cong [OF refl])
        fix z
        assume "z \<in> set xs"
        with False y show "(\<forall>w \<in> set (x # xs). f z \<le> f w) = (\<forall>w \<in> set xs. f z \<le> f w)"
          by (auto dest: bspec)
      qed
      with False y Cons Some show ?thesis
        by auto
    qed
  qed
qed simp

lemma default_route_rows:
  assumes "plain_line title" and "list_all route_row_ok rows"
  shows "parse_default_ipv4_route (file_text (title # map route_row_text rows)) =
    min_by_key d_metric (map row_route (filter default_row rows))"
proof -
  have "list_all plain_line (title # map route_row_text rows)"
    using assms by (auto simp: list_all_iff route_row_fields(2))
  from lines_file_text [OF this]
  have "drop 1 (lines (file_text (title # map route_row_text rows))) = map route_row_text rows"
    by (simp del: lines.simps)
  moreover have "filter_map default_route_of_line (map route_row_text rows) = map row_route (filter default_row rows)"
    using assms(2) by (induction rows) (simp_all add: default_route_of_row)
  ultimately show ?thesis
    by (simp add: parse_default_ipv4_route_def del: lines.simps)
qed

text \<open>C24: The default route is that of the first row with the least metric among the rows of
  \<open>/proc/net/route\<close> that lead everywhere, are up and do not reject, with its gateway in network
  order; there is none exactly when no row qualifies.\<close>

theorem default_route_least:
  assumes "plain_line title" and "list_all route_row_ok rows"
  shows "parse_default_ipv4_route (file_text (title # map route_row_text rows)) =
    find (\<lambda>d. \<forall>r \<in> set rows. default_row r \<longrightarrow> d_metric d \<le> rr_metric r)
      (map row_route (filter default_row rows))"
  unfolding default_route_rows [OF assms] min_by_key_find
  by (rule find_cong) (auto simp: row_route_def)

theorem default_route_least_witness:
  "let row = \<lparr>rr_interface = ''eth0'', rr_destination = 0, rr_gateway = 0xC0A80101, rr_flags = 3,
        rr_references = 0, rr_uses = 0, rr_metric = 600, rr_mask = 0, rr_rest = [0, 0, 0], rr_padding = 5\<rparr>;
       rows = [row, row\<lparr>rr_interface := ''wlan0'', rr_metric := 100\<rparr>, row\<lparr>rr_destination := 0xC0A80100\<rparr>]
    in parse_default_ipv4_route (file_text (''Iface'' # map route_row_text rows)) =
      Some \<lparr>d_interface = ''wlan0'', d_gateway = 0xC0A80101, d_metric = 100\<rparr>"
proof -
  let ?row = "\<lparr>rr_interface = ''eth0'', rr_destination = 0, rr_gateway = 0xC0A80101, rr_flags = 3,
        rr_references = 0, rr_uses = 0, rr_metric = 600, rr_mask = 0, rr_rest = [0, 0, 0], rr_padding = 5\<rparr>"
  let ?rows = "[?row, ?row\<lparr>rr_interface := ''wlan0'', rr_metric := 100\<rparr>, ?row\<lparr>rr_destination := 0xC0A80100\<rparr>]"
  have "list_all route_row_ok ?rows"
    by (simp add: route_row_ok_def plain_field_def)
  moreover have "plain_line ''Iface''"
    by (rule plain_line_printable) simp
  moreover have "bit (3 :: u16) 0" "\<not> bit (3 :: u16) 9"
    by code_simp+
  ultimately show ?thesis
    using default_route_least [of "''Iface''" ?rows]
    by (simp add: default_row_def row_route_def)
qed

section \<open>The command\<close>

lemma count_ones_le: "(of_nat (count_ones w) :: u32) \<le> 32"
proof -
  have "count_ones w \<le> 32"
    unfolding count_ones_def by (rule order_trans [OF length_filter_le]) simp
  then show ?thesis
    by (simp add: word_le_nat_alt unat_of_nat)
qed

lemma ipv4_address_prefix: "ipv4_address h name = Some (a, p) \<Longrightarrow> p \<le> 32"
  by (auto simp: ipv4_address_def count_ones_le split: option.splits)

lemma network_new_ok: "p \<le> 32 \<Longrightarrow> network_ok (network_new name index a p)"
  by (simp add: network_new_def for_cidr_ok)

lemma active_network_ok: "active_network h preferred path = Some n \<Longrightarrow> network_ok n"
  by (auto simp: active_network_def network_new_ok dest: ipv4_address_prefix split: option.splits if_splits prod.splits)

lemma scan_interface_ok: "scan_interface h name = Ok n \<Longrightarrow> network_ok n"
  by (auto simp: scan_interface_def invalid_input_def Let_def network_new_ok dest: ipv4_address_prefix
      split: option.splits if_splits prod.splits)

lemma scan_cidr_ok: "scan_cidr h k_addresses k_route v = Some (Ok n) \<Longrightarrow> network_ok n"
  by (erule scan_cidr_Ok) (metis for_cidr_ok)

lemma list_all_filter_map: "(\<And>x y. f x = Some y \<Longrightarrow> P y) \<Longrightarrow> list_all P (filter_map f xs)"
  by (induction xs) (auto split: option.split)

lemma length_filter_map: "length (filter_map f xs) \<le> length xs"
  by (induction xs) (auto split: option.split)

text \<open>The number of directory entries fits memory.\<close>

definition small_host :: "host \<Rightarrow> bool" where
  "small_host h \<longleftrightarrow> (case fs_read_dir h SYS_CLASS_NET of Err _ \<Rightarrow> True | Ok entries \<Rightarrow> length entries < 2 ^ 31)"

lemma scan_networks_ok:
  assumes "scan_networks h k_addresses k_route selection = Some (Ok networks)" and "small_host h"
  shows "list_all network_ok networks" and "length networks < 2 ^ 31"
proof -
  have "list_all network_ok networks \<and> length networks < 2 ^ 31"
  proof (cases selection)
    case None
    then obtain entries where entries: "fs_read_dir h SYS_CLASS_NET = Ok entries"
      and networks: "networks = filter_map (active_network h (default_ipv4_interface h))
        (sort_key entry_name (filter_map result_option entries))"
      using assms(1) by (auto simp: scan_networks_def active_networks_def Let_def split: result.splits if_splits)
    have "length networks \<le> length (sort_key entry_name (filter_map result_option entries))"
      unfolding networks by (rule length_filter_map)
    also have "\<dots> \<le> length entries"
      by (simp add: length_filter_map)
    finally have "length networks < 2 ^ 31"
      using assms(2) entries by (simp add: small_host_def)
    moreover have "list_all network_ok networks"
      unfolding networks by (rule list_all_filter_map) (rule active_network_ok)
    ultimately show ?thesis
      by simp
  next
    case (Some v)
    with assms(1) obtain reply where
      "scan_cidr h k_addresses k_route v = Some reply \<or> scan_interface h v = reply"
      and "(case reply of Err e \<Rightarrow> Err e | Ok n \<Rightarrow> Ok [n]) = Ok networks"
      by (auto simp: scan_networks_def split: if_splits)
    then obtain n where n: "networks = [n]"
      and "scan_cidr h k_addresses k_route v = Some (Ok n) \<or> scan_interface h v = Ok n"
      by (cases reply) auto
    then have "network_ok n"
      using scan_cidr_ok scan_interface_ok by blast
    with n show ?thesis
      by simp
  qed
  then show "list_all network_ok networks" and "length networks < 2 ^ 31"
    by simp_all
qed

lemma scan_arguments_retries: "parse_scan_arguments arguments = Ok a \<Longrightarrow> unat (sa_retries a) \<le> 10"
  using scan_arguments_from_limits [of arguments scan_defaults a]
  by (simp add: parse_scan_arguments_def scan_limits_def scan_defaults_def word_le_nat_alt)

definition shown_by :: "scan_filter option \<Rightarrow> ipv4_addr set \<Rightarrow> neighbor \<Rightarrow> bool" where
  "shown_by f changed n \<longleftrightarrow>
    (case (f, n_address n) of
       (None, _) \<Rightarrow> True
     | (Some Changed, V4 a) \<Rightarrow> a \<in> changed
     | (Some Changed, V6 _) \<Rightarrow> False
     | (Some Unchanged, V4 a) \<Rightarrow> a \<notin> changed
     | (Some Unchanged, V6 _) \<Rightarrow> True)"

lemma retained_shown: "retained f r = filter (shown_by f (sr_changed r)) (sr_neighbors r)"
proof (cases f)
  case (Some g)
  then show ?thesis
    unfolding retained_def option.case
    by (cases g) (auto intro!: filter_cong simp: shown_by_def Let_def split: ip_addr.splits)
qed (simp add: retained_def shown_by_def)

text \<open>C12: \<open>networkrs scan\<close> never sends more than 40960 probes whatever its arguments, the host and the kernel
  say; all of them go to foreign host addresses of the chosen networks that were not excluded, no
  probe is sent when the arguments are refused, and the neighbors of the report are those of the
  scan that the filter asks for, resolved, on the chosen networks and in order.\<close>

theorem scan_command_bounded:
  assumes "small_host h" and "scan_command h e arguments = Some (outcome, probes)"
  shows "length probes \<le> 40960
    \<and> (case parse_scan_arguments arguments of
         Err err \<Rightarrow> outcome = Err err \<and> probes = []
       | Ok a \<Rightarrow> set probes \<inter> sa_excluded a = {}
           \<and> (case outcome of
                Err _ \<Rightarrow> True
              | Ok r \<Rightarrow>
                  scan_networks h (e_addresses e) (e_route e) (sa_selection a) = Some (Ok (rp_networks r))
                  \<and> set probes \<subseteq> (\<Union>n \<in> set (rp_networks r). set (targets n))
                  \<and> rp_neighbors r = filter (shown_by (sa_filter a) (sr_changed (rp_result r))) (sr_neighbors (rp_result r))
                  \<and> list_all (is_neighbor_on_networks (rp_networks r)) (rp_neighbors r)
                  \<and> sorted (map neighbor_key (rp_neighbors r))))"
proof (cases "parse_scan_arguments arguments")
  case (Err err)
  with assms(2) show ?thesis
    by (auto simp: scan_command_def)
next
  case (Ok a)
  obtain reply where reply: "scan_networks h (e_addresses e) (e_route e) (sa_selection a) = Some reply"
    using assms(2) Ok by (cases "scan_networks h (e_addresses e) (e_route e) (sa_selection a)")
      (auto simp: scan_command_def)
  show ?thesis
  proof (cases reply)
    case (Err err)
    with assms(2) Ok reply show ?thesis
      by (auto simp: scan_command_def)
  next
    case networks: (Ok networks)
    from assms(2) Ok reply networks obtain result where
      run: "scan (e_sysconf e) (e_before e) (e_after e) (e_bind_error e) (e_elapsed e) networks (options_of a) =
        Some (result, probes)"
      and outcome: "outcome = (case result of Err err \<Rightarrow> Err err
        | Ok r \<Rightarrow> Ok \<lparr>rp_arguments = a, rp_networks = networks, rp_neighbors = retained (sa_filter a) r, rp_result = r\<rparr>)"
      by (auto simp: scan_command_def)
    note ok = scan_networks_ok [OF reply [unfolded networks] assms(1)]
    note trace = scan_trace [OF ok run]
    have "length probes \<le> 40960"
      using trace(1) scan_arguments_retries [OF Ok] by (simp add: options_of_def)
    moreover have "list_all (is_neighbor_on_networks networks) (retained (sa_filter a) r)
        \<and> sorted (map neighbor_key (retained (sa_filter a) r))" if "result = Ok r" for r
      using scan_outcome(2,3) [OF run [unfolded that]]
      by (auto simp: retained_shown list_all_iff intro: sorted_filter)
    ultimately show ?thesis
      using trace(2) Ok reply networks outcome
      by (cases result) (auto simp: options_of_def retained_shown)
  qed
qed

definition point_to_point_host :: host where
  "point_to_point_host =
    \<lparr>fs_is_dir = \<lambda>_. True, fs_read_dir = \<lambda>_. Ok [Ok ''/sys/class/net/ppp0''], fs_read_to_string = \<lambda>_. Ok ''1'',
     fs_exists = \<lambda>path. path = ''/sys/class/net/ppp0'',
     h_ioctl = Some (\<lambda>request _.
       Some (if request = SIOCGIFADDR then [0, 0, 10, 0, 0, 0] else [0, 0, 255, 255, 255, 254]))\<rparr>"

theorem scan_command_bounded_witness:
  "let k = example_kernel (packets [[done_message REQUEST_SEQUENCE]]);
       e = \<lparr>e_sysconf = 100, e_addresses = k, e_route = k, e_before = k, e_after = k, e_bind_error = None, e_elapsed = 5\<rparr>
    in \<exists>r. scan_command point_to_point_host e [''ppp0''] = Some (Ok r, [0x0A000001])
      \<and> sorted (map neighbor_key (rp_neighbors r))"
proof -
  let ?k = "example_kernel (packets [[done_message REQUEST_SEQUENCE]])"
  let ?e = "\<lparr>e_sysconf = 100, e_addresses = ?k, e_route = ?k, e_before = ?k, e_after = ?k, e_bind_error = None, e_elapsed = 5\<rparr>"
  let ?n = "network_new ''ppp0'' 1 0x0A000000 31"
  have "packets_ok (64 * 1024) [[done_message REQUEST_SEQUENCE]]"
    by (simp add: packets_ok_def align_to_4_def)
  from neighbors_complete [OF answers_example this, where ns = "[]" and sysconf = 100]
  have empty: "neighbors 100 ?k AF_INET = Some (Ok [])"
    by simp
  have parsed: "parse_scan_arguments [''ppp0''] = Ok (scan_defaults\<lparr>sa_selection := Some ''ppp0''\<rparr>)"
    by code_simp
  have one: "read_trimmed_at point_to_point_host path = Some ''1''" for path
    using trim_padded [of "''1''" "[]" "[]"]
    by (simp add: read_trimmed_at_def point_to_point_host_def trimmed_def ascii_blank_def blank_def)
  have sys: "path_join SYS_CLASS_NET ''ppp0'' = ''/sys/class/net/ppp0''"
      "fs_exists point_to_point_host ''/sys/class/net/ppp0''"
      "\<not> fs_exists point_to_point_host (path_join ''/sys/class/net/ppp0'' ''wireless'')"
    by code_simp+
  have address: "ipv4_address point_to_point_host ''ppp0'' = Some (0x0A000000, 31)"
    by code_simp
  have "parse_i32 ''1'' = Some 1"
    by (simp add: parse_i32_def from_str_radix_def to_digit_def)
  then have interface: "scan_interface point_to_point_host ''ppp0'' = Ok ?n"
    by (simp add: scan_interface_def sys one interface_kind_def address)
  have count: "target_count ?n = 1"
    by code_simp
  have "host_bounds ?n = (0x0A000000, 0x0A000001)"
    by code_simp
  then have passes: "probe_trace (options_of (scan_defaults\<lparr>sa_selection := Some ''ppp0''\<rparr>)) [?n] = [0x0A000001]"
    using address_range_pair [of "0x0A000000"]
    by (simp add: probe_trace_def probes_of_network_def network_new_def for_cidr_def Let_def options_of_def
        scan_defaults_def)
  have run: "\<exists>r. scan_command point_to_point_host ?e [''ppp0''] = Some (Ok r, [0x0A000001])"
    using empty by (simp add: scan_command_def parsed scan_networks_def interface scan_def count passes)
  have "small_host point_to_point_host"
    by (simp add: small_host_def point_to_point_host_def)
  from scan_command_bounded [OF this] run show ?thesis
    by (fastforce simp: parsed Let_def)
qed

end
