(* ===== verification/Cli_Json.thy ===== *)
theory Cli_Json
  imports Cli_Networks Json Ethtool Sock_Diag Oui Resolver
begin

text \<open>
  The JSON documents of \<open>networkrs --json\<close> (\<open>main.rs\<close>): one builder per record of the library, the
  documents of \<open>interfaces\<close>, \<open>all\<close>, \<open>scan\<close>, \<open>sockets\<close>, \<open>traffic\<close> and \<open>dns\<close>. The documents of \<open>check\<close>, \<open>probe\<close> and
  \<open>wifi\<close> are in \<open>Cli_Check\<close>, \<open>Cli_Probe_Output\<close> and \<open>Cli_Tools\<close>.
\<close>

section \<open>Numbers\<close>

text \<open>\<open>to_string\<close> of the unsigned types and of \<open>i32\<close>.\<close>

abbreviation show_word :: "'a::len word \<Rightarrow> string" where
  "show_word w \<equiv> decimal (unat w)"

abbreviation show_i32 :: "i32 \<Rightarrow> string" where
  "show_i32 i \<equiv> signed_decimal (sint i)"

definition optional_json_bool :: "bool option \<Rightarrow> json" where
  "optional_json_bool v = unwrap_or Null (map_option Bool v)"

fun json_ip_family :: "ip_addr \<Rightarrow> string" where
  "json_ip_family (V4 _) = ''ipv4''"
| "json_ip_family (V6 _) = ''ipv6''"

definition prefix_text :: "ip_addr \<times> u8 \<Rightarrow> string" where
  "prefix_text p = show_ip (fst p) @ ''/'' @ show_word (snd p)"

section \<open>Records of the kernel\<close>

definition json_link :: "link \<Rightarrow> json" where
  "json_link link = json_object
    [(''index'', json_number show_i32 (l_interface_index link)),
     (''name'', json_string (l_name link)),
     (''kind'', optional_string id (l_kind link)),
     (''hardwareType'', json_number show_word (l_hardware_type link)),
     (''flags'', json_string (l_flags link)),
     (''state'', json_string (l_operational_state link)),
     (''carrier'', optional_json_bool (l_carrier link)),
     (''mtu'', optional_number show_word (l_mtu link)),
     (''minimumMtu'', optional_number show_word (l_minimum_mtu link)),
     (''maximumMtu'', optional_number show_word (l_maximum_mtu link)),
     (''parentIndex'', optional_number show_i32 (l_parent_index link)),
     (''masterIndex'', optional_number show_i32 (l_master_index link)),
     (''qdisc'', optional_string id (l_qdisc link)),
     (''transmitQueueLength'', optional_number show_word (l_transmit_queue_length link)),
     (''alias'', optional_string id (l_alias link)),
     (''alternativeNames'', json_strings (l_alternative_names link)),
     (''vlanId'', optional_number show_word (l_vlan_id link)),
     (''group'', optional_number show_word (l_group link)),
     (''promiscuity'', optional_number show_word (l_promiscuity link)),
     (''transmitQueues'', optional_number show_word (l_transmit_queues link)),
     (''receiveQueues'', optional_number show_word (l_receive_queues link)),
     (''carrierChanges'', optional_number show_word (l_carrier_changes link)),
     (''carrierUpCount'', optional_number show_word (l_carrier_up_count link)),
     (''carrierDownCount'', optional_number show_word (l_carrier_down_count link)),
     (''physicalPort'', optional_string id (l_physical_port_name link)),
     (''parentDevice'', optional_string id (l_parent_device_name link)),
     (''parentBus'', optional_string id (l_parent_device_bus_name link))]"

definition json_address :: "address \<Rightarrow> json" where
  "json_address address = json_object
    [(''family'', json_string (json_ip_family (a_local address))),
     (''address'', json_string (show_ip (a_local address))),
     (''prefix'', json_number show_word (a_prefix address)),
     (''peer'', optional_string show_ip (a_peer address)),
     (''broadcast'', optional_string show_ip (a_broadcast address)),
     (''interfaceIndex'', json_number show_i32 (a_interface_index address)),
     (''label'', optional_string id (a_label address)),
     (''scope'', json_string (a_scope address)),
     (''flags'', json_string (a_flags address)),
     (''preferredLifetimeSeconds'', optional_number show_word (a_preferred_lifetime address)),
     (''validLifetimeSeconds'', optional_number show_word (a_valid_lifetime address))]"

definition json_next_hop :: "next_hop \<Rightarrow> json" where
  "json_next_hop next_hop = json_object
    [(''gateway'', optional_string show_ip (nh_gateway next_hop)),
     (''interfaceIndex'', json_number show_i32 (nh_interface_index next_hop)),
     (''weight'', json_number show_word (nh_weight next_hop)),
     (''flags'', json_string (nh_flags next_hop))]"

definition json_route :: "route \<Rightarrow> json" where
  "json_route route = json_object
    [(''family'', json_string (json_ip_family (r_destination route))),
     (''destination'', json_string (show_ip (r_destination route))),
     (''prefix'', json_number show_word (r_prefix route)),
     (''sourcePrefix'', unwrap_or Null (map_option (\<lambda>p. json_string (prefix_text p)) (r_source_prefix route))),
     (''gateway'', optional_string show_ip (r_gateway route)),
     (''interfaceIndex'', optional_number show_i32 (r_interface_index route)),
     (''metric'', optional_number show_word (r_metric route)),
     (''preferredSource'', optional_string show_ip (r_source route)),
     (''table'', json_number show_word (r_table route)),
     (''protocol'', json_string (r_protocol route)),
     (''scope'', json_string (r_scope route)),
     (''type'', json_string (r_kind route)),
     (''nextHops'', Array (map json_next_hop (r_next_hops route)))]"

definition json_rule :: "rule \<Rightarrow> json" where
  "json_rule rule = json_object
    [(''family'', json_string (case ru_family rule of Ipv4 \<Rightarrow> ''ipv4'' | Ipv6 \<Rightarrow> ''ipv6'')),
     (''priority'', json_number show_word (ru_priority rule)),
     (''source'', unwrap_or Null (map_option (\<lambda>p. json_string (prefix_text p)) (ru_source rule))),
     (''destination'', unwrap_or Null (map_option (\<lambda>p. json_string (prefix_text p)) (ru_destination rule))),
     (''inputInterface'', optional_string id (ru_input_interface rule)),
     (''outputInterface'', optional_string id (ru_output_interface rule)),
     (''fwmark'', optional_number show_word (ru_fwmark rule)),
     (''fwmask'', optional_number show_word (ru_fwmask rule)),
     (''table'', json_number show_word (ru_table rule)),
     (''action'', json_string (ru_action rule)),
     (''goto'', optional_number show_word (ru_goto rule)),
     (''flags'', json_string (ru_flags rule))]"

definition neighbor_members :: "(i32, string) map \<Rightarrow> neighbor \<Rightarrow> (string \<times> json) list" where
  "neighbor_members names neighbor =
    [(''family'', json_string (json_ip_family (n_address neighbor))),
     (''address'', json_string (show_ip (n_address neighbor))),
     (''linkAddress'', optional_string id (n_link_address neighbor)),
     (''interfaceIndex'', json_number show_i32 (n_interface_index neighbor)),
     (''interface'', json_string (interface_label names (n_interface_index neighbor))),
     (''state'', json_string (n_state neighbor)),
     (''flags'', json_string (n_flags neighbor)),
     (''protocol'', optional_string id (n_protocol neighbor)),
     (''type'', json_string (n_kind neighbor)),
     (''probes'', optional_number show_word (n_probes neighbor)),
     (''confirmedMillisecondsAgo'', optional_number show_word (n_confirmed_ms_ago neighbor)),
     (''usedMillisecondsAgo'', optional_number show_word (n_used_ms_ago neighbor)),
     (''updatedMillisecondsAgo'', optional_number show_word (n_updated_ms_ago neighbor)),
     (''referenceCount'', optional_number show_word (n_reference_count neighbor)),
     (''masterIndex'', optional_number show_i32 (n_master_index neighbor))]"

definition json_neighbor :: "(i32, string) map \<Rightarrow> neighbor \<Rightarrow> json" where
  "json_neighbor names neighbor = json_object (neighbor_members names neighbor)"

section \<open>Interfaces\<close>

definition read_number_at :: "host \<Rightarrow> string \<Rightarrow> u64 option" where
  "read_number_at h path = Option.bind (read_trimmed_at h path) parse_u64"

text \<open>One element of the array of \<open>json_interfaces\<close>.\<close>

definition json_interface :: "host \<Rightarrow> link \<Rightarrow> json" where
  "json_interface h link =
    (let path = path_join SYS_CLASS_NET (l_name link);
         counter = (\<lambda>what. optional_number show_word (read_number_at h (path_join path (''statistics/'' @ what))))
     in json_object
      [(''link'', json_link link),
       (''mac'', optional_string id (read_trimmed_at h (path_join path ''address''))),
       (''speedMbps'', optional_number show_word (read_number_at h (path_join path ''speed''))),
       (''duplex'', optional_string id (read_trimmed_at h (path_join path ''duplex''))),
       (''rxBytes'', counter ''rx_bytes''),
       (''txBytes'', counter ''tx_bytes''),
       (''rxPackets'', counter ''rx_packets''),
       (''txPackets'', counter ''tx_packets''),
       (''rxErrors'', counter ''rx_errors''),
       (''txErrors'', counter ''tx_errors''),
       (''rxDropped'', counter ''rx_dropped''),
       (''txDropped'', counter ''tx_dropped''),
       (''collisions'', counter ''collisions'')])"

definition json_interfaces :: "host \<Rightarrow> link list \<Rightarrow> json list" where
  "json_interfaces h ls = map (json_interface h) ls"

section \<open>Hardware\<close>

definition json_statistic :: "statistic \<Rightarrow> json" where
  "json_statistic statistic = json_object
    [(''group'', json_string (st_group statistic)),
     (''name'', json_string (st_name statistic)),
     (''value'', json_number show_word (st_value statistic))]"

definition json_hardware :: "device \<Rightarrow> json" where
  "json_hardware device = json_object
    [(''interfaceIndex'', json_number show_word (d_interface_index device)),
     (''interface'', json_string (d_name device)),
     (''driver'', optional_string id (d_driver device)),
     (''driverModule'', optional_string id (d_driver_module device)),
     (''driverVersion'', optional_string id (d_driver_version device)),
     (''port'', optional_string id (d_port device)),
     (''phyAddress'', optional_number show_word (d_phy_address device)),
     (''mdiX'', optional_string id (d_mdix device)),
     (''transceiver'', optional_string id (d_transceiver device)),
     (''speedMbps'', optional_number show_word (d_speed_mbps device)),
     (''duplex'', optional_string id (d_duplex device)),
     (''autonegotiation'', optional_json_bool (d_autonegotiation device)),
     (''lanes'', optional_number show_word (d_lanes device)),
     (''supportedModes'', json_strings (d_supported_modes device)),
     (''peerModes'', json_strings (d_peer_modes device)),
     (''hardwareFeatures'', json_strings (d_hardware_features device)),
     (''wantedFeatures'', json_strings (d_wanted_features device)),
     (''activeFeatures'', json_strings (d_active_features device)),
     (''eeeEnabled'', optional_json_bool (d_eee_enabled device)),
     (''eeeActive'', optional_json_bool (d_eee_active device)),
     (''eeeTxLpiEnabled'', optional_json_bool (d_eee_tx_lpi_enabled device)),
     (''eeeTxLpiTimerMicroseconds'', optional_number show_word (d_eee_tx_lpi_timer_us device)),
     (''eeeModes'', json_strings (d_eee_modes device)),
     (''eeePeerModes'', json_strings (d_eee_peer_modes device)),
     (''statistics'', Array (map json_statistic (d_statistics device)))]"

section \<open>Traffic\<close>

definition json_direction_rate :: "direction_rate \<Rightarrow> json" where
  "json_direction_rate r = json_object
    [(''bytesPerSecond'', json_number show_word (dr_bytes_per_second r)),
     (''packetsPerSecond'', json_number show_word (dr_packets_per_second r)),
     (''errors'', json_number show_word (dr_errors r)),
     (''dropped'', json_number show_word (dr_dropped r))]"

text \<open>\<open>Duration::as_millis\<close> of a number of nanoseconds.\<close>

definition as_millis :: "nat \<Rightarrow> nat" where
  "as_millis nanos = nanos div 1000000"

definition json_traffic_sample :: "sample \<Rightarrow> json" where
  "json_traffic_sample s = json_object
    [(''elapsedMilliseconds'', json_number decimal (as_millis (s_elapsed s))),
     (''interfaces'', Array (map (\<lambda>interface. json_object
        [(''interface'', json_string (ir_interface interface)),
         (''received'', json_direction_rate (ir_received interface)),
         (''transmitted'', json_direction_rate (ir_transmitted interface))]) (s_interfaces s)))]"

section \<open>Sockets\<close>

definition json_tcp_diagnostic :: "tcp_diagnostic \<Rightarrow> json" where
  "json_tcp_diagnostic tcp = json_object
    [(''rtoMicroseconds'', json_number show_word (td_rto_us tcp)),
     (''rttMicroseconds'', json_number show_word (td_rtt_us tcp)),
     (''rttVarianceMicroseconds'', json_number show_word (td_rtt_variance_us tcp)),
     (''sendMss'', json_number show_word (td_send_mss tcp)),
     (''receiveMss'', json_number show_word (td_receive_mss tcp)),
     (''unacked'', json_number show_word (td_unacked tcp)),
     (''lost'', json_number show_word (td_lost tcp)),
     (''retransmitted'', json_number show_word (td_retransmitted tcp)),
     (''totalRetransmits'', json_number show_word (td_total_retransmits tcp)),
     (''sendSlowStartThreshold'', json_number show_word (td_send_ssthresh tcp)),
     (''sendCongestionWindow'', json_number show_word (td_send_cwnd tcp)),
     (''pathMtu'', json_number show_word (td_path_mtu tcp))]"

text \<open>\<open>SocketAddr::to_string\<close>; without a scope the form for IPv6 is bracketed.\<close>

fun show_endpoint :: "socket_addr \<Rightarrow> string" where
  "show_endpoint a =
    (case sa_ip a of
       V4 ip \<Rightarrow> show_ipv4 ip @ '':'' @ show_word (sa_port a)
     | V6 ip \<Rightarrow> ''['' @ show_ipv6 ip @ '']:'' @ show_word (sa_port a))"

definition format_socket_endpoint :: "socket_addr \<Rightarrow> string" where
  "format_socket_endpoint a =
    (if is_unspecified (sa_ip a) then
       (if sa_port a = 0 then ''*'' else ''*:'' @ show_word (sa_port a))
     else show_endpoint a)"

definition user_names :: "(string \<Rightarrow> string result) \<Rightarrow> (u32, string) map" where
  "user_names read_to_string =
    (case read_to_string ''/etc/passwd'' of
       Err _ \<Rightarrow> Map.empty
     | Ok contents \<Rightarrow>
         map_of (rev (filter_map (\<lambda>line.
             case split_char (CHR '':'') line of
               name # _ # uid # _ \<Rightarrow> map_option (\<lambda>u. (u, name)) (parse_u32 uid)
             | _ \<Rightarrow> None) (lines contents))))"

definition lower_protocol :: "protocol \<Rightarrow> string" where
  "lower_protocol protocol = (case protocol of Tcp \<Rightarrow> ''tcp'' | Udp \<Rightarrow> ''udp'')"

definition json_process :: "socket_process \<Rightarrow> json" where
  "json_process process = json_object
    [(''pid'', json_number show_word (sp_pid process)), (''name'', json_string (sp_name process))]"

definition json_socket ::
  "(u32, string) map \<Rightarrow> attribution \<Rightarrow> (protocol \<times> socket_addr \<times> socket_addr, socket_diagnostic) map
    \<Rightarrow> network_socket \<Rightarrow> json" where
  "json_socket users processes diagnostics socket =
    (let diagnostic = diagnostics (s_protocol socket, s_local socket, s_remote socket);
         tcp = Option.bind diagnostic sd_tcp
     in json_object
      [(''family'', json_string (json_ip_family (sa_ip (s_local socket)))),
       (''protocol'', json_string (lower_protocol (s_protocol socket))),
       (''local'', json_string (format_socket_endpoint (s_local socket))),
       (''remote'', json_string (format_socket_endpoint (s_remote socket))),
       (''state'', json_string (s_state socket)),
       (''uid'', json_number show_word (s_uid socket)),
       (''user'', optional_string id (users (s_uid socket))),
       (''inode'', json_number show_word (s_inode socket)),
       (''processes'', Array (map json_process (unwrap_or [] (processes (s_inode socket))))),
       (''receiveQueueBytes'', optional_number show_word (map_option sd_receive_queue diagnostic)),
       (''sendQueueBytes'', optional_number show_word (map_option sd_send_queue diagnostic)),
       (''interfaceIndex'', optional_number show_word
          (option_filter (\<lambda>index. index \<noteq> 0) (map_option sd_interface_index diagnostic))),
       (''timer'', optional_string id (map_option sd_timer diagnostic)),
       (''timerExpiresMilliseconds'', optional_number show_word (map_option sd_expires_ms diagnostic)),
       (''retransmits'', optional_number show_word (map_option sd_retransmits diagnostic)),
       (''congestion'', optional_string id (Option.bind diagnostic sd_congestion)),
       (''tcp'', unwrap_or Null (map_option json_tcp_diagnostic tcp))])"

definition diagnostics_map ::
  "socket_diagnostic list \<Rightarrow> (protocol \<times> socket_addr \<times> socket_addr, socket_diagnostic) map" where
  "diagnostics_map ds = map_of (rev (map (\<lambda>d. ((sd_protocol d, sd_local d, sd_remote d), d)) ds))"

text \<open>The files, the processes of \<open>/proc\<close>, the outcome of the diagnostics and the text of an error
  are parameters; the sockets of the view are attributed, diagnosed and written.\<close>

definition sockets_json ::
  "(string \<Rightarrow> string result) \<Rightarrow> proc_entry list option \<Rightarrow> socket_diagnostic list result \<Rightarrow> (io_error \<Rightarrow> string)
    \<Rightarrow> view \<Rightarrow> json result" where
  "sockets_json read_to_string proc_dir diagnosed show_error view =
    (case ip_sockets read_to_string of
       Err e \<Rightarrow> Err e
     | Ok all \<Rightarrow>
         let shown = filter (view_matches view) all;
             inodes = set (filter_map (\<lambda>s. if s_inode s \<noteq> 0 then Some (s_inode s) else None) shown);
             processes = socket_processes proc_dir inodes;
             diagnostics = (case diagnosed of Ok ds \<Rightarrow> diagnostics_map ds | Err _ \<Rightarrow> Map.empty);
             diagnostic_error = (case diagnosed of Ok _ \<Rightarrow> None | Err e \<Rightarrow> Some (show_error e))
         in Ok (json_object
              [(''diagnosticsAvailable'', Bool (diagnostic_error = None)),
               (''diagnosticError'', optional_string id diagnostic_error),
               (''sockets'', Array (map (json_socket (user_names read_to_string) processes diagnostics) shown))]))"

section \<open>Name resolution\<close>

definition RESOLV_CONF :: string where
  "RESOLV_CONF = ''/etc/resolv.conf''"

record dns_configuration =
  dc_nameservers :: "string list"
  dc_search :: "string list"
  dc_domain :: "string option"
  dc_options :: "string list"

definition dns_line :: "string \<Rightarrow> dns_configuration \<Rightarrow> dns_configuration" where
  "dns_line raw c =
    (let line = trim raw
     in if line = [] \<or> starts_with (CHR ''#'') line \<or> starts_with (CHR '';'') line then c
        else case split_whitespace line of
          [] \<Rightarrow> c
        | directive # vs \<Rightarrow>
            if directive = ''nameserver'' then c\<lparr>dc_nameservers := dc_nameservers c @ vs\<rparr>
            else if directive = ''search'' then c\<lparr>dc_search := dc_search c @ vs\<rparr>
            else if directive = ''domain'' then c\<lparr>dc_domain := first_opt vs\<rparr>
            else if directive = ''options'' then c\<lparr>dc_options := dc_options c @ vs\<rparr>
            else c)"

definition dns_configuration_of :: "string \<Rightarrow> dns_configuration" where
  "dns_configuration_of contents =
    fold dns_line (lines contents)
      \<lparr>dc_nameservers = [], dc_search = [], dc_domain = None, dc_options = []\<rparr>"

text \<open>The canonical path is what \<open>fs::canonicalize\<close> finds.\<close>

definition json_dns :: "host \<Rightarrow> string option \<Rightarrow> json" where
  "json_dns h canonical_path =
    (let c = dns_configuration_of (case fs_read_to_string h RESOLV_CONF of Ok contents \<Rightarrow> contents | Err _ \<Rightarrow> [])
     in json_object
      [(''configuration'', json_string (unwrap_or RESOLV_CONF canonical_path)),
       (''nameservers'', json_strings (dc_nameservers c)),
       (''searchDomains'', json_strings (dc_search c)),
       (''domain'', optional_string id (dc_domain c)),
       (''options'', json_strings (dc_options c))])"

section \<open>A scan\<close>

definition json_scan_neighbor ::
  "(i32, string) map \<Rightarrow> vendors \<Rightarrow> (ip_addr, string) map \<Rightarrow> ipv4_addr set \<Rightarrow> neighbor \<Rightarrow> json" where
  "json_scan_neighbor names vendors resolved changed neighbor = json_object
    (neighbor_members names neighbor @
     [(''name'', optional_string id (resolved (n_address neighbor))),
      (''vendor'', optional_string id (Option.bind (n_link_address neighbor) (\<lambda>address. vendor_of address vendors))),
      (''changed'', Bool (case n_address neighbor of V4 address \<Rightarrow> address \<in> changed | V6 _ \<Rightarrow> False))])"

definition json_network :: "network \<Rightarrow> json" where
  "json_network n = json_object
    [(''interface'', json_string (w_interface n)),
     (''interfaceIndex'', json_number show_i32 (w_interface_index n)),
     (''source'', json_string (show_ipv4 (w_address n))),
     (''network'', json_string (show_ipv4 (w_network n))),
     (''prefix'', json_number show_word (w_prefix n)),
     (''targets'', json_number show_word (target_count n))]"

fun scan_filter_name :: "scan_filter \<Rightarrow> string" where
  "scan_filter_name Changed = ''changed''"
| "scan_filter_name Unchanged = ''unchanged''"

text \<open>The document of a report; \<open>getnameinfo\<close> is the parameter of \<open>Resolver\<close>.\<close>

definition scan_document ::
  "host \<Rightarrow> (nat \<Rightarrow> bool) \<Rightarrow> (bytes \<Rightarrow> bytes option) \<Rightarrow> scan_report \<Rightarrow> json" where
  "scan_document h panics getnameinfo r =
    (let resolved = (if sa_resolve_names (rp_arguments r)
           then reverse_names panics (reverse_name getnameinfo) (map n_address (rp_neighbors r)) else Map.empty);
         changed = sr_changed (rp_result r)
     in json_object
      [(''networks'', Array (map json_network (rp_networks r))),
       (''neighbors'', Array (map (json_scan_neighbor (interface_names h) (load_vendors (fs_read_to_string h)) resolved changed)
          (rp_neighbors r))),
       (''filter'', optional_string scan_filter_name (sa_filter (rp_arguments r))),
       (''changed'', json_number decimal (card changed)),
       (''elapsedMilliseconds'', json_number decimal (as_millis (sr_elapsed (rp_result r))))])"

definition scan_json ::
  "host \<Rightarrow> surroundings \<Rightarrow> (nat \<Rightarrow> bool) \<Rightarrow> (bytes \<Rightarrow> bytes option) \<Rightarrow> string list
    \<Rightarrow> (json result \<times> ipv4_addr list) option" where
  "scan_json h e panics getnameinfo arguments =
    map_option (\<lambda>(outcome, probes).
        (case outcome of Err err \<Rightarrow> Err err | Ok r \<Rightarrow> Ok (scan_document h panics getnameinfo r), probes))
      (scan_command h e arguments)"

section \<open>Everything\<close>

text \<open>One table of the document of \<open>all\<close>, or its error as the text that ends the program; the display
  form of an error is a parameter.\<close>

definition table_of ::
  "(io_error \<Rightarrow> string) \<Rightarrow> string \<Rightarrow> ('a \<Rightarrow> json) \<Rightarrow> 'a list result option
    \<Rightarrow> (json \<Rightarrow> (string + json) option) \<Rightarrow> (string + json) option" where
  "table_of show_error what to_json reply rest =
    (case reply of
       None \<Rightarrow> None
     | Some (Err e) \<Rightarrow> Some (Inl (''cannot read '' @ what @ '': '' @ show_error e))
     | Some (Ok xs) \<Rightarrow> rest (Array (map to_json xs)))"

record kernels =
  kk_sysconf :: u64
  kk_links :: kernel
  kk_addresses :: "kernel \<times> kernel"
  kk_routes :: "kernel \<times> kernel"
  kk_rules :: "kernel \<times> kernel"
  kk_neighbors :: "kernel \<times> kernel"

definition json_all :: "(io_error \<Rightarrow> string) \<Rightarrow> host \<Rightarrow> string option \<Rightarrow> kernels \<Rightarrow> (string + json) option" where
  "json_all show_error h canonical_path k =
    table_of show_error ''interfaces'' (json_interface h) (links (kk_links k)) (\<lambda>interfaces.
    table_of show_error ''addresses'' json_address (case_prod ip_addresses (kk_addresses k)) (\<lambda>addresses.
    table_of show_error ''routes'' json_route (case_prod ip_routes (kk_routes k)) (\<lambda>routes.
    table_of show_error ''rules'' json_rule (case_prod ip_rules (kk_rules k)) (\<lambda>rules.
    table_of show_error ''neighbors'' (json_neighbor (interface_names h))
      (case_prod (ip_neighbors (kk_sysconf k)) (kk_neighbors k)) (\<lambda>neighbors.
    Some (Inr (json_object
      [(''system'', json_object [(''hostname'', unwrap_or Null (map_option json_string (read_trimmed_at h ''/etc/hostname'')))]),
       (''interfaces'', interfaces), (''addresses'', addresses), (''routes'', routes), (''rules'', rules),
       (''neighbors'', neighbors), (''dns'', json_dns h canonical_path)])))))))"

end
