(* ===== verification/Cli_Json_Spec.thy ===== *)
theory Cli_Json_Spec
  imports Cli_Json
begin

text \<open>
  Every document of the command line is well formed: its numbers are numbers, no object has a member
  twice, it is one line, and it is read back as the value it was built as.
\<close>

section \<open>Well-formed documents\<close>

fun keys_distinct :: "json \<Rightarrow> bool" where
  "keys_distinct (Array vs) = list_all keys_distinct vs"
| "keys_distinct (Object members) = (distinct (map fst members) \<and> list_all (\<lambda>m. keys_distinct (snd m)) members)"
| "keys_distinct _ = True"

definition document_ok :: "json \<Rightarrow> bool" where
  "document_ok v \<longleftrightarrow> json_ok v \<and> keys_distinct v"

named_theorems document_simps

lemma document_leaves [document_simps]:
  "document_ok Null" "document_ok (Bool b)" "document_ok (json_string s)" "document_ok (json_strings ss)"
  "document_ok (optional_string f x)" "document_ok (optional_json_bool y)"
  by (auto simp: document_ok_def json_string_def json_strings_def optional_string_def optional_json_bool_def
      list_all_iff split: option.split, (cases x; simp add: json_string_def)+, (cases y; simp)+)

lemma document_number [document_simps]:
  "document_ok (json_number decimal n)" "document_ok (json_number show_word w)" "document_ok (json_number show_i32 i)"
  by (simp_all add: document_ok_def json_number_def number_ok_decimal number_ok_signed_decimal)

lemma document_optional_number [document_simps]:
  "document_ok (optional_number show_word x)" "document_ok (optional_number show_i32 y)"
  by (cases x; simp add: optional_number_def document_number document_leaves(1))
    (cases y; simp add: optional_number_def document_number document_leaves(1))

lemma document_array [document_simps]: "document_ok (Array vs) \<longleftrightarrow> list_all document_ok vs"
  by (auto simp: document_ok_def list_all_iff)

lemma document_object [document_simps]:
  "document_ok (json_object members) \<longleftrightarrow> distinct (map fst members) \<and> list_all (\<lambda>m. document_ok (snd m)) members"
  by (auto simp: document_ok_def json_object_def list_all_iff)

lemma document_optional [document_simps]:
  "(\<And>x. v = Some x \<Longrightarrow> document_ok (f x)) \<Longrightarrow> document_ok (unwrap_or Null (map_option f v))"
  by (cases v) (simp_all add: document_ok_def)

lemma document_map [document_simps]: "(\<And>x. document_ok (f x)) \<Longrightarrow> list_all document_ok (map f xs)"
  by (simp add: list_all_iff)

lemma documents_of_records:
  "document_ok (json_link l)" "document_ok (json_address a)" "document_ok (json_rule ru)"
  "document_ok (json_direction_rate dr)" "document_ok (json_tcp_diagnostic tcp)" "document_ok (json_next_hop hop)"
  "document_ok (json_statistic st)" "document_ok (json_process sp)" "document_ok (json_network w)"
  by (simp_all add: json_link_def json_address_def json_rule_def json_direction_rate_def json_tcp_diagnostic_def
      json_next_hop_def json_statistic_def json_process_def json_network_def document_simps)

lemma documents_with_arrays:
  "document_ok (json_route r)" "document_ok (json_hardware d)" "document_ok (json_traffic_sample s)"
  "document_ok (json_dns h path)"
  by (simp_all add: json_route_def json_hardware_def json_traffic_sample_def json_dns_def documents_of_records
      document_simps Let_def)

lemma documents_of_neighbors:
  "document_ok (json_neighbor names n)" "document_ok (json_scan_neighbor names vendors resolved changed n)"
  by (simp_all add: json_neighbor_def json_scan_neighbor_def neighbor_members_def document_simps)

lemma document_of_interface: "document_ok (json_interface h l)"
  by (simp add: json_interface_def documents_of_records document_simps Let_def)

lemma document_of_socket: "document_ok (json_socket users processes diagnostics s)"
  by (simp add: json_socket_def documents_of_records document_simps Let_def)

lemmas record_documents =
  documents_of_records documents_with_arrays documents_of_neighbors document_of_interface document_of_socket

section \<open>What is printed\<close>

text \<open>A document that is printed on one line, without a member given twice, and read back as itself.\<close>

definition reads_back :: "json \<Rightarrow> bool" where
  "reads_back v \<longleftrightarrow>
    read_json (render v) = Some v \<and> lines (render v @ [newline]) = [render v] \<and> keys_distinct v"

lemma document_reads_back: "document_ok v \<Longrightarrow> reads_back v"
proof -
  assume ok: "document_ok v"
  have "ends_number []"
    by (simp add: ends_number_def)
  then have "read_json (render v) = Some v"
    using read_value_render [of v "length (render v)" "[]"] ok by (simp add: read_json_def document_ok_def)
  then show ?thesis
    using ok render_single_line [of v] by (simp add: reads_back_def document_ok_def)
qed

lemma document_of_scan: "document_ok (scan_document h panics getnameinfo r)"
  by (simp add: scan_document_def record_documents document_simps Let_def list_all_iff)

lemma document_of_sockets: "sockets_json read proc_dir diagnosed show_error view = Ok v \<Longrightarrow> document_ok v"
  by (auto simp: sockets_json_def record_documents document_simps Let_def list_all_iff split: result.splits)

lemma table_of_document:
  assumes "table_of show_error what f reply rest = Some (Inr v)" and "\<And>x. document_ok (f x)"
  obtains t where "document_ok t" and "rest t = Some (Inr v)"
proof -
  from assms(1) obtain xs where "reply = Some (Ok xs)" and "rest (Array (map f xs)) = Some (Inr v)"
    by (auto simp: table_of_def split: option.splits result.splits)
  moreover have "document_ok (Array (map f xs))"
    using assms(2) by (simp add: document_simps list_all_iff)
  ultimately show ?thesis
    using that by blast
qed

lemma document_of_all:
  assumes "json_all show_error h path k = Some (Inr v)"
  shows "document_ok v"
  using assms unfolding json_all_def
  by (elim table_of_document) (auto simp: record_documents document_simps)

text \<open>Whatever the kernel, the files and the resolver answer, every document that \<open>networkrs --json\<close> prints
  for \<open>all\<close>, \<open>scan\<close>, \<open>sockets\<close>, \<open>traffic\<close>, \<open>hardware\<close>, \<open>links\<close>, \<open>addresses\<close>, \<open>routes\<close>, \<open>rules\<close> and \<open>neighbors\<close> is
  one line of well-formed JSON without duplicate members that is read back as the same value.\<close>

theorem documents_read_back:
  "(case json_all show_error h path k of Some (Inr v) \<Rightarrow> reads_back v | _ \<Rightarrow> True)
    \<and> (case scan_json h e panics getnameinfo arguments of Some (Ok v, _) \<Rightarrow> reads_back v | _ \<Rightarrow> True)
    \<and> (case sockets_json read proc_dir diagnosed show_error view of Ok v \<Rightarrow> reads_back v | _ \<Rightarrow> True)
    \<and> reads_back (json_traffic_sample s) \<and> reads_back (Array (map json_hardware ds))
    \<and> reads_back (Array (map json_link ls)) \<and> reads_back (Array (map json_address as))
    \<and> reads_back (Array (map json_route rs)) \<and> reads_back (Array (map json_rule us))
    \<and> reads_back (Array (map (json_neighbor names) ns)) \<and> reads_back (json_dns h path)"
proof (intro conjI)
  show "case json_all show_error h path k of Some (Inr v) \<Rightarrow> reads_back v | _ \<Rightarrow> True"
    by (auto intro: document_reads_back document_of_all split: option.split sum.split)
  show "case scan_json h e panics getnameinfo arguments of Some (Ok v, _) \<Rightarrow> reads_back v | _ \<Rightarrow> True"
    by (cases "scan_command h e arguments")
      (auto simp: scan_json_def document_reads_back [OF document_of_scan] split: result.split)
  show "case sockets_json read proc_dir diagnosed show_error view of Ok v \<Rightarrow> reads_back v | _ \<Rightarrow> True"
    by (auto intro: document_reads_back document_of_sockets split: result.split)
qed (rule document_reads_back; simp add: record_documents document_simps list_all_iff)+

end
