(* ===== verification/Cli_Watch.thy ===== *)
theory Cli_Watch
  imports Cli_Json_Spec Netlink_Events Cli_Networks_Spec
begin

text \<open>
  \<open>networkrs watch\<close> (\<open>main.rs\<close>): the closures that \<open>watch\<close> and \<open>watch_json\<close> hand to \<open>watch_events\<close>. Both
  keep a map of interface names that follows the link events, and write a line for the events of
  the filter. The state of the handler is that map with the lines written so far.
\<close>

section \<open>The lines of the table output\<close>

text \<open>\<open>emit\<close>.\<close>

definition emits :: "watch_filter option \<Rightarrow> network_event \<Rightarrow> bool" where
  "emits f event = (case f of None \<Rightarrow> True | Some g \<Rightarrow> watch_matches g event)"

text \<open>The map after a link event, given the name that is known for it.\<close>

definition track_name :: "bool \<Rightarrow> i32 \<Rightarrow> string option \<Rightarrow> (i32, string) map \<Rightarrow> (i32, string) map" where
  "track_name removed index name names =
    (if removed then names(index := None)
     else case name of None \<Rightarrow> names | Some n \<Rightarrow> names(index \<mapsto> n))"

fun link_line :: "bool \<Rightarrow> string \<Rightarrow> bool \<Rightarrow> string" where
  "link_line removed shown up =
    (if removed then ''link removed '' @ shown
     else ''link changed '' @ shown @ '' '' @ (if up then ''up'' else ''down''))"

definition route_line :: "(i32, string) map \<Rightarrow> bool \<Rightarrow> route \<Rightarrow> string" where
  "route_line names removed route =
    ''route '' @ (if removed then ''removed'' else ''changed'') @ '' ''
    @ (if is_unspecified (r_destination route) \<and> r_prefix route = 0 then ''default''
       else prefix_text (r_destination route, r_prefix route))
    @ unwrap_or [] (map_option (\<lambda>g. '' via '' @ show_ip g) (r_gateway route))
    @ unwrap_or [] (map_option (\<lambda>i. '' dev '' @ interface_label names i) (r_interface_index route))
    @ unwrap_or [] (map_option (\<lambda>m. '' metric '' @ show_word m) (r_metric route))"

definition neighbor_line :: "(i32, string) map \<Rightarrow> vendors \<Rightarrow> bool \<Rightarrow> neighbor \<Rightarrow> string" where
  "neighbor_line names vendors removed neighbor =
    ''neighbor '' @ (if removed then ''removed'' else ''changed'') @ '' '' @ show_ip (n_address neighbor)
    @ '' dev '' @ interface_label names (n_interface_index neighbor)
    @ unwrap_or [] (map_option (\<lambda>a. '' lladdr '' @ a) (n_link_address neighbor))
    @ unwrap_or [] (map_option (\<lambda>v. '' vendor '' @ v)
        (Option.bind (n_link_address neighbor) (\<lambda>a. vendor_of a vendors)))
    @ '' '' @ n_state neighbor"

type_synonym watch_state = "(i32, string) map \<times> string list"

fun watch_handler :: "vendors \<Rightarrow> watch_filter option \<Rightarrow> network_event \<Rightarrow> watch_state \<Rightarrow> watch_state" where
  "watch_handler vendors f event (names, written) =
    (let emit = (\<lambda>line. if emits f event then written @ [line] else written)
     in case event of
       LinkEvent removed index own_name up \<Rightarrow>
         (let name = option_or own_name (names index);
              shown = unwrap_or (''ifindex '' @ show_i32 index) name
          in (track_name removed index name names, emit (link_line removed shown up)))
     | AddressEvent removed index address prefix_length \<Rightarrow>
         (names, emit (''address '' @ (if removed then ''removed'' else ''added'') @ '' '' @ show_ip address @ ''/''
            @ show_word prefix_length @ '' dev '' @ interface_label names index))
     | RouteEvent removed route \<Rightarrow> (names, emit (route_line names removed route))
     | NeighborEvent removed neighbor \<Rightarrow> (names, emit (neighbor_line names vendors removed neighbor)))"

section \<open>The JSON output\<close>

definition event_word :: "bool \<Rightarrow> string" where
  "event_word removed = (if removed then ''removed'' else ''changed'')"

fun json_event :: "(i32, string) map \<Rightarrow> network_event \<Rightarrow> json" where
  "json_event names (LinkEvent removed index own_name up) = json_object
     [(''event'', json_string (event_word removed)), (''object'', json_string ''link''),
      (''interfaceIndex'', json_number show_i32 index),
      (''interface'', optional_string id (option_or own_name (names index))), (''up'', Bool up)]"
| "json_event names (AddressEvent removed index address prefix_length) = json_object
     [(''event'', json_string (if removed then ''removed'' else ''added'')), (''object'', json_string ''address''),
      (''interfaceIndex'', json_number show_i32 index),
      (''interface'', json_string (interface_label names index)),
      (''address'', json_string (show_ip address)), (''prefix'', json_number show_word prefix_length)]"
| "json_event names (RouteEvent removed route) = json_object
     [(''event'', json_string (event_word removed)), (''object'', json_string ''route''), (''route'', json_route route)]"
| "json_event names (NeighborEvent removed neighbor) = json_object
     [(''event'', json_string (event_word removed)), (''object'', json_string ''neighbor''),
      (''neighbor'', json_neighbor names neighbor)]"

fun watch_json_handler :: "watch_filter option \<Rightarrow> network_event \<Rightarrow> watch_state \<Rightarrow> watch_state" where
  "watch_json_handler f event (names, written) =
    (case event of
       LinkEvent removed index own_name up \<Rightarrow> track_name removed index own_name names
     | _ \<Rightarrow> names,
     if emits f event then written @ [render (json_event names event)] else written)"

text \<open>Both commands, from the names of the moment they start.\<close>

definition watch :: "u64 \<Rightarrow> kernel \<Rightarrow> host \<Rightarrow> watch_filter option \<Rightarrow> recv_outcome list \<Rightarrow> (io_error \<times> watch_state) option" where
  "watch sysconf k h f script =
    watch_events sysconf k (watch_handler (load_vendors (fs_read_to_string h)) f) script
      (interface_names h, [''Watching kernel network events (Ctrl-C to stop)''])"

definition watch_json :: "u64 \<Rightarrow> kernel \<Rightarrow> host \<Rightarrow> watch_filter option \<Rightarrow> recv_outcome list \<Rightarrow> (io_error \<times> watch_state) option" where
  "watch_json sysconf k h f script =
    watch_events sysconf k (watch_json_handler f) script (interface_names h, [])"

section \<open>The names follow the links\<close>

text \<open>What the events say of one interface: the last link event that removes it or names it.\<close>

fun name_after :: "i32 \<Rightarrow> network_event list \<Rightarrow> string option \<Rightarrow> string option" where
  "name_after index [] known = known"
| "name_after index (LinkEvent removed i name up # events) known =
    name_after index events
      (if i \<noteq> index then known else if removed then None else option_or name known)"
| "name_after index (_ # events) known = name_after index events known"

definition names_after :: "network_event list \<Rightarrow> (i32, string) map \<Rightarrow> (i32, string) map" where
  "names_after events names = (\<lambda>index. name_after index events (names index))"

lemma names_after_Nil [simp]: "names_after [] names = names"
  by (simp add: names_after_def)

lemma names_after_link [simp]:
  "names_after (LinkEvent removed index name up # events) names =
    names_after events (track_name removed index name names)"
proof (rule ext)
  fix i
  show "names_after (LinkEvent removed index name up # events) names i =
      names_after events (track_name removed index name names) i"
    by (cases name) (simp_all add: names_after_def track_name_def)
qed

lemma names_after_other [simp]:
  "names_after (AddressEvent removed index address prefix_length # events) names = names_after events names"
  "names_after (RouteEvent removed route # events) names = names_after events names"
  "names_after (NeighborEvent removed neighbor # events) names = names_after events names"
  by (simp_all add: names_after_def)

lemma names_after_Cons: "names_after (event # events) names = names_after events (names_after [event] names)"
  by (cases event) simp_all

lemma track_known_name: "track_name removed index (option_or name (names index)) names = track_name removed index name names"
proof (cases name)
  case None
  then show ?thesis
    by (cases "names index") (simp_all add: track_name_def fun_upd_idem)
qed (simp add: track_name_def)

text \<open>The line of an event.\<close>

definition watch_line :: "vendors \<Rightarrow> (i32, string) map \<Rightarrow> network_event \<Rightarrow> string" where
  "watch_line vendors names event = hd (snd (watch_handler vendors None event (names, [])))"

lemma watch_handler_step:
  "watch_handler vendors f event (names, written) =
    (names_after [event] names,
     written @ (if emits f event then [watch_line vendors names event] else []))"
proof (cases event)
  case (LinkEvent removed index name up)
  then show ?thesis
    by (simp add: watch_line_def Let_def track_known_name emits_def del: link_line.simps)
qed (simp_all add: watch_line_def Let_def emits_def)

lemma watch_json_handler_step:
  "watch_json_handler f event (names, written) =
    (names_after [event] names, written @ (if emits f event then [render (json_event names event)] else []))"
  by (cases event) (simp_all del: json_event.simps)

text \<open>The texts of the events a filter shows, each with the names known when it arrives.\<close>

fun shown_events :: "((i32, string) map \<Rightarrow> network_event \<Rightarrow> 'b) \<Rightarrow> watch_filter option \<Rightarrow> network_event list
    \<Rightarrow> (i32, string) map \<Rightarrow> 'b list" where
  "shown_events show f [] names = []"
| "shown_events show f (event # events) names =
    (if emits f event then [show names event] else [])
    @ shown_events show f events (names_after [event] names)"

text \<open>The contract of a handler: it keeps the names and adds the text of the event if the filter shows it.\<close>

locale name_tracking =
  fixes handler :: "network_event \<Rightarrow> watch_state \<Rightarrow> watch_state"
    and text_of :: "(i32, string) map \<Rightarrow> network_event \<Rightarrow> string"
    and f :: "watch_filter option"
  assumes step: "handler event (names, written) =
    (names_after [event] names, written @ (if emits f event then [text_of names event] else []))"
begin

lemma run:
  "fold handler events (names, written) = (names_after events names, written @ shown_events text_of f events names)"
proof (induction events arbitrary: names written)
  case (Cons event events)
  then show ?case
    by (simp add: step names_after_Cons [of event events])
qed simp

lemma names_run: "fst (fold handler events (names, written)) = names_after events names"
  by (simp add: run)

end

interpretation text_watch: name_tracking "watch_handler vendors f" "watch_line vendors" f for vendors f
  by unfold_locales (rule watch_handler_step)

interpretation json_watch: name_tracking "watch_json_handler f" "\<lambda>names event. render (json_event names event)" f for f
  by unfold_locales (rule watch_json_handler_step)

lemma shown_events_map:
  "shown_events (\<lambda>names event. g (show names event)) f events names = map g (shown_events show f events names)"
  by (induction events arbitrary: names) simp_all

section \<open>What a watch writes\<close>

lemma document_of_event: "document_ok (json_event names event)"
  by (cases event) (simp_all add: record_documents document_simps)

lemma shown_documents: "list_all reads_back (shown_events json_event f events names)"
proof (induction events arbitrary: names)
  case (Cons event events)
  then show ?case
    using document_reads_back [OF document_of_event, of names event] by (simp del: json_event.simps)
qed simp

text \<open>C16: \<open>watch\<close> and \<open>watch --json\<close> write one line for every event of the filter, in the order of arrival
  and until the socket fails, each with the interface names that the link events before it have
  left; the names do not depend on the filter, are the same for both commands, and every line
  of JSON is read back as the document of its event.\<close>

theorem watch_streams_exact:
  assumes "open_route_socket k watch_groups = Ok ()"
    and "packets_ok (64 * 1024) mss"
    and "list_all (\<lambda>m. mh_message_type (message_header_of m) \<notin> {NLMSG_ERROR, NLMSG_OVERRUN}) (concat mss)"
    and "kind_of (Os code) \<noteq> Interrupted"
  shows "let events = filter_map (event_of sysconf) (concat mss); names = interface_names h;
      documents = shown_events json_event f events names
    in watch sysconf k h f (packets mss @ [RecvFailed code]) =
        Some (Os code, names_after events names,
          ''Watching kernel network events (Ctrl-C to stop)'' # shown_events (watch_line (load_vendors (fs_read_to_string h))) f events names)
      \<and> watch_json sysconf k h f (packets mss @ [RecvFailed code]) =
        Some (Os code, names_after events names, map render documents)
      \<and> list_all reads_back documents"
proof -
  have run: "watch_events sysconf k handler (packets mss @ [RecvFailed code]) s =
      Some (Os code, fold handler (filter_map (event_of sysconf) (concat mss)) s)"
    for handler and s :: watch_state
    using assms(1,4) by (auto simp: watch_events_def watch_loop_packets [OF assms(2,3)] split: if_splits)
  show ?thesis
    by (simp add: Let_def watch_def watch_json_def run text_watch.run json_watch.run shown_events_map shown_documents)
qed

theorem watch_streams_exact_witness:
  "watch 100 (example_kernel []) idle_host (Some WatchLink)
      (packets [[link_message_for RTM_DELLINK 0 example_link]] @ [RecvFailed 9]) =
    Some (Os 9, (interface_names idle_host)(7 := None),
      [''Watching kernel network events (Ctrl-C to stop)'', ''link removed eth0.5''])"
proof -
  let ?m = "link_message_for RTM_DELLINK 0 example_link"
  have event: "event_of 100 ?m = Some (LinkEvent True 7 (Some ''eth0.5'') True)"
    by (simp add: event_of_def link_event_bit [OF example_link_ok]) (simp add: example_link_def)
  have packet: "packets_ok (64 * 1024) [[?m]]"
    by (simp add: packets_ok_def example_link_framed)
      (simp add: link_message_for_def length_netlink_message example_link_def link_attributes_def
        number_kinds_def link_info_bytes_def property_list_bytes_def attribute_opt_def
        length_attribute_bytes align_to_4_def)
  have "open_route_socket (example_kernel []) watch_groups = Ok ()"
    by (simp add: example_kernel_def open_route_socket_def)
  from watch_streams_exact [OF this packet, of 9 100 idle_host "Some WatchLink"] event
  show ?thesis
    by (simp add: Let_def emits_def track_name_def watch_line_def)
qed

text \<open>The interface a link event is about.\<close>

fun link_index :: "network_event \<Rightarrow> i32 option" where
  "link_index (LinkEvent removed index name up) = Some index"
| "link_index _ = None"

lemma name_after_append: "name_after i (xs @ ys) known = name_after i ys (name_after i xs known)"
  by (induction i xs known rule: name_after.induct) simp_all

lemma name_after_unrelated: "list_all (\<lambda>e. link_index e \<noteq> Some i) events \<Longrightarrow> name_after i events known = known"
  by (induction i events known rule: name_after.induct) simp_all

text \<open>The name a watch gives an interface is decided by the last link event about it: it is gone after
  its removal, new after a change that names it, and kept by one that does not, whatever happens
  to other interfaces in between.\<close>

theorem watch_names_follow:
  assumes "list_all (\<lambda>e. link_index e \<noteq> Some i) rest"
  shows "fst (fold (watch_handler vendors f) (events @ LinkEvent removed i name up # rest) (names, written)) i =
    (if removed then None
     else option_or name (fst (fold (watch_handler vendors f) events (names, written)) i))"
  using name_after_unrelated [OF assms]
  by (simp add: text_watch.names_run names_after_def name_after_append del: watch_handler.simps fold_append fold.simps)

theorem watch_names_follow_witness:
  "fst (fold (watch_handler Map.empty None)
      ([] @ LinkEvent False 3 (Some ''wg0'') True # [LinkEvent True 4 None False]) (Map.empty, [])) 3 = Some ''wg0''"
  by (subst watch_names_follow) simp_all

end
