(* ===== verification/Float_Text.thy ===== *)
theory Float_Text
  imports Floats Json
begin

text \<open>
  The decimal texts of floating point numbers that the program prints: with a fixed number of places
  (\<open>{:.1}\<close>), rounded half to even from the exact value, and the shortest text that reads back as the
  same number (\<open>{}\<close>). A text read as a decimal numeral is within half a unit of its last place of
  the number, and the shortest one gives the number itself.
\<close>

section \<open>Decimal numerals\<close>

definition pad_zeros :: "nat \<Rightarrow> string \<Rightarrow> string" where
  "pad_zeros k s = replicate (k - length s) (CHR ''0'') @ s"

text \<open>The number \<open>c\<close> of units of the \<open>k\<close>-th place after the point.\<close>

definition place_text :: "nat \<Rightarrow> nat \<Rightarrow> string" where
  "place_text k c =
    decimal (c div 10 ^ k) @ (if k = 0 then [] else ''.'' @ pad_zeros k (decimal (c mod 10 ^ k)))"

definition parse_place :: "string \<Rightarrow> (nat \<times> nat) option" where
  "parse_place s =
    (case split_once_char (CHR ''.'') s of
       None \<Rightarrow> map_option (\<lambda>n. (n, 0)) (digits_value 10 0 s)
     | Some (whole, fraction) \<Rightarrow>
         map_option (\<lambda>n. (n, length fraction)) (digits_value 10 0 (whole @ fraction)))"

text \<open>A numeral with an optional sign, as the number and its places.\<close>

definition parse_numeral :: "string \<Rightarrow> (int \<times> nat) option" where
  "parse_numeral s =
    (if prefix ''-'' s then map_option (\<lambda>(n, k). (- int n, k)) (parse_place (tl s))
     else map_option (\<lambda>(n, k). (int n, k)) (parse_place s))"

lemma digits_value_start: "digits_value radix acc s = map_option (\<lambda>v. acc * radix ^ length s + v) (digits_value radix 0 s)"
proof (induction s arbitrary: acc)
  case (Cons c s)
  show ?case
  proof (cases "to_digit radix c")
    case (Some d)
    show ?thesis
      using Cons.IH [of "acc * radix + d"] Cons.IH [of d]
      by (cases "digits_value radix 0 s") (simp_all add: Some algebra_simps)
  qed simp
qed simp

lemma digits_value_zeros: "digits_value 10 acc (replicate m (CHR ''0'') @ s) = digits_value 10 (acc * 10 ^ m) s"
proof (induction m arbitrary: acc)
  case (Suc m)
  have "to_digit 10 (CHR ''0'') = Some 0"
    by (simp add: to_digit_def)
  with Suc show ?case
    by (simp add: mult_ac)
qed simp

lemma length_decimal: "n < 10 ^ k \<Longrightarrow> 0 < k \<Longrightarrow> length (decimal n) \<le> k"
proof (induction k arbitrary: n)
  case (Suc k)
  show ?case
  proof (cases "n < 10")
    case True
    then show ?thesis
      by (simp add: decimal_def to_radix.simps [of 10 n])
  next
    case False
    with Suc.prems have "n div 10 < 10 ^ k" "0 < k"
      by (auto simp: less_mult_imp_div_less intro: gr0I)
    with Suc.IH [of "n div 10"] False show ?thesis
      by (simp add: decimal_def to_radix.simps [of 10 n])
  qed
qed simp

lemma length_pad_zeros: "n < 10 ^ k \<Longrightarrow> 0 < k \<Longrightarrow> length (pad_zeros k (decimal n)) = k"
  using length_decimal [of n k] by (simp add: pad_zeros_def)

lemma digits_value_decimal: "digits_value 10 0 (decimal n) = Some n"
  by (simp add: decimal_def digits_value_to_radix)

lemma digits_value_pad_zeros: "digits_value 10 0 (pad_zeros k (decimal n)) = Some n"
  by (simp add: pad_zeros_def digits_value_zeros digits_value_decimal)

lemma no_point_decimal: "CHR ''.'' \<notin> set (decimal n)" "CHR ''-'' \<notin> set (decimal n)"
  using decimal_code [of "CHR ''.''" n] decimal_code [of "CHR ''-''" n] by auto

lemma parse_place_text: "parse_place (place_text k c) = Some (c, k)"
proof (cases "k = 0")
  case True
  then show ?thesis
    using no_point_decimal [of c]
    by (simp add: place_text_def parse_place_def split_once_char_None [THEN iffD2] digits_value_decimal)
next
  case False
  let ?f = "pad_zeros k (decimal (c mod 10 ^ k))"
  have "split_once_char (CHR ''.'') (place_text k c) = Some (decimal (c div 10 ^ k), ?f)"
    using False split_once_char_append [of "CHR ''.''" "decimal (c div 10 ^ k)" ?f] no_point_decimal
    by (simp add: place_text_def)
  moreover have len: "length ?f = k"
    using False by (intro length_pad_zeros) simp_all
  moreover have "digits_value 10 0 (decimal (c div 10 ^ k) @ ?f) = Some (c div 10 ^ k * 10 ^ k + c mod 10 ^ k)"
    using digits_value_start [of 10 "c div 10 ^ k" ?f]
    by (simp add: digits_value_append digits_value_pad_zeros len digits_value_decimal)
  then have "digits_value 10 0 (decimal (c div 10 ^ k) @ ?f) = Some c"
    by (simp only: div_mult_mod_eq)
  ultimately show ?thesis
    by (simp add: parse_place_def)
qed

lemma place_text_start: "place_text k c \<noteq> []" "hd (place_text k c) \<noteq> CHR ''-''"
proof -
  have "decimal n \<noteq> []" for n
    by (simp add: decimal_def)
  moreover from this have "hd (decimal n) \<noteq> CHR ''-''" for n
    using no_point_decimal(2) [of n] by (metis hd_in_set)
  ultimately show "place_text k c \<noteq> []" "hd (place_text k c) \<noteq> CHR ''-''"
    by (simp_all add: place_text_def)
qed

lemma parse_numeral_text:
  "parse_numeral (place_text k c) = Some (int c, k)"
  "parse_numeral (CHR ''-'' # place_text k c) = Some (- int c, k)"
  using place_text_start [of k c] by (cases "place_text k c"; simp add: parse_numeral_def flip: parse_place_text)+

lemma place_text_digits:
  "\<exists>whole fraction. place_text k c = whole @ (if k = 0 then [] else CHR ''.'' # fraction)
    \<and> digits whole \<and> (hd whole = CHR ''0'' \<longrightarrow> length whole = 1) \<and> (k = 0 \<or> digits fraction)"
proof -
  have zero: "is_digit (CHR ''0'')"
    by (simp add: is_digit_def)
  have "decimal n \<noteq> []" for n
    by (simp add: decimal_def)
  then have whole: "digits (decimal n)" for n
    by (simp add: digits_def decimal_digits)
  then have "digits (pad_zeros k (decimal (c mod 10 ^ k)))"
    using zero by (auto simp: digits_def pad_zeros_def list_all_iff)
  moreover have "hd (decimal n) = CHR ''0'' \<longrightarrow> length (decimal n) = 1" for n
    using hd_to_radix_10 [of n] by (cases "10 \<le> n") (auto simp: decimal_def to_radix.simps [of 10 n])
  ultimately show ?thesis
    using whole by (auto simp: place_text_def)
qed

lemma number_ok_place_text: "number_ok (place_text k c)" "number_ok (CHR ''-'' # place_text k c)"
proof -
  obtain whole fraction where s: "place_text k c = whole @ (if k = 0 then [] else CHR ''.'' # fraction)"
    and whole: "digits whole" "hd whole = CHR ''0'' \<longrightarrow> length whole = 1" and fraction: "k = 0 \<or> digits fraction"
    using place_text_digits [of k c] by blast
  have point: "\<not> is_digit (CHR ''.'')"
    by (simp add: is_digit_def)
  have split: "takeWhile is_digit (place_text k c) = whole"
    "dropWhile is_digit (place_text k c) = (if k = 0 then [] else CHR ''.'' # fraction)"
    using whole(1) point by (auto simp: s digits_def list_all_iff takeWhile_append dropWhile_append)
  have "unsigned_ok (place_text k c)"
  proof (cases "k = 0")
    case True
    with whole show ?thesis
      unfolding unsigned_ok_def Let_def split by (simp add: digits_def exponent_ok_def)
  next
    case False
    with fraction have whole_fraction: "takeWhile is_digit fraction = fraction" "dropWhile is_digit fraction = []"
      and "fraction \<noteq> []"
      by (simp_all add: digits_def list_all_iff)
    with False whole show ?thesis
      unfolding unsigned_ok_def Let_def split by (simp add: digits_def exponent_ok_def whole_fraction)
  qed
  then show "number_ok (place_text k c)" "number_ok (CHR ''-'' # place_text k c)"
    using place_text_start(2) [of k c] by (simp_all add: number_ok_def)
qed

section \<open>A fixed number of places\<close>

definition signed_text :: "binary_float \<Rightarrow> string \<Rightarrow> string" where
  "signed_text x s = (if significand x < 0 then CHR ''-'' # s else s)"

definition fixed_text :: "nat \<Rightarrow> binary_float \<Rightarrow> string" where
  "fixed_text k x =
    (case float_ratio x of (n, d) \<Rightarrow> signed_text x (place_text k (round_div (nat \<bar>n\<bar> * 10 ^ k) d)))"

lemma number_ok_fixed_text: "number_ok (fixed_text k x)"
  by (simp add: fixed_text_def signed_text_def number_ok_place_text split: prod.split)

text \<open>What the text says is within half a unit of its last place.\<close>

lemma fixed_text_accurate:
  "\<exists>n. parse_numeral (fixed_text k x) = Some (n, k)
    \<and> \<bar>of_int n / 10 ^ k - float_value x\<bar> \<le> 1 / (2 * 10 ^ k)"
proof -
  obtain n d where r: "float_ratio x = (n, d)"
    by (cases "float_ratio x")
  let ?c = "round_div (nat \<bar>n\<bar> * 10 ^ k) d"
  let ?n = "if significand x < 0 then - int ?c else int ?c"
  have d: "0 < d" and x: "of_int n / of_nat d = float_value x"
    using float_ratio_value [OF r] by simp_all
  have sign: "n < 0 \<longleftrightarrow> significand x < 0"
    using r by (auto simp: float_ratio_def mult_less_0_iff split: if_splits)
  have "of_int ?n * of_nat d - of_int n * 10 ^ k =
      (if n < 0 then - 1 else 1) * (of_nat ?c * of_nat d - of_nat (nat \<bar>n\<bar> * 10 ^ k) :: rat)"
    using sign by (auto simp: algebra_simps)
  then have "\<bar>of_int ?n * of_nat d - of_int n * 10 ^ k\<bar> = \<bar>of_nat ?c * of_nat d - of_nat (nat \<bar>n\<bar> * 10 ^ k) :: rat\<bar>"
    by (simp only: abs_mult) simp
  also have "2 * \<dots> \<le> of_nat d"
    by (rule round_div_error [OF d])
  finally have "2 * \<bar>of_int ?n * of_nat d - of_int n * 10 ^ k\<bar> \<le> (of_nat d :: rat)"
    by simp
  moreover have "of_int ?n * of_nat d - of_int n * 10 ^ k =
      (of_int ?n / 10 ^ k - float_value x) * (10 ^ k * of_nat d)"
    using d by (simp add: x [symmetric] field_simps)
  ultimately have "2 * (\<bar>of_int ?n / 10 ^ k - float_value x\<bar> * (10 ^ k * of_nat d)) \<le> of_nat d"
    by (simp only: abs_mult) simp
  then have "\<bar>of_int ?n / 10 ^ k - float_value x\<bar> \<le> 1 / (2 * 10 ^ k)"
    using d by (simp add: field_simps)
  moreover have "parse_numeral (fixed_text k x) = Some (?n, k)"
    by (simp add: fixed_text_def r signed_text_def parse_numeral_text)
  ultimately show ?thesis
    by blast
qed

section \<open>The shortest text\<close>

text \<open>\<open>f32::from_str\<close> and \<open>f64::from_str\<close> on a decimal numeral: the nearest number.\<close>

definition parse_float :: "nat \<Rightarrow> string \<Rightarrow> binary_float option" where
  "parse_float p s = map_option (\<lambda>(n, k). float_of_ratio p n (10 ^ k)) (parse_numeral s)"

text \<open>The number \<open>c\<close> of units \<open>10^i\<close> rounds to \<open>x\<close>.\<close>

definition reads_as :: "nat \<Rightarrow> binary_float \<Rightarrow> nat \<Rightarrow> int \<Rightarrow> bool" where
  "reads_as p x c i \<longleftrightarrow> float_of_ratio p (int (c * 10 ^ nat i)) (10 ^ nat (- i)) = x"

text \<open>From the place \<open>i\<close> downwards, the first one at which the number rounded down or up to that place
  reads as the number; where both do, the nearer.\<close>

fun shortest_from :: "nat \<Rightarrow> binary_float \<Rightarrow> nat \<Rightarrow> int \<Rightarrow> nat \<times> int" where
  "shortest_from p x fuel i =
    (case float_ratio x of (n, d) \<Rightarrow>
       let a = nat n * 10 ^ nat (- i); b = d * 10 ^ nat i;
           down = reads_as p x (a div b) i; up = reads_as p x (a div b + 1) i
       in if down \<and> (\<not> up \<or> 2 * (a mod b) < b) then (a div b, i)
          else if up then (a div b + 1, i)
          else case fuel of
            0 \<Rightarrow> (a div b, i)
          | Suc fuel' \<Rightarrow> shortest_from p x fuel' (i - 1))"

declare shortest_from.simps [simp del]

text \<open>The places left of the point of the integer part, and the places right of it of the number
  itself, are where the search starts and where it ends at the latest.\<close>

definition shortest_text :: "nat \<Rightarrow> binary_float \<Rightarrow> string" where
  "shortest_text p x =
    (let y = x\<lparr>significand := \<bar>significand x\<bar>\<rparr>;
         start = (case float_ratio y of (n, d) \<Rightarrow> int (length (decimal (nat n div d))))
     in case shortest_from p y (nat (start - min 0 (exponent x))) start of
       (c, i) \<Rightarrow> signed_text x (place_text (nat (- i)) (c * 10 ^ nat i)))"

lemma number_ok_shortest_text: "number_ok (shortest_text p x)"
  by (simp add: shortest_text_def signed_text_def number_ok_place_text Let_def split: prod.split)

lemma reads_as_exact:
  assumes "canonical p x" and "0 < p" and "0 \<le> significand x" and "i \<le> 0" and "i \<le> exponent x"
    and "float_ratio x = (n, d)"
  shows "reads_as p x (nat n * 10 ^ nat (- i) div d) i"
proof -
  have d: "0 < d" and x: "of_int n / of_nat d = float_value x" and n: "0 \<le> n"
    using float_ratio_value [OF assms(6)] assms(3,6) by (auto simp: float_ratio_def split: if_splits)
  have "d dvd 10 ^ nat (- i)"
  proof (cases "0 \<le> exponent x")
    case False
    then have "d = 2 ^ nat (- exponent x)" and "nat (- exponent x) \<le> nat (- i)"
      using assms(5,6) by (simp_all add: float_ratio_def)
    then have "d dvd 2 ^ nat (- i)"
      by (simp add: le_imp_power_dvd)
    also have "(2::nat) ^ nat (- i) dvd (2 * 5) ^ nat (- i)"
      by (simp only: power_mult_distrib) simp
    finally show ?thesis
      by simp
  qed (use assms(6) in \<open>auto simp: float_ratio_def\<close>)
  then obtain k where k: "10 ^ nat (- i) = d * k"
    by (rule dvdE)
  have quotient: "nat n * 10 ^ nat (- i) div d = nat n * k"
    using d by (simp add: k)
  have "of_int (int (nat n * k)) / (of_nat (10 ^ nat (- i)) :: rat) = of_int n / of_nat d"
  proof -
    have "k \<noteq> 0"
      using k by (metis mult_0_right power_not_zero zero_neq_numeral)
    then show ?thesis
      using n d by (simp add: k)
  qed
  then have "float_of_ratio p (int (nat n * k)) (10 ^ nat (- i)) = x"
    by (intro canonical_roundtrip [OF assms(1,2)]) (simp_all add: x)
  with assms(4) show ?thesis
    by (simp add: reads_as_def quotient)
qed

lemma shortest_from_reads:
  assumes "canonical p x" and "0 < p" and "0 \<le> significand x"
  shows "i - int fuel \<le> min 0 (exponent x) \<Longrightarrow> case_prod (reads_as p x) (shortest_from p x fuel i)"
proof (induction fuel arbitrary: i)
  case 0
  obtain n d where r: "float_ratio x = (n, d)"
    by (cases "float_ratio x")
  have "reads_as p x (nat n * 10 ^ nat (- i) div (d * 10 ^ nat i)) i"
    using reads_as_exact [OF assms _ _ r, of i] 0 by simp
  then show ?case
    by (subst shortest_from.simps) (simp add: r Let_def)
next
  case (Suc fuel)
  then have "case_prod (reads_as p x) (shortest_from p x fuel (i - 1))"
    by simp
  then show ?case
    by (subst shortest_from.simps) (auto simp: Let_def split: prod.split)
qed

lemma float_of_ratio_minus: "float_of_ratio p (- n) d = (float_of_ratio p n d)\<lparr>significand := - significand (float_of_ratio p n d)\<rparr>"
  by (simp add: float_of_ratio_def sgn_minus split: prod.split)

lemma shortest_text_reads:
  assumes "canonical p x" and "0 < p"
  shows "parse_float p (shortest_text p x) = Some x"
proof -
  let ?y = "x\<lparr>significand := \<bar>significand x\<bar>\<rparr>"
  obtain n d where r: "float_ratio ?y = (n, d)"
    by (cases "float_ratio ?y")
  let ?start = "int (length (decimal (nat n div d)))"
  let ?fuel = "nat (?start - min 0 (exponent x))"
  obtain c i where s: "shortest_from p ?y ?fuel ?start = (c, i)"
    by (cases "shortest_from p ?y ?fuel ?start")
  have "canonical p ?y"
    using assms(1) by (cases x) (simp only: canonical_def binary_float.simps abs_idempotent abs_eq_0)
  moreover have "min 0 (exponent x) \<le> ?start"
    by (rule min.coboundedI1) simp
  then have "?start - int ?fuel \<le> min 0 (exponent ?y)"
    by simp
  ultimately have "case_prod (reads_as p ?y) (shortest_from p ?y ?fuel ?start)"
    by (intro shortest_from_reads [OF _ assms(2)]) simp_all
  then have "reads_as p ?y c i"
    by (simp add: s)
  then have y: "float_of_ratio p (int (c * 10 ^ nat i)) (10 ^ nat (- i)) = ?y"
    by (simp add: reads_as_def)
  have written: "shortest_text p x = signed_text x (place_text (nat (- i)) (c * 10 ^ nat i))"
    by (simp add: shortest_text_def Let_def r s)
  show ?thesis
  proof (cases "significand x < 0")
    case True
    then have "?y\<lparr>significand := - significand ?y\<rparr> = x"
      by simp
    with True y show ?thesis
      by (simp add: written signed_text_def parse_float_def parse_numeral_text float_of_ratio_minus
          del: of_nat_mult)
  next
    case False
    then have "?y = x"
      by simp
    with False y show ?thesis
      by (simp add: written signed_text_def parse_float_def parse_numeral_text del: of_nat_mult)
  qed
qed

end
