(* ===== verification/Cli_Numbers.thy ===== *)
theory Cli_Numbers
  imports Float_Text Ping
begin

text \<open>
  The texts of quantities in the output of \<open>main.rs\<close>: sizes with a binary unit, ages, durations and
  rates. They are computed in \<open>f64\<close> (some in \<open>f32\<close>) and printed with a fixed number of places.
\<close>

section \<open>Durations\<close>

text \<open>\<open>Duration::as_secs_f64\<close> and \<open>as_secs_f32\<close> of a number of nanoseconds.\<close>

definition as_secs :: "nat \<Rightarrow> nat \<Rightarrow> binary_float" where
  "as_secs p nanos =
    float_add p (float_of_ratio p (int (nanos div 1000000000)) 1)
      (float_div p (float_of_ratio p (int (nanos mod 1000000000)) 1) 1000000000)"

definition as_secs_f64 :: "nat \<Rightarrow> f64" where
  "as_secs_f64 nanos = as_secs 53 nanos"

definition as_secs_f32 :: "nat \<Rightarrow> f32" where
  "as_secs_f32 nanos = as_secs 24 nanos"

text \<open>\<open>as_secs_f64() * 1000.0\<close>, as it is printed with \<open>k\<close> places.\<close>

definition as_milliseconds :: "nat \<Rightarrow> f64" where
  "as_milliseconds nanos = float_mul 53 (as_secs_f64 nanos) 1000"

definition millis_text :: "nat \<Rightarrow> nat \<Rightarrow> string" where
  "millis_text k nanos = fixed_text k (as_milliseconds nanos)"

definition format_duration :: "nat option \<Rightarrow> string" where
  "format_duration duration = unwrap_or ''unknown'' (map_option (\<lambda>d. millis_text 2 d @ ''ms'') duration)"

definition ping_loss :: "ping_result \<Rightarrow> f64" where
  "ping_loss r =
    (if p_transmitted r = 0 then f64_of_nat 0
     else f64_div (float_mul 53 (f64_of_nat (unat (p_transmitted r - p_received r))) 100) (unat (p_transmitted r)))"

section \<open>Ages and rates\<close>

definition format_age :: "u64 \<Rightarrow> string" where
  "format_age milliseconds =
    (if milliseconds < 1000 then decimal (unat milliseconds) @ ''ms''
     else fixed_text 1 (f64_div (f64_of_nat (unat milliseconds)) 1000) @ ''s'')"

definition format_microseconds :: "u32 \<Rightarrow> string" where
  "format_microseconds microseconds =
    (if microseconds < 1000 then decimal (unat microseconds) @ ''us''
     else fixed_text 2 (f64_div (f64_of_nat (unat microseconds)) 1000) @ ''ms'')"

section \<open>Sizes\<close>

definition UNITS :: "string list" where
  "UNITS = [''B'', ''KiB'', ''MiB'', ''GiB'', ''TiB'']"

definition float_at_least :: "binary_float \<Rightarrow> nat \<Rightarrow> bool" where
  "float_at_least x k = (case float_ratio x of (n, d) \<Rightarrow> int k * int d \<le> n)"

text \<open>The loop of \<open>human_bytes\<close> from a number and its unit.\<close>

function human_scale :: "f64 \<Rightarrow> nat \<Rightarrow> f64 \<times> nat" where
  "human_scale v unit =
    (if float_at_least v 1024 \<and> unit < length UNITS - 1 then human_scale (f64_div v 1024) (unit + 1) else (v, unit))"
  by pat_completeness auto
termination
  by (relation "measure (\<lambda>(_, unit). length UNITS - unit)") auto

declare human_scale.simps [simp del]

definition human_bytes :: "u64 \<Rightarrow> string" where
  "human_bytes b =
    (case human_scale (f64_of_nat (unat b)) 0 of
       (v, unit) \<Rightarrow>
         if unit = 0 then decimal (unat b) @ '' '' @ UNITS ! 0 else fixed_text 1 v @ '' '' @ UNITS ! unit)"

section \<open>Exact values\<close>

lemma round_div_scale: "0 < c \<Longrightarrow> round_div (a * c) (b * c) = round_div a b"
  by (cases "b = 0") (simp_all add: round_div_def Let_def mult.commute [of _ c] flip: mult.assoc)

lemma round_div_cong:
  assumes "a * d = c * b" and "0 < b" and "0 < d"
  shows "round_div a b = round_div c d"
  using round_div_scale [OF assms(3), of a b] round_div_scale [OF assms(2), of c d] assms(1)
  by (simp add: mult.commute)

lemma fixed_text_value:
  assumes "float_value x = of_nat m / of_nat e" and "0 < e"
  shows "fixed_text k x = place_text k (round_div (m * 10 ^ k) e)"
proof -
  obtain n d where r: "float_ratio x = (n, d)"
    by (cases "float_ratio x")
  have d: "0 < d" and x: "of_int n / of_nat d = float_value x"
    using float_ratio_value [OF r] by simp_all
  have "0 \<le> float_value x"
    using assms by simp
  then have sign: "\<not> significand x < 0"
    by (simp add: float_value_def zero_le_mult_iff) (metis linorder_not_less power_int_eq_0_iff zero_le_power_int zero_neq_numeral
        order_antisym_conv zero_le_numeral)
  then have n: "0 \<le> n"
    using r by (auto simp: float_ratio_def split: if_splits)
  have "(of_int n :: rat) * of_nat e = of_nat m * of_nat d"
    using x assms d by (simp add: field_simps)
  then have "(of_int (n * int e) :: rat) = of_int (int m * int d)"
    by simp
  then have "n * int e = int m * int d"
    by (simp only: of_int_eq_iff)
  then have "nat n * e = m * d"
    using n by (metis nat_int nat_mult_distrib of_nat_mult)
  then have "nat n * 10 ^ k * e = m * 10 ^ k * d"
    by (simp add: mult.commute mult.left_commute)
  then have "round_div (nat n * 10 ^ k) d = round_div (m * 10 ^ k) e"
    using d assms(2) by (rule round_div_cong)
  with sign n show ?thesis
    by (simp add: fixed_text_def r signed_text_def)
qed

lemma float_at_least_value: "float_at_least x k \<longleftrightarrow> of_nat k \<le> float_value x"
proof -
  obtain n d where r: "float_ratio x = (n, d)"
    by (cases "float_ratio x")
  have "0 < d" and x: "of_int n / of_nat d = float_value x"
    using float_ratio_value [OF r] by simp_all
  then have "of_nat k \<le> float_value x \<longleftrightarrow> (of_int (int k * int d) :: rat) \<le> of_int n"
    unfolding x [symmetric] by (simp add: field_simps)
  then show ?thesis
    by (simp only: float_at_least_def r of_int_le_iff) simp
qed

lemma human_scale_value:
  assumes "canonical 53 v" and "float_value v = of_nat n / 1024 ^ unit" and "unit \<le> 4"
  shows "\<exists>w u. human_scale v unit = (w, u) \<and> float_value w = of_nat n / 1024 ^ u \<and> unit \<le> u \<and> u \<le> 4
    \<and> (u = 4 \<or> n < 1024 ^ Suc u) \<and> (u = unit \<or> 1024 ^ u \<le> n)"
  using assms
proof (induction v unit rule: human_scale.induct)
  case (1 v unit)
  have enough: "float_at_least v 1024 \<longleftrightarrow> 1024 ^ Suc unit \<le> n"
  proof -
    have "float_at_least v 1024 \<longleftrightarrow> (1024 ^ Suc unit :: rat) \<le> of_nat n"
      by (simp add: float_at_least_value "1.prems"(2) field_simps)
    also have "\<dots> \<longleftrightarrow> (of_nat (1024 ^ Suc unit) :: rat) \<le> of_nat n"
      by simp
    finally show ?thesis
      by (simp only: of_nat_le_iff)
  qed
  show ?case
  proof (cases "float_at_least v 1024 \<and> unit < 4")
    case True
    let ?v = "f64_div v 1024"
    have "canonical 53 ?v"
      by (cases "float_ratio v") (auto simp: f64_div_def float_div_def dest: float_ratio_value(1) intro!: canonical_of_ratio)
    moreover have "float_value ?v = of_nat n / 1024 ^ Suc unit"
      using float_div_power [OF "1.prems"(1), of 10] by (simp add: f64_div_def "1.prems"(2))
    ultimately obtain w u where w: "human_scale ?v (unit + 1) = (w, u)" "float_value w = of_nat n / 1024 ^ u"
      "unit + 1 \<le> u" "u \<le> 4" "u = 4 \<or> n < 1024 ^ Suc u" "u = unit + 1 \<or> 1024 ^ u \<le> n"
      using "1.IH" True by (auto simp: UNITS_def)
    moreover have "human_scale v unit = (w, u)"
      using True w(1) by (subst human_scale.simps) (simp add: UNITS_def)
    ultimately show ?thesis
      using True enough by auto
  next
    case False
    then have "human_scale v unit = (v, unit)"
      by (subst human_scale.simps) (auto simp: UNITS_def)
    then show ?thesis
      using False enough "1.prems" by auto
  qed
qed

text \<open>C29: A size below 8 PiB is printed in the largest unit that it reaches, of the five there are, rounded
  to a tenth of that unit from its exact value with ties to even; a size below 1 KiB is printed exactly.\<close>

theorem human_bytes_exact:
  assumes "unat b < 2 ^ 53"
  shows "\<exists>u\<le>4. (u = 0 \<or> 1024 ^ u \<le> unat b) \<and> (u = 4 \<or> unat b < 1024 ^ Suc u)
    \<and> human_bytes b =
      (if u = 0 then decimal (unat b) @ '' B''
       else place_text 1 (round_div (10 * unat b) (1024 ^ u)) @ '' '' @ UNITS ! u)"
proof -
  have "canonical 53 (f64_of_nat (unat b))"
    by (simp add: f64_of_nat_def canonical_of_ratio)
  with f64_of_nat_exact [OF assms] obtain w u where w: "human_scale (f64_of_nat (unat b)) 0 = (w, u)"
    "float_value w = of_nat (unat b) / 1024 ^ u" "u \<le> 4" "u = 4 \<or> unat b < 1024 ^ Suc u" "u = 0 \<or> 1024 ^ u \<le> unat b"
    using human_scale_value [of "f64_of_nat (unat b)" "unat b" 0] by auto
  have "fixed_text 1 w = place_text 1 (round_div (10 * unat b) (1024 ^ u))"
    using fixed_text_value [of w "unat b" "1024 ^ u" 1] w(2) by (simp add: mult.commute)
  then have "human_bytes b =
      (if u = 0 then decimal (unat b) @ '' B''
       else place_text 1 (round_div (10 * unat b) (1024 ^ u)) @ '' '' @ UNITS ! u)"
    by (simp add: human_bytes_def w(1)) (simp add: UNITS_def)
  with w(3-5) show ?thesis
    by blast
qed

text \<open>One byte less than a MiB is printed as 1024 KiB.\<close>

theorem human_bytes_exact_witness: "human_bytes 1048575 = ''1024.0 KiB'' \<and> human_bytes 1536 = ''1.5 KiB''"
proof -
  have texts: "decimal 1024 = ''1024''" "decimal 0 = ''0''" "decimal 1 = ''1''" "decimal (Suc 0) = ''1''" "decimal 5 = ''5''"
    by code_simp+
  have "human_bytes 1048575 = ''1024.0 KiB''"
  proof -
    obtain u where u: "u \<le> 4" "u = 0 \<or> 1024 ^ u \<le> (1048575::nat)" "u = 4 \<or> (1048575::nat) < 1024 ^ Suc u"
      "human_bytes 1048575 = (if u = 0 then decimal 1048575 @ '' B''
       else place_text 1 (round_div 10485750 (1024 ^ u)) @ '' '' @ UNITS ! u)"
      using human_bytes_exact [of 1048575] by auto
    have "u = 1"
      using u(1-3) by (cases "u = 0"; cases "u = 1"; cases "u = 2"; cases "u = 3"; cases "u = 4") simp_all
    with u(4) show ?thesis
      by (simp add: place_text_def round_div_def Let_def UNITS_def pad_zeros_def texts)
  qed
  moreover have "human_bytes 1536 = ''1.5 KiB''"
  proof -
    obtain u where u: "u \<le> 4" "u = 0 \<or> 1024 ^ u \<le> (1536::nat)" "u = 4 \<or> (1536::nat) < 1024 ^ Suc u"
      "human_bytes 1536 = (if u = 0 then decimal 1536 @ '' B''
       else place_text 1 (round_div 15360 (1024 ^ u)) @ '' '' @ UNITS ! u)"
      using human_bytes_exact [of 1536] by auto
    have "u = 1"
      using u(1-3) by (cases "u = 0"; cases "u = 1"; cases "u = 2"; cases "u = 3"; cases "u = 4") simp_all
    with u(4) show ?thesis
      by (simp add: place_text_def round_div_def Let_def UNITS_def pad_zeros_def texts)
  qed
  ultimately show ?thesis
    by simp
qed

end
