(* ===== verification/Cli_Tables.thy ===== *)
theory Cli_Tables
  imports Cli_Json Cli_Numbers
begin

text \<open>
  The tables that the commands of \<open>main.rs\<close> print when \<open>--json\<close> is not given: \<open>all\<close>, \<open>interfaces\<close>, \<open>links\<close>,
  \<open>hardware\<close>, \<open>addresses\<close>, \<open>routes\<close>, \<open>rules\<close>, \<open>route\<close>, \<open>neighbors\<close> and \<open>dns\<close>. A function named like one of the
  program gives the arguments of its \<open>println!\<close> calls in order; one that can fail also gives its
  result, for what it wrote before it failed stays written.
\<close>

type_synonym 'a printed = "string list \<times> 'a result"

section \<open>Fields\<close>

definition print_value :: "string \<Rightarrow> string option \<Rightarrow> string list" where
  "print_value label_text v = (case v of None \<Rightarrow> [] | Some x \<Rightarrow> [''  '' @ label_text @ '': '' @ x])"

definition print_indented_value :: "string \<Rightarrow> string option \<Rightarrow> string list" where
  "print_indented_value label_text v = (case v of None \<Rightarrow> [] | Some x \<Rightarrow> [''    '' @ label_text @ '': '' @ x])"

definition print_counter_pair :: "string \<Rightarrow> u64 option \<Rightarrow> u64 option \<Rightarrow> string list" where
  "print_counter_pair label_text received transmitted =
    (case (received, transmitted) of
       (Some r, Some t) \<Rightarrow> [''    '' @ label_text @ '': RX '' @ show_word r @ ''  TX '' @ show_word t]
     | _ \<Rightarrow> [])"

definition print_string_list :: "string \<Rightarrow> string list \<Rightarrow> string list" where
  "print_string_list label_text vs = (if vs = [] then [] else [''    '' @ label_text @ '': '' @ join '', '' vs])"

definition shown_number :: "u32 option \<Rightarrow> string" where
  "shown_number v = unwrap_or ''unknown'' (map_option show_word v)"

definition optional_bool :: "bool option \<Rightarrow> string" where
  "optional_bool v = (case v of None \<Rightarrow> ''unknown'' | Some b \<Rightarrow> if b then ''yes'' else ''no'')"

text \<open>\<open>map(|v| format!(...)).unwrap_or_default()\<close> of a text that precedes the value.\<close>

definition field_text :: "string \<Rightarrow> ('a \<Rightarrow> string) \<Rightarrow> 'a option \<Rightarrow> string" where
  "field_text before f v = unwrap_or [] (map_option (\<lambda>x. before @ f x) v)"

definition flags_text :: "string \<Rightarrow> string" where
  "flags_text flags = (if flags = ''none'' then [] else '' flags '' @ flags)"

section \<open>Interfaces\<close>

record ipv6_entry =
  i6_interface :: string
  i6_address :: ipv6_addr
  i6_prefix :: u8
  i6_scope :: u8

definition parse_ipv6_hex :: "string \<Rightarrow> ipv6_addr option" where
  "parse_ipv6_hex v =
    (if length v \<noteq> 32 then None else map_option of_nat (from_str_radix 16 (2 ^ 128) v))"

definition PROC_NET_IF_INET6 :: string where
  "PROC_NET_IF_INET6 = ''/proc/net/if_inet6''"

text \<open>One line of the file; the fields are read in the order of the struct's initialiser.\<close>

definition ipv6_entry_of_line :: "string \<Rightarrow> ipv6_entry option" where
  "ipv6_entry_of_line line =
    (let fields = split_whitespace line
     in do {
       address \<leftarrow> Option.bind (get_at 0 fields) parse_ipv6_hex;
       prefix_length \<leftarrow> Option.bind (get_at 2 fields) parse_u8_hex;
       scope \<leftarrow> Option.bind (get_at 3 fields) parse_u8_hex;
       interface \<leftarrow> get_at 5 fields;
       Some \<lparr>i6_interface = interface, i6_address = address, i6_prefix = prefix_length, i6_scope = scope\<rparr>
     })"

definition ipv6_addresses :: "host \<Rightarrow> ipv6_entry list" where
  "ipv6_addresses h =
    (case fs_read_to_string h PROC_NET_IF_INET6 of
       Err _ \<Rightarrow> []
     | Ok contents \<Rightarrow> filter_map ipv6_entry_of_line (lines contents))"

definition ipv6_scope :: "u8 \<Rightarrow> string" where
  "ipv6_scope scope =
    (if scope = 0x00 then ''global''
     else if scope = 0x10 then ''host''
     else if scope = 0x20 then ''link''
     else if scope = 0x40 then ''site''
     else ''unknown scope'')"

definition administrative_state :: "string \<Rightarrow> string option" where
  "administrative_state flags =
    map_option (\<lambda>w. if w AND 0x1 = 0 then ''down'' else ''up'')
      (parse_u32_hex (unwrap_or flags (strip_prefix ''0x'' flags)))"

definition interface_state :: "host \<Rightarrow> string \<Rightarrow> string option \<Rightarrow> string" where
  "interface_state h path kind =
    (case (if kind = Some ''loopback''
           then Option.bind (read_trimmed_at h (path_join path ''flags'')) administrative_state else None) of
       Some state \<Rightarrow> state
     | None \<Rightarrow> unwrap_or ''unknown'' (read_trimmed_at h (path_join path ''operstate'')))"

text \<open>One interface; an entry whose name is not UTF-8 is skipped.\<close>

definition print_interface :: "host \<Rightarrow> ipv6_entry list \<Rightarrow> string \<Rightarrow> string list" where
  "print_interface h ipv6 path =
    (case interface_of_path path of
       None \<Rightarrow> []
     | Some name \<Rightarrow>
         let kind = interface_kind h path;
             field = (\<lambda>what. read_trimmed_at h (path_join path what));
             counter = (\<lambda>what. read_number_at h (path_join path (''statistics/'' @ what)));
             rx = counter ''rx_bytes'';
             tx = counter ''tx_bytes''
         in [''  '' @ name @ '' ('' @ interface_state h path kind @ '')'']
            @ print_indented_value ''Kind'' kind
            @ print_indented_value ''Index'' (field ''ifindex'')
            @ print_indented_value ''MAC'' (field ''address'')
            @ print_indented_value ''MTU'' (field ''mtu'')
            @ (case ipv4_address h name of
                 None \<Rightarrow> []
               | Some (address, prefix_length) \<Rightarrow>
                   [''    IPv4: '' @ show_ipv4 address @ ''/'' @ show_word prefix_length])
            @ map (\<lambda>e. ''    IPv6: '' @ show_ipv6 (i6_address e) @ ''/'' @ show_word (i6_prefix e)
                @ '' ('' @ ipv6_scope (i6_scope e) @ '')'') (filter (\<lambda>e. i6_interface e = name) ipv6)
            @ print_indented_value ''Carrier''
                (map_option (\<lambda>v. if v = ''1'' then ''yes'' else if v = ''0'' then ''no'' else v) (field ''carrier''))
            @ print_indented_value ''Speed''
                (map_option (\<lambda>v. v @ '' Mb/s'') (option_filter (\<lambda>v. v \<noteq> ''-1'') (field ''speed'')))
            @ print_indented_value ''Duplex'' (field ''duplex'')
            @ (case (rx, tx) of
                 (Some r, Some t) \<Rightarrow> [''    Traffic: RX '' @ human_bytes r @ ''  TX '' @ human_bytes t]
               | _ \<Rightarrow> [])
            @ print_counter_pair ''Packets'' (counter ''rx_packets'') (counter ''tx_packets'')
            @ print_counter_pair ''Errors'' (counter ''rx_errors'') (counter ''tx_errors'')
            @ print_counter_pair ''Dropped'' (counter ''rx_dropped'') (counter ''tx_dropped'')
            @ print_indented_value ''Collisions'' (field ''statistics/collisions'')
            @ print_indented_value ''Carrier changes'' (field ''carrier_changes''))"

definition print_interfaces :: "host \<Rightarrow> unit printed" where
  "print_interfaces h =
    (case fs_read_dir h SYS_CLASS_NET of
       Err e \<Rightarrow> ([], Err e)
     | Ok entries \<Rightarrow>
         let paths = sort (filter_map result_option entries)
         in ([''Interfaces''] @ (if paths = [] then [''  None''] else [])
             @ concat (map (print_interface h (ipv6_addresses h)) paths) @ [[]], Ok ()))"

definition print_system :: "host \<Rightarrow> string list" where
  "print_system h = [''System''] @ print_value ''Hostname'' (read_trimmed_at h ''/etc/hostname'') @ [[]]"

section \<open>Links\<close>

text \<open>The names of the links themselves; of two links with one index the later counts.\<close>

definition link_names :: "link list \<Rightarrow> (i32, string) map" where
  "link_names ls = map_of (rev (map (\<lambda>l. (l_interface_index l, l_name l)) ls))"

definition print_link :: "(i32, string) map \<Rightarrow> link \<Rightarrow> string list" where
  "print_link names l =
    (let topology = (\<lambda>index. unwrap_or ''none'' (map_option (interface_label names) index))
     in [''  '' @ l_name l @ '' index '' @ show_i32 (l_interface_index l) @ field_text '' kind '' id (l_kind l)
           @ '' type '' @ show_word (l_hardware_type l) @ '' state '' @ l_operational_state l
           @ '' carrier '' @ optional_bool (l_carrier l),
         ''    Flags: '' @ l_flags l,
         ''    Topology: parent '' @ topology (l_parent_index l) @ '', master '' @ topology (l_master_index l)]
        @ print_indented_value ''VLAN'' (map_option show_word (l_vlan_id l))
        @ [''    MTU: '' @ shown_number (l_mtu l) @ '' (min '' @ shown_number (l_minimum_mtu l) @ '', max ''
             @ shown_number (l_maximum_mtu l) @ '')'',
           ''    Queue: qdisc '' @ unwrap_or ''unknown'' (l_qdisc l) @ '', length '' @ shown_number (l_transmit_queue_length l)
             @ '', RX queues '' @ shown_number (l_receive_queues l) @ '', TX queues '' @ shown_number (l_transmit_queues l),
           ''    Carrier changes: '' @ shown_number (l_carrier_changes l) @ '' (up '' @ shown_number (l_carrier_up_count l)
             @ '', down '' @ shown_number (l_carrier_down_count l) @ '')'']
        @ print_indented_value ''Promiscuity references'' (map_option show_word (l_promiscuity l))
        @ print_indented_value ''Group'' (map_option show_word (l_group l))
        @ print_indented_value ''Alias'' (l_alias l)
        @ print_string_list ''Alternative names'' (l_alternative_names l)
        @ print_indented_value ''Physical port'' (l_physical_port_name l)
        @ (if l_parent_device_name l \<noteq> None \<or> l_parent_device_bus_name l \<noteq> None
           then [''    Parent device: '' @ unwrap_or ''unknown'' (l_parent_device_name l) @ '' bus ''
             @ unwrap_or ''unknown'' (l_parent_device_bus_name l)]
           else []))"

definition print_links :: "kernel \<Rightarrow> unit printed option" where
  "print_links k =
    map_option (\<lambda>reply. case reply of
        Err e \<Rightarrow> ([], Err e)
      | Ok ls \<Rightarrow>
          ([''Links''] @ (if ls = [] then [''  None visible''] else [])
           @ concat (map (print_link (link_names ls)) ls) @ [[]], Ok ())) (links k)"

section \<open>Hardware\<close>

definition print_device :: "device \<Rightarrow> string list" where
  "print_device d =
    [''  '' @ d_name d @ '' index '' @ show_word (d_interface_index d),
     ''    Driver: '' @ unwrap_or ''unknown'' (d_driver d) @ '' module '' @ unwrap_or ''unknown'' (d_driver_module d)
       @ '' version '' @ unwrap_or ''unknown'' (d_driver_version d),
     ''    Link: speed '' @ shown_number (d_speed_mbps d) @ '' Mbit/s, duplex '' @ unwrap_or ''unknown'' (d_duplex d)
       @ '', autonegotiation '' @ optional_bool (d_autonegotiation d) @ '', lanes '' @ shown_number (d_lanes d),
     ''    Port: '' @ unwrap_or ''unknown'' (d_port d) @ '' PHY address ''
       @ unwrap_or ''unknown'' (map_option show_word (d_phy_address d))
       @ '' MDI-X '' @ unwrap_or ''unknown'' (d_mdix d) @ '' transceiver '' @ unwrap_or ''unknown'' (d_transceiver d)]
    @ print_string_list ''Supported modes'' (d_supported_modes d)
    @ print_string_list ''Peer modes'' (d_peer_modes d)
    @ print_string_list ''Hardware features'' (d_hardware_features d)
    @ print_string_list ''Wanted features'' (d_wanted_features d)
    @ print_string_list ''Active features'' (d_active_features d)
    @ (if d_eee_enabled d \<noteq> None \<or> d_eee_active d \<noteq> None then
         [''    EEE: enabled '' @ optional_bool (d_eee_enabled d) @ '', active '' @ optional_bool (d_eee_active d)
            @ '', TX LPI '' @ optional_bool (d_eee_tx_lpi_enabled d) @ '', timer ''
            @ shown_number (d_eee_tx_lpi_timer_us d) @ ''us'']
         @ print_string_list ''EEE modes'' (d_eee_modes d)
         @ print_string_list ''EEE peer modes'' (d_eee_peer_modes d)
       else [])
    @ (if d_statistics d = [] then []
       else ''    Standard hardware statistics:''
         # map (\<lambda>s. ''      '' @ st_group s @ ''.'' @ st_name s @ '': '' @ show_word (st_value s)) (d_statistics d))"

text \<open>The devices that a selection leaves; a selection that leaves none is an error.\<close>

definition select_devices :: "string option \<Rightarrow> device list \<Rightarrow> device list result" where
  "select_devices selection ds =
    (case selection of
       None \<Rightarrow> Ok ds
     | Some name \<Rightarrow>
         let chosen = filter (\<lambda>d. d_name d = name) ds
         in if chosen = [] then Err (Custom NotFound (''no ethtool device named '' @ name)) else Ok chosen)"

definition print_hardware :: "kernel \<Rightarrow> kernel \<Rightarrow> driver_files \<Rightarrow> string option \<Rightarrow> unit printed option" where
  "print_hardware k_route k_generic fs selection =
    map_option (\<lambda>reply. case reply of
        Err e \<Rightarrow> ([], Err e)
      | Ok all \<Rightarrow>
          (case select_devices selection all of
             Err e \<Rightarrow> ([], Err e)
           | Ok ds \<Rightarrow>
               ([''Link hardware''] @ (if ds = [] then [''  None available''] else []) @ concat (map print_device ds), Ok ())))
      (devices k_route k_generic fs)"

end
