(* ===== verification/Cli_Check.thy ===== *)
theory Cli_Check
  imports Cli_Json_Spec Cli_Probe Cli_Tables
begin

text \<open>
  \<open>networkrs check --json\<close> (\<open>check_json\<close> of \<open>main.rs\<close>): the health of the default route, passively from
  the kernel and the files, and actively with ICMP, routes and TCP connections. The display form of
  an error is a parameter.
\<close>

section \<open>The surroundings\<close>

text \<open>\<open>cw_echo\<close> is what happens to the socket and to the three requests of \<open>ping::echo\<close>; every
  nameserver is asked about on a kernel of its own.\<close>

record check_world =
  cw_sysconf :: u64
  cw_bind_error :: "i32 option"
  cw_neighbors :: kernel
  cw_echo :: "i32 option \<times> attempt list"
  cw_route :: "ip_addr \<Rightarrow> kernel"
  cw_dial :: dial

section \<open>The checks\<close>

definition json_check_item :: "string \<Rightarrow> string \<Rightarrow> string \<Rightarrow> json" where
  "json_check_item name status detail = json_object
    [(''name'', json_string name), (''status'', json_string status), (''detail'', json_string detail)]"

text \<open>A check with the number of warnings that it adds.\<close>

type_synonym verdict = "json \<times> nat"

definition interface_check :: "default_ipv4_route \<Rightarrow> string \<Rightarrow> string option \<Rightarrow> verdict" where
  "interface_check d state carrier =
    (if state = ''up'' \<and> carrier = Some ''1''
     then (json_check_item ''interface'' ''ok'' (d_interface d @ '' is up with carrier''), 0)
     else (json_check_item ''interface'' ''warning''
       (d_interface d @ '' state '' @ state @ '', carrier '' @ unwrap_or ''unknown'' carrier), 1))"

definition gateway_check :: "default_ipv4_route \<Rightarrow> neighbor list \<Rightarrow> verdict" where
  "gateway_check d ns =
    (if d_gateway d = 0 then (json_check_item ''gateway-neighbor'' ''not-applicable'' ''direct default route'', 0)
     else case find (\<lambda>n. n_address n = V4 (d_gateway d)) ns of
       Some n \<Rightarrow> (json_check_item ''gateway-neighbor'' ''ok''
         (show_ipv4 (d_gateway d) @ '' lladdr '' @ unwrap_or ''unknown'' (n_link_address n) @ '' '' @ n_state n), 0)
     | None \<Rightarrow> (json_check_item ''gateway-neighbor'' ''warning''
         (show_ipv4 (d_gateway d) @ '' is not in the resolved ARP cache''), 1))"

definition dns_check :: "string list \<Rightarrow> verdict" where
  "dns_check servers =
    (if servers = [] then (json_check_item ''dns'' ''warning'' (''no nameserver configured in '' @ RESOLV_CONF), 1)
     else (json_check_item ''dns'' ''ok'' (''nameserver '' @ join '', '' servers), 0))"

definition json_duration :: "nat option \<Rightarrow> json" where
  "json_duration duration = optional_number (\<lambda>d. shortest_text 53 (as_milliseconds d)) duration"

text \<open>Permission errors (1 and 13) only skip the check.\<close>

definition icmp_check :: "(io_error \<Rightarrow> string) \<Rightarrow> default_ipv4_route \<Rightarrow> ping_result result \<Rightarrow> verdict list" where
  "icmp_check show_error d echoed =
    (if d_gateway d = 0 then []
     else case echoed of
       Ok r \<Rightarrow>
         if 0 < p_received r then
           [(json_object
              [(''name'', json_string ''gateway-icmp''), (''status'', json_string ''ok''),
               (''address'', json_string (show_ipv4 (d_gateway d))),
               (''transmitted'', json_number show_word (p_transmitted r)),
               (''received'', json_number show_word (p_received r)),
               (''lossPercent'', json_number (\<lambda>r. shortest_text 53 (ping_loss r)) r),
               (''minimumMilliseconds'', json_duration (p_minimum r)),
               (''averageMilliseconds'', json_duration (p_average r)),
               (''maximumMilliseconds'', json_duration (p_maximum r))], 0)]
         else
           [(json_object
              [(''name'', json_string ''gateway-icmp''), (''status'', json_string ''warning''),
               (''address'', json_string (show_ipv4 (d_gateway d))),
               (''transmitted'', json_number show_word (p_transmitted r)),
               (''received'', json_number show_word (p_received r)),
               (''lossPercent'', json_number decimal 100)], 1)]
     | Err e \<Rightarrow>
         if raw_os_error e \<in> {Some 1, Some 13}
         then [(json_check_item ''gateway-icmp'' ''skipped'' (show_error e), 0)]
         else [(json_check_item ''gateway-icmp'' ''warning'' (show_error e), 1)])"

definition dns_tcp_check :: "dial \<Rightarrow> ip_addr \<Rightarrow> verdict" where
  "dns_tcp_check dial address =
    (case dial address 53 of
       (Ok _, _, elapsed) \<Rightarrow>
         (json_check_item ''dns-tcp'' ''ok'' (show_ip address @ '':53 connected in '' @ millis_text 1 elapsed @ ''ms''), 0)
     | (Err e, message, elapsed) \<Rightarrow>
         if e = Os 111
         then (json_check_item ''dns-tcp'' ''reached''
           (show_ip address @ '':53 refused in '' @ millis_text 1 elapsed @ ''ms''), 0)
         else (json_check_item ''dns-tcp'' ''warning'' (show_ip address @ '':53 '' @ message), 1))"

definition dns_route_check ::
  "(io_error \<Rightarrow> string) \<Rightarrow> (i32, string) map \<Rightarrow> check_world \<Rightarrow> string \<Rightarrow> verdict list option" where
  "dns_route_check show_error names w server =
    (case parse_ip server of
       None \<Rightarrow> Some [(json_check_item ''dns-route'' ''skipped'' (server @ '' is not an IP address''), 0)]
     | Some address \<Rightarrow>
         map_option (\<lambda>reply. case reply of
             Err e \<Rightarrow> [(json_check_item ''dns-route'' ''warning'' (show_ip address @ '': '' @ show_error e), 1)]
           | Ok route \<Rightarrow>
               [(json_check_item ''dns-route'' ''ok'' (show_ip address @ '' dev ''
                   @ unwrap_or ''unknown'' (map_option (interface_label names) (r_interface_index route))), 0),
                dns_tcp_check (cw_dial w) address])
           (ip_route (cw_route w address) address))"

text \<open>The checks of all nameservers; \<open>None\<close> while some kernel has not answered.\<close>

fun dns_route_checks ::
  "(io_error \<Rightarrow> string) \<Rightarrow> (i32, string) map \<Rightarrow> check_world \<Rightarrow> string list \<Rightarrow> verdict list option" where
  "dns_route_checks show_error names w [] = Some []"
| "dns_route_checks show_error names w (server # servers) =
    Option.bind (dns_route_check show_error names w server) (\<lambda>vs.
      map_option (\<lambda>rest. vs @ rest) (dns_route_checks show_error names w servers))"

definition active_checks ::
  "(io_error \<Rightarrow> string) \<Rightarrow> host \<Rightarrow> check_world \<Rightarrow> default_ipv4_route \<Rightarrow> string list \<Rightarrow> verdict list option" where
  "active_checks show_error h w d servers =
    map_option (\<lambda>vs. icmp_check show_error d (case_prod echo (cw_echo w)) @ vs)
      (dns_route_checks show_error (interface_names h) w servers)"

definition check_document :: "bool \<Rightarrow> verdict list \<Rightarrow> json \<times> bool" where
  "check_document active verdicts =
    (let warnings = sum_list (map snd verdicts)
     in (json_object
          [(''active'', Bool active), (''healthy'', Bool (warnings = 0)),
           (''warnings'', json_number decimal warnings), (''checks'', Array (map fst verdicts))],
         warnings = 0))"

definition default_route_check :: "default_ipv4_route \<Rightarrow> verdict" where
  "default_route_check d =
    (json_check_item ''default-route'' ''ok''
      (''via '' @ show_ipv4 (d_gateway d) @ '' dev '' @ d_interface d @ '' metric '' @ show_word (d_metric d)), 0)"

text \<open>An active check first sends a datagram to the gateway, so that the kernel resolves it; only the
  socket can fail.\<close>

definition check_json :: "(io_error \<Rightarrow> string) \<Rightarrow> host \<Rightarrow> check_world \<Rightarrow> bool \<Rightarrow> (json \<times> bool) result option" where
  "check_json show_error h w active =
    (case fs_read_to_string h PROC_NET_ROUTE of
       Err e \<Rightarrow> Some (Err e)
     | Ok contents \<Rightarrow>
         (case parse_default_ipv4_route contents of
            None \<Rightarrow> Some (Err (Custom NotFound ''no usable default IPv4 route''))
          | Some d \<Rightarrow>
              let path = path_join SYS_CLASS_NET (d_interface d);
                  state = interface_state h path (interface_kind h path);
                  carrier = read_trimmed_at h (path_join path ''carrier'')
              in case (if active \<and> d_gateway d \<noteq> 0 then cw_bind_error w else None) of
                   Some code \<Rightarrow> Some (Err (Os code))
                 | None \<Rightarrow>
                     (case neighbors (cw_sysconf w) (cw_neighbors w) AF_INET of
                        None \<Rightarrow> None
                      | Some (Err e) \<Rightarrow> Some (Err e)
                      | Some (Ok ns) \<Rightarrow>
                          let servers = nameservers (fs_read_to_string h) RESOLV_CONF;
                              passive = [default_route_check d, interface_check d state carrier,
                                gateway_check d ns, dns_check servers]
                          in map_option (\<lambda>more. Ok (check_document active (passive @ more)))
                               (if active then active_checks show_error h w d servers else Some []))))"

end
