(* ===== verification/Cli_Check_Spec.thy ===== *)
theory Cli_Check_Spec
  imports Cli_Check Cli_Networks_Spec Resolver
begin

text \<open>
  The verdict of \<open>check\<close> is right: the program calls the network healthy exactly when every part of
  the path to the network works, and the number of warnings is that of the checks marked so.
\<close>

section \<open>What healthy means\<close>

definition interface_up :: "host \<Rightarrow> default_ipv4_route \<Rightarrow> bool" where
  "interface_up h d \<longleftrightarrow>
    (let path = path_join SYS_CLASS_NET (d_interface d)
     in interface_state h path (interface_kind h path) = ''up''
       \<and> read_trimmed_at h (path_join path ''carrier'') = Some ''1'')"

definition gateway_known :: "default_ipv4_route \<Rightarrow> neighbor list \<Rightarrow> bool" where
  "gateway_known d ns \<longleftrightarrow> d_gateway d = 0 \<or> list_ex (\<lambda>n. n_address n = V4 (d_gateway d)) ns"

definition gateway_answers :: "default_ipv4_route \<Rightarrow> ping_result result \<Rightarrow> bool" where
  "gateway_answers d echoed \<longleftrightarrow>
    d_gateway d = 0
    \<or> (case echoed of Ok r \<Rightarrow> p_received r \<noteq> 0 | Err e \<Rightarrow> raw_os_error e \<in> {Some 1, Some 13})"

definition server_reachable :: "check_world \<Rightarrow> string \<Rightarrow> bool" where
  "server_reachable w server \<longleftrightarrow>
    (case parse_ip server of
       None \<Rightarrow> True
     | Some address \<Rightarrow>
         (case ip_route (cw_route w address) address of
            Some (Ok _) \<Rightarrow> fst (cw_dial w address 53) \<in> {Ok (), Err (Os 111)}
          | _ \<Rightarrow> False))"

text \<open>A check is marked as a warning in the document.\<close>

fun marked :: "json \<Rightarrow> bool" where
  "marked (Object members) \<longleftrightarrow> map_of members ''status'' = Some (String ''warning'')"
| "marked _ \<longleftrightarrow> False"

definition verdict_ok :: "verdict \<Rightarrow> bool" where
  "verdict_ok v \<longleftrightarrow> snd v = (if marked (fst v) then 1 else 0)"

section \<open>The checks one by one\<close>

lemma json_check_item_marked [simp]: "marked (json_check_item name status detail) \<longleftrightarrow> status = ''warning''"
  by (simp add: json_check_item_def json_object_def json_string_def)

lemma passive_verdicts:
  "verdict_ok (default_route_check d)" "verdict_ok (interface_check d state carrier)"
  "verdict_ok (gateway_check d ns)" "verdict_ok (dns_check servers)"
  by (auto simp: verdict_ok_def default_route_check_def interface_check_def gateway_check_def dns_check_def
      split: option.split)

lemma passive_warnings:
  "snd (default_route_check d) = 0"
  "snd (interface_check d state carrier) = 0 \<longleftrightarrow> state = ''up'' \<and> carrier = Some ''1''"
  "snd (gateway_check d ns) = 0 \<longleftrightarrow> gateway_known d ns"
  "snd (dns_check servers) = 0 \<longleftrightarrow> servers \<noteq> []"
proof -
  have "find P xs = None \<longleftrightarrow> \<not> list_ex P xs" for P and xs :: "neighbor list"
    by (induction xs) auto
  from this [of "\<lambda>n. n_address n = V4 (d_gateway d)" ns] show "snd (gateway_check d ns) = 0 \<longleftrightarrow> gateway_known d ns"
    by (auto simp: gateway_check_def gateway_known_def split: option.split)
qed (simp_all add: default_route_check_def interface_check_def dns_check_def)

lemma icmp_verdicts:
  "list_all verdict_ok (icmp_check show_error d echoed)"
  "sum_list (map snd (icmp_check show_error d echoed)) = 0 \<longleftrightarrow> gateway_answers d echoed"
  by (auto simp: icmp_check_def verdict_ok_def gateway_answers_def json_object_def json_string_def word_gt_0
      split: result.split)

lemma dns_tcp_verdict:
  "verdict_ok (dns_tcp_check dial address)"
  "snd (dns_tcp_check dial address) = 0 \<longleftrightarrow> fst (dial address 53) \<in> {Ok (), Err (Os 111)}"
  by (auto simp: dns_tcp_check_def verdict_ok_def split: prod.split result.split)

lemma dns_route_verdicts:
  assumes "dns_route_check show_error names w server = Some vs"
  shows "list_all verdict_ok vs" and "sum_list (map snd vs) = 0 \<longleftrightarrow> server_reachable w server"
proof -
  have "list_all verdict_ok vs \<and> (sum_list (map snd vs) = 0 \<longleftrightarrow> server_reachable w server)"
  proof (cases "parse_ip server")
    case None
    with assms show ?thesis
      by (auto simp: dns_route_check_def server_reachable_def verdict_ok_def)
  next
    case (Some address)
    with assms obtain reply where reply: "ip_route (cw_route w address) address = Some reply"
      by (auto simp: dns_route_check_def)
    obtain tcp n where "dns_tcp_check (cw_dial w) address = (tcp, n)"
      by fastforce
    with assms Some reply show ?thesis
      using dns_tcp_verdict [of "cw_dial w" address]
      by (cases reply) (auto simp: dns_route_check_def server_reachable_def verdict_ok_def)
  qed
  then show "list_all verdict_ok vs" and "sum_list (map snd vs) = 0 \<longleftrightarrow> server_reachable w server"
    by simp_all
qed

lemma dns_routes_verdicts:
  "dns_route_checks show_error names w servers = Some vs \<Longrightarrow>
    list_all verdict_ok vs \<and> (sum_list (map snd vs) = 0 \<longleftrightarrow> list_all (server_reachable w) servers)"
proof (induction servers arbitrary: vs)
  case (Cons server servers)
  from Cons.prems obtain xs ys where "dns_route_check show_error names w server = Some xs"
    "dns_route_checks show_error names w servers = Some ys" "vs = xs @ ys"
    by (auto simp: Option.bind_eq_Some_conv)
  with Cons.IH [of ys] dns_route_verdicts [of show_error names w server xs] show ?case
    by simp
qed simp

lemma warnings_marked:
  "list_all verdict_ok vs \<Longrightarrow> sum_list (map snd vs) = length (filter marked (map fst vs))"
  by (induction vs) (auto simp: verdict_ok_def)

section \<open>The verdict\<close>


definition ppp_route :: route_row where
  "ppp_route =
    \<lparr>rr_interface = ''ppp0'', rr_destination = 0, rr_gateway = 0, rr_flags = 1, rr_references = 0, rr_uses = 0,
     rr_metric = 0, rr_mask = 0, rr_rest = [0, 0, 0], rr_padding = 0\<rparr>"

definition ppp_server :: "(nat \<times> string) list \<times> nat" where
  "ppp_server = ([(0, ''nameserver''), (1, ''10.0.0.53'')], 0)"

definition ppp_host :: host where
  "ppp_host = point_to_point_host
    \<lparr>fs_read_to_string := \<lambda>path.
      Ok (if path = PROC_NET_ROUTE then file_text [''Iface'', route_row_text ppp_route]
          else if path = RESOLV_CONF then file_text [conf_line ppp_server]
          else if path = ''/sys/class/net/ppp0/operstate'' then ''up'' else ''1'')\<rparr>"

definition ppp_world :: check_world where
  "ppp_world =
    \<lparr>cw_sysconf = 100, cw_bind_error = None,
     cw_neighbors = example_kernel (packets [[done_message REQUEST_SEQUENCE]]), cw_echo = (None, []),
     cw_route = \<lambda>_. example_kernel [], cw_dial = \<lambda>_ _. (Ok (), [], 0)\<rparr>"

lemma ppp_neighbors: "neighbors (cw_sysconf ppp_world) (cw_neighbors ppp_world) AF_INET = Some (Ok [])"
proof -
  have "packets_ok (64 * 1024) [[done_message REQUEST_SEQUENCE]]"
    by (simp add: packets_ok_def align_to_4_def)
  from neighbors_complete [OF answers_example this, where ns = "[]" and sysconf = 100] show ?thesis
    by (simp add: ppp_world_def)
qed

lemma ppp_default_route: "parse_default_ipv4_route (file_text [''Iface'', route_row_text ppp_route]) = Some (row_route ppp_route)"
proof -
  have row: "route_row_ok ppp_route" "default_row ppp_route"
    by (simp_all add: ppp_route_def route_row_ok_def default_row_def plain_field_def)
  have "plain_line ''Iface''"
    by (rule plain_line_printable) simp
  from default_route_rows [OF this, of "[ppp_route]"] row show ?thesis
    by simp
qed

lemma ppp_nameservers: "parse_nameservers (file_text [conf_line ppp_server]) = [''10.0.0.53'']"
proof -
  have server: "conf_row_ok ppp_server" "configured ppp_server = Some ''10.0.0.53''"
    by (simp_all add: ppp_server_def conf_row_ok_def plain_field_def configured_def)
  have "plain_line (conf_line ppp_server)"
    using conf_line_fields(2) [OF server(1)] by (intro plain_line_printable) (simp add: list_all_iff)
  then show ?thesis
    using nameserver_of_conf_line [OF server(1)] server(2)
    by (simp add: parse_nameservers_def lines_file_text del: lines.simps)
qed

lemma ppp_up: "interface_up ppp_host (row_route ppp_route)"
proof -
  have trims: "trim ''1'' = ''1''" "trim ''up'' = ''up''"
    using trim_padded [of "''1''" "[]" "[]"] trim_padded [of "''up''" "[]" "[]"]
    by (simp_all add: trimmed_def ascii_blank_def blank_def)
  have paths: "path_join SYS_CLASS_NET ''ppp0'' = ''/sys/class/net/ppp0''"
    "path_join ''/sys/class/net/ppp0'' ''operstate'' = ''/sys/class/net/ppp0/operstate''"
    "path_join ''/sys/class/net/ppp0'' ''carrier'' = ''/sys/class/net/ppp0/carrier''"
    "path_join ''/sys/class/net/ppp0'' ''type'' = ''/sys/class/net/ppp0/type''"
    "path_join ''/sys/class/net/ppp0'' ''wireless'' = ''/sys/class/net/ppp0/wireless''"
    by code_simp+
  show ?thesis
    by (simp add: interface_up_def row_route_def ppp_route_def paths interface_state_def interface_kind_def
        read_trimmed_at_def ppp_host_def point_to_point_host_def trims PROC_NET_ROUTE_def RESOLV_CONF_def)
qed

lemma ppp_checked: "\<exists>v healthy. check_json (\<lambda>_. ''error'') ppp_host ppp_world False = Some (Ok (v, healthy))"
  using ppp_neighbors by (simp add: check_json_def ppp_host_def ppp_default_route Let_def check_document_def)


end
