(* ===== verification/Cli_Net_Tables.thy ===== *)
theory Cli_Net_Tables
  imports Cli_Tables
begin

text \<open>
  The tables of addresses, routes, policy rules, neighbors and resolver entries, and the text of
  \<open>scan\<close> (\<open>main.rs\<close>).
\<close>

section \<open>Addresses\<close>

definition format_lifetime :: "u32 option \<Rightarrow> string" where
  "format_lifetime lifetime = unwrap_or ''forever'' (map_option (\<lambda>s. show_word s @ ''s'') lifetime)"

definition print_address :: "(i32, string) map \<Rightarrow> address \<Rightarrow> string" where
  "print_address names a =
    (let interface = interface_label names (a_interface_index a)
     in ''  '' @ prefix_text (a_local a, a_prefix a) @ '' dev '' @ interface
        @ field_text '' peer '' show_ip (a_peer a)
        @ field_text '' broadcast '' show_ip (a_broadcast a)
        @ field_text '' label '' id (option_filter (\<lambda>l. l \<noteq> interface) (a_label a))
        @ '' scope '' @ a_scope a @ '' flags '' @ a_flags a
        @ '' preferred '' @ format_lifetime (a_preferred_lifetime a)
        @ '' valid '' @ format_lifetime (a_valid_lifetime a))"

definition print_addresses :: "host \<Rightarrow> kernel \<times> kernel \<Rightarrow> unit printed option" where
  "print_addresses h k =
    map_option (\<lambda>reply. case reply of
        Err e \<Rightarrow> ([], Err e)
      | Ok as \<Rightarrow>
          ([''IP addresses''] @ (if as = [] then [''  None configured''] else [])
           @ map (print_address (interface_names h)) as, Ok ())) (case_prod ip_addresses k)"

section \<open>Routes\<close>

definition route_target :: "ip_addr \<Rightarrow> u8 \<Rightarrow> string" where
  "route_target destination prefix_length =
    (if is_unspecified destination \<and> prefix_length = 0 then ''default'' else prefix_text (destination, prefix_length))"

fun ip_family_text :: "ip_addr \<Rightarrow> string" where
  "ip_family_text (V4 _) = ''IPv4''"
| "ip_family_text (V6 _) = ''IPv6''"

definition route_table :: "u32 \<Rightarrow> string" where
  "route_table table =
    (if table = 0 then ''unspecified''
     else if table = 253 then ''default''
     else if table = 254 then ''main''
     else if table = 255 then ''local''
     else show_word table)"

definition print_next_hop :: "(i32, string) map \<Rightarrow> next_hop \<Rightarrow> string" where
  "print_next_hop names hop =
    ''    nexthop'' @ field_text '' via '' show_ip (nh_gateway hop) @ '' dev ''
    @ interface_label names (nh_interface_index hop) @ '' weight '' @ show_word (nh_weight hop)
    @ flags_text (nh_flags hop)"

definition print_route :: "(i32, string) map \<Rightarrow> route \<Rightarrow> string list" where
  "print_route names r =
    (''  '' @ ip_family_text (r_destination r) @ '' '' @ route_target (r_destination r) (r_prefix r)
       @ field_text '' from '' prefix_text (r_source_prefix r)
       @ field_text '' via '' show_ip (r_gateway r)
       @ field_text '' dev '' (interface_label names) (r_interface_index r)
       @ '' table '' @ route_table (r_table r) @ '' protocol '' @ r_protocol r
       @ '' scope '' @ r_scope r @ '' type '' @ r_kind r
       @ field_text '' metric '' show_word (r_metric r)
       @ field_text '' source '' show_ip (r_source r))
    # map (print_next_hop names) (r_next_hops r)"

text \<open>The heading is written before the kernel is asked.\<close>

definition print_routes :: "host \<Rightarrow> kernel \<times> kernel \<Rightarrow> unit printed option" where
  "print_routes h k =
    map_option (\<lambda>reply. case reply of
        Err e \<Rightarrow> ([''Routes''], Err e)
      | Ok rs \<Rightarrow>
          ([''Routes''] @ concat (map (print_route (interface_names h)) rs)
           @ (if rs = [] then [''  None visible''] else []) @ [[]], Ok ())) (case_prod ip_routes k)"

text \<open>\<open>IpFamily\<close> and its display form.\<close>

definition show_family :: "ip_family \<Rightarrow> string" where
  "show_family family = (case family of Ipv4 \<Rightarrow> ''IPv4'' | Ipv6 \<Rightarrow> ''IPv6'')"

definition print_rule :: "rule \<Rightarrow> string" where
  "print_rule r =
    ''  '' @ show_family (ru_family r) @ '' '' @ show_word (ru_priority r) @ '':''
    @ unwrap_or '' from all'' (map_option (\<lambda>p. '' from '' @ prefix_text p) (ru_source r))
    @ field_text '' to '' prefix_text (ru_destination r)
    @ field_text '' iif '' id (ru_input_interface r)
    @ field_text '' oif '' id (ru_output_interface r)
    @ field_text '' fwmark 0x'' (\<lambda>mark. hexadecimal (unat mark) @ ''/0x''
        @ hexadecimal (unat (unwrap_or (- 1) (ru_fwmask r)))) (ru_fwmark r)
    @ '' action '' @ ru_action r @ '' table '' @ route_table (ru_table r)
    @ field_text '' goto '' show_word (ru_goto r)
    @ flags_text (ru_flags r)"

definition print_policy_rules :: "kernel \<times> kernel \<Rightarrow> unit printed option" where
  "print_policy_rules k =
    map_option (\<lambda>reply. case reply of
        Err e \<Rightarrow> ([], Err e)
      | Ok rs \<Rightarrow>
          ([''IP policy rules''] @ (if rs = [] then [''  None configured''] else []) @ map print_rule rs @ [[]], Ok ()))
      (case_prod ip_rules k)"

text \<open>\<open>route_to\<close> is \<open>netlink::ip_route\<close>.\<close>

definition route_to :: "kernel \<Rightarrow> ip_addr \<Rightarrow> route result option" where
  "route_to k destination = ip_route k destination"

definition print_route_to :: "host \<Rightarrow> kernel \<Rightarrow> ip_addr \<Rightarrow> unit printed option" where
  "print_route_to h k destination =
    map_option (\<lambda>reply. case reply of
        Err e \<Rightarrow> ([], Err e)
      | Ok r \<Rightarrow>
          ([''Route to '' @ show_ip destination,
            ''  Gateway: '' @ unwrap_or ''directly connected'' (map_option show_ip (r_gateway r))]
           @ print_value ''Interface'' (map_option (interface_label (interface_names h)) (r_interface_index r))
           @ print_value ''Source'' (map_option show_ip (r_source r))
           @ print_value ''Metric'' (map_option show_word (r_metric r))
           @ [''  Table: '' @ route_table (r_table r), ''  Protocol: '' @ r_protocol r, ''  Scope: '' @ r_scope r,
              ''  Type: '' @ r_kind r], Ok ())) (route_to k destination)"

section \<open>Neighbors\<close>

definition neighbor_ages :: "neighbor \<Rightarrow> string" where
  "neighbor_ages n =
    field_text '' confirmed '' (\<lambda>age. format_age age @ '' ago'') (n_confirmed_ms_ago n)
    @ field_text '' used '' (\<lambda>age. format_age age @ '' ago'') (n_used_ms_ago n)
    @ field_text '' updated '' (\<lambda>age. format_age age @ '' ago'') (n_updated_ms_ago n)
    @ field_text '' references '' show_word (n_reference_count n)"

text \<open>The mark of a neighbor, when those that a scan has changed are known.\<close>

definition neighbor_marker :: "ipv4_addr set option \<Rightarrow> neighbor \<Rightarrow> string" where
  "neighbor_marker changed n =
    (case changed of
       None \<Rightarrow> []
     | Some c \<Rightarrow>
         if (case n_address n of V4 address \<Rightarrow> address \<in> c | V6 _ \<Rightarrow> False) then ''+ '' else ''  '')"

definition print_neighbor ::
  "(i32, string) map \<Rightarrow> vendors \<Rightarrow> (ip_addr, string) map \<Rightarrow> ipv4_addr set option \<Rightarrow> neighbor \<Rightarrow> string list" where
  "print_neighbor interfaces vendors names changed n =
    [''  '' @ neighbor_marker changed n @ show_ip (n_address n) @ field_text '' name '' id (names (n_address n))
       @ '' dev '' @ interface_label interfaces (n_interface_index n)
       @ field_text '' lladdr '' id (n_link_address n)
       @ field_text '' vendor '' id (Option.bind (n_link_address n) (\<lambda>a. vendor_of a vendors))
       @ '' '' @ n_state n,
     ''  '' @ neighbor_marker changed n @ ''  type '' @ n_kind n
       @ field_text '' protocol '' id (n_protocol n) @ flags_text (n_flags n)
       @ field_text '' probes '' show_word (n_probes n)
       @ field_text '' master '' (interface_label interfaces) (n_master_index n)
       @ neighbor_ages n]"

text \<open>The outer surroundings of name resolution: which threads panic, and \<open>getnameinfo\<close>.\<close>

record naming =
  nm_panics :: "nat \<Rightarrow> bool"
  nm_getnameinfo :: "bytes \<Rightarrow> bytes option"

definition print_neighbor_entries ::
  "host \<Rightarrow> naming \<Rightarrow> neighbor list \<Rightarrow> bool \<Rightarrow> ipv4_addr set option \<Rightarrow> string \<Rightarrow> string list" where
  "print_neighbor_entries h nm ns resolve_names changed empty_message =
    (let names = (if resolve_names
           then reverse_names (nm_panics nm) (reverse_name (nm_getnameinfo nm)) (map n_address ns) else Map.empty)
     in [''Neighbors''] @ (if ns = [] then [''  '' @ empty_message] else [])
        @ concat (map (print_neighbor (interface_names h) (load_vendors (fs_read_to_string h)) names changed) ns) @ [[]])"

text \<open>The entries of \<open>interface_names\<close> in the order of the directory. The names of a directory are
  distinct, so that at most one index has a given name and the order of the \<open>HashMap\<close> does not
  matter.\<close>

definition interface_entries :: "host \<Rightarrow> (i32 \<times> string) list" where
  "interface_entries h =
    (case fs_read_dir h SYS_CLASS_NET of
       Err _ \<Rightarrow> []
     | Ok entries \<Rightarrow>
         filter_map (\<lambda>path.
             case to_str (entry_name path) of
               None \<Rightarrow> None
             | Some name \<Rightarrow>
                 (case Option.bind (read_trimmed_at h (path_join path ''ifindex'')) parse_i32 of
                    None \<Rightarrow> None
                  | Some index \<Rightarrow> Some (index, name)))
           (filter_map result_option entries))"

definition interface_index :: "host \<Rightarrow> string \<Rightarrow> i32 option" where
  "interface_index h selection =
    find_map (\<lambda>(index, name). if name = selection \<and> interface_names h index = Some name then Some index else None)
      (interface_entries h)"

text \<open>The index of a selected interface, if any was selected.\<close>

definition selected_index :: "host \<Rightarrow> string option \<Rightarrow> i32 option result" where
  "selected_index h selection =
    (case selection of
       None \<Rightarrow> Ok None
     | Some name \<Rightarrow>
         (case interface_index h name of
            None \<Rightarrow> Err (Custom NotFound (''interface '' @ name @ '' does not exist''))
          | Some index \<Rightarrow> Ok (Some index)))"

definition on_interface :: "i32 option \<Rightarrow> neighbor \<Rightarrow> bool" where
  "on_interface selected n \<longleftrightarrow> (case selected of None \<Rightarrow> True | Some index \<Rightarrow> n_interface_index n = index)"

definition print_neighbors ::
  "host \<Rightarrow> naming \<Rightarrow> u64 \<Rightarrow> kernel \<times> kernel \<Rightarrow> string option \<Rightarrow> unit printed option" where
  "print_neighbors h nm sysconf k selection =
    (case selected_index h selection of
       Err e \<Rightarrow> Some ([], Err e)
     | Ok selected \<Rightarrow>
         map_option (\<lambda>reply. case reply of
             Err e \<Rightarrow> ([], Err e)
           | Ok ns \<Rightarrow>
               (print_neighbor_entries h nm (filter (on_interface selected) ns) False None ''None cached'', Ok ()))
           (case_prod (ip_neighbors sysconf) k))"

section \<open>A scan\<close>

definition print_network :: "network \<Rightarrow> string" where
  "print_network n =
    ''Scanning '' @ show_ipv4 (network.w_network n) @ ''/'' @ show_word (w_prefix n) @ '' via '' @ w_interface n
    @ '' ('' @ show_word (target_count n) @ '' targets)''"

definition scan_summary :: "scan_report \<Rightarrow> string" where
  "scan_summary r =
    (let neighbor_count = length (sr_neighbors (rp_result r));
         changed_count = card (sr_changed (rp_result r));
         elapsed = fixed_text 1 (as_secs_f32 (sr_elapsed (rp_result r))) @ ''s''
     in case sa_filter (rp_arguments r) of
          Some f \<Rightarrow>
            ''Scan complete: '' @ decimal (length (rp_neighbors r)) @ '' '' @ scan_filter_name f @ '' of ''
            @ decimal neighbor_count @ '' neighbors, '' @ decimal changed_count @ '' new or changed, '' @ elapsed
        | None \<Rightarrow>
            ''Scan complete: '' @ decimal neighbor_count @ '' neighbors, '' @ decimal changed_count
            @ '' new or changed, '' @ elapsed)"

text \<open>The networks are listed before they are probed, so also when the scan fails.\<close>

definition print_scan :: "host \<Rightarrow> naming \<Rightarrow> surroundings \<Rightarrow> string list \<Rightarrow> unit printed option" where
  "print_scan h nm e arguments =
    (case parse_scan_arguments arguments of
       Err err \<Rightarrow> Some ([], Err err)
     | Ok a \<Rightarrow>
         (case scan_networks h (e_addresses e) (e_route e) (sa_selection a) of
            None \<Rightarrow> None
          | Some (Err err) \<Rightarrow> Some ([], Err err)
          | Some (Ok networks) \<Rightarrow>
              map_option (\<lambda>(outcome, _). case outcome of
                  Err err \<Rightarrow> (map print_network networks, Err err)
                | Ok result \<Rightarrow>
                    let r = \<lparr>rp_arguments = a, rp_networks = networks,
                          rp_neighbors = retained (sa_filter a) result, rp_result = result\<rparr>
                    in (map print_network networks
                        @ print_neighbor_entries h nm (rp_neighbors r) (sa_resolve_names a) (Some (sr_changed result))
                            (if sa_filter a \<noteq> None then ''None matched the filter'' else ''None cached'')
                        @ [scan_summary r], Ok ()))
                (scan (e_sysconf e) (e_before e) (e_after e) (e_bind_error e) (e_elapsed e) networks (options_of a))))"

section \<open>Name resolution\<close>

definition dns_entry :: "string \<Rightarrow> string option" where
  "dns_entry raw =
    (let line = trim raw
     in if line = [] \<or> starts_with (CHR ''#'') line \<or> starts_with (CHR '';'') line then None
        else case split_whitespace line of
          [] \<Rightarrow> None
        | directive # vs \<Rightarrow>
            let v = join '' '' vs
            in if directive = ''nameserver'' then Some (''  Nameserver: '' @ v)
               else if directive = ''search'' then Some (''  Search domains: '' @ v)
               else if directive = ''domain'' then Some (''  Domain: '' @ v)
               else if directive = ''options'' then Some (''  Options: '' @ v)
               else None)"

definition print_dns :: "host \<Rightarrow> string option \<Rightarrow> string list" where
  "print_dns h canonical_path =
    [''DNS'', ''  Configuration: '' @ unwrap_or RESOLV_CONF canonical_path]
    @ (case fs_read_to_string h RESOLV_CONF of
         Err _ \<Rightarrow> [''  Unavailable'']
       | Ok contents \<Rightarrow>
           (case filter_map dns_entry (lines contents) of
              [] \<Rightarrow> [''  No resolver entries'']
            | entries \<Rightarrow> entries))"

end
