(* ===== verification/Cli_Tools.thy ===== *)
theory Cli_Tools
  imports Cli_Net_Tables Wifi
begin

text \<open>
  The output of \<open>sockets\<close>, \<open>wifi\<close> and \<open>traffic\<close> (\<open>main.rs\<close>). The commands \<open>sockets\<close> and \<open>wifi\<close> print a table
  or a document; \<open>traffic\<close> prints one sample, or samples until it fails, on a terminal each in the
  place of the one before.
\<close>

section \<open>Sockets\<close>

definition socket_owner :: "(u32, string) map \<Rightarrow> network_socket \<Rightarrow> string" where
  "socket_owner users s =
    (if s_inode s = 0 then ''kernel''
     else unwrap_or (show_word (s_uid s)) (map_option (\<lambda>name. name @ ''('' @ show_word (s_uid s) @ '')'') (users (s_uid s))))"

definition print_tcp_diagnostic :: "string option \<Rightarrow> tcp_diagnostic \<Rightarrow> string" where
  "print_tcp_diagnostic congestion tcp =
    ''    TCP RTT '' @ format_microseconds (td_rtt_us tcp) @ '' variance '' @ format_microseconds (td_rtt_variance_us tcp)
    @ '' RTO '' @ format_microseconds (td_rto_us tcp) @ '' cwnd '' @ show_word (td_send_cwnd tcp)
    @ '' ssthresh '' @ show_word (td_send_ssthresh tcp) @ '' unacked '' @ show_word (td_unacked tcp)
    @ '' lost '' @ show_word (td_lost tcp) @ '' retransmitted '' @ show_word (td_retransmitted tcp)
    @ '' total-retransmits '' @ show_word (td_total_retransmits tcp) @ '' PMTU '' @ show_word (td_path_mtu tcp)
    @ '' MSS '' @ show_word (td_send_mss tcp) @ ''/'' @ show_word (td_receive_mss tcp)
    @ field_text '' congestion '' id congestion"

definition print_diagnostic :: "(i32, string) map \<Rightarrow> socket_diagnostic \<Rightarrow> string list" where
  "print_diagnostic names d =
    (''    queues RX '' @ show_word (sd_receive_queue d) @ '' B TX '' @ show_word (sd_send_queue d) @ '' B''
       @ (if sd_interface_index d \<noteq> 0 then '' dev '' @ interface_label names (sd_interface_index d) else [])
       @ (if sd_timer d = ''off'' then '' timer off''
          else '' timer '' @ sd_timer d @ '' expires '' @ show_word (sd_expires_ms d) @ ''ms retransmits ''
            @ show_word (sd_retransmits d)))
    # (case sd_tcp d of None \<Rightarrow> [] | Some tcp \<Rightarrow> [print_tcp_diagnostic (sd_congestion d) tcp])"

definition print_socket ::
  "(u32, string) map \<Rightarrow> attribution \<Rightarrow> (protocol \<times> socket_addr \<times> socket_addr, socket_diagnostic) map
    \<Rightarrow> (i32, string) map \<Rightarrow> network_socket \<Rightarrow> string list" where
  "print_socket users processes diagnostics names s =
    (''  '' @ protocol_name (s_protocol s) @ '' '' @ format_socket_endpoint (s_local s) @ '' -> ''
       @ format_socket_endpoint (s_remote s) @ '' '' @ s_state s @ '' owner '' @ socket_owner users s
       @ field_text '' process '' (\<lambda>ps. join '','' (map (\<lambda>p. sp_name p @ ''('' @ show_word (sp_pid p) @ '')'') ps))
           (processes (s_inode s))
       @ '' inode '' @ show_word (s_inode s))
    # (case diagnostics (s_protocol s, s_local s, s_remote s) of None \<Rightarrow> [] | Some d \<Rightarrow> print_diagnostic names d)"

definition diagnostic_notice :: "(io_error \<Rightarrow> string) \<Rightarrow> io_error \<Rightarrow> string" where
  "diagnostic_notice show_error e =
    (if raw_os_error e = Some 2 then ''  Diagnostics unavailable: kernel CONFIG_INET_DIAG is disabled''
     else ''  Diagnostics unavailable: '' @ show_error e)"

definition print_sockets_of ::
  "host \<Rightarrow> proc_entry list option \<Rightarrow> (io_error \<Rightarrow> string) \<Rightarrow> network_socket list \<Rightarrow> socket_diagnostic list result \<Rightarrow> string list" where
  "print_sockets_of h proc_dir show_error shown diagnosed =
    (let inodes = set (filter_map (\<lambda>s. if s_inode s \<noteq> 0 then Some (s_inode s) else None) shown);
         processes = socket_processes proc_dir inodes;
         diagnostics = (case diagnosed of Ok ds \<Rightarrow> diagnostics_map ds | Err _ \<Rightarrow> Map.empty)
     in [''Sockets'']
        @ (case diagnosed of Ok _ \<Rightarrow> [] | Err e \<Rightarrow> [diagnostic_notice show_error e])
        @ (if shown = [] then [''  None visible''] else [])
        @ concat (map (print_socket (user_names (fs_read_to_string h)) processes diagnostics (interface_names h)) shown))"

type_synonym diagnostic_kernels = "kernel \<times> kernel \<times> kernel \<times> kernel"

fun diagnostics_reply :: "diagnostic_kernels \<Rightarrow> socket_diagnostic list result option" where
  "diagnostics_reply (k1, k2, k3, k4) = ip_diagnostics k1 k2 k3 k4"

text \<open>The kernel is only asked for diagnostics when the tables of \<open>/proc\<close> were read.\<close>

definition print_sockets ::
  "host \<Rightarrow> proc_entry list option \<Rightarrow> (io_error \<Rightarrow> string) \<Rightarrow> diagnostic_kernels \<Rightarrow> view \<Rightarrow> unit printed option" where
  "print_sockets h proc_dir show_error k view =
    (case ip_sockets (fs_read_to_string h) of
       Err e \<Rightarrow> Some ([], Err e)
     | Ok all \<Rightarrow>
         map_option (\<lambda>diagnosed. (print_sockets_of h proc_dir show_error (filter (view_matches view) all) diagnosed, Ok ()))
           (diagnostics_reply k))"

definition sockets_document ::
  "host \<Rightarrow> proc_entry list option \<Rightarrow> (io_error \<Rightarrow> string) \<Rightarrow> diagnostic_kernels \<Rightarrow> view \<Rightarrow> json result option" where
  "sockets_document h proc_dir show_error k view =
    (case ip_sockets (fs_read_to_string h) of
       Err e \<Rightarrow> Some (Err e)
     | Ok _ \<Rightarrow>
         map_option (\<lambda>diagnosed. sockets_json (fs_read_to_string h) proc_dir diagnosed show_error view) (diagnostics_reply k))"

section \<open>Wi-Fi\<close>

definition format_bitrate :: "bitrate \<Rightarrow> string" where
  "format_bitrate r =
    fixed_text 1 (br_mbps r) @ '' Mbit/s'' @ field_text '' '' id (br_encoding r) @ field_text '' MCS '' show_word (br_mcs r)
    @ field_text '' '' (\<lambda>s. show_word s @ '' stream(s)'') (br_spatial_streams r)
    @ field_text '' '' (\<lambda>w. show_word w @ '' MHz'') (br_width_mhz r)"

text \<open>\<open>u64::from\<close> of a \<open>u32\<close> is \<open>ucast\<close>; an \<open>i8\<close> is read with \<open>sint\<close>.\<close>

definition print_station :: "station \<Rightarrow> string list" where
  "print_station s =
    (case sta_signal_dbm s of
       None \<Rightarrow> []
     | Some signal \<Rightarrow>
         [''    Station signal: '' @ signed_decimal (sint signal) @ '' dBm (average ''
            @ unwrap_or ''unknown'' (map_option (\<lambda>a. signed_decimal (sint a)) (sta_average_signal_dbm s)) @ '' dBm)''])
    @ print_indented_value ''Inactive'' (map_option (\<lambda>ms. format_age (ucast ms)) (sta_inactive_ms s))
    @ print_indented_value ''Receive bitrate'' (map_option format_bitrate (sta_receive_bitrate s))
    @ print_indented_value ''Transmit bitrate'' (map_option format_bitrate (sta_transmit_bitrate s))
    @ [''    Traffic: RX '' @ unwrap_or ''unknown'' (map_option human_bytes (sta_receive_bytes s)) @ '' in ''
         @ shown_number (sta_receive_packets s) @ '' packets, TX ''
         @ unwrap_or ''unknown'' (map_option human_bytes (sta_transmit_bytes s)) @ '' in ''
         @ shown_number (sta_transmit_packets s) @ '' packets'',
       ''    TX retries: '' @ shown_number (sta_transmit_retries s) @ '', failures: '' @ shown_number (sta_transmit_failures s)]"

definition print_wifi_interface :: "wifi_interface \<Rightarrow> string list" where
  "print_wifi_interface i =
    [''  '' @ w_name i @ '' index '' @ show_word (wifi_interface.w_interface_index i) @ '' type '' @ w_interface_type i]
    @ print_indented_value ''MAC'' (w_mac i)
    @ (case w_wiphy i of
         None \<Rightarrow> []
       | Some wiphy \<Rightarrow> [''    Radio: '' @ unwrap_or ''unnamed'' (w_wiphy_name i) @ '' ('' @ show_word wiphy @ '')''])
    @ print_indented_value ''SSID'' (w_ssid i)
    @ print_indented_value ''BSSID'' (w_bssid i)
    @ print_indented_value ''Frequency'' (map_option (\<lambda>f. show_word f @ '' MHz'') (w_frequency_mhz i))
    @ (case w_signal_dbm i of
         Some signal \<Rightarrow> [''    Signal: '' @ fixed_text 1 signal @ '' dBm'']
       | None \<Rightarrow> print_indented_value ''Signal'' (map_option (\<lambda>s. show_word s @ ''/100'') (w_signal_unspecified i)))
    @ print_indented_value ''Last BSS update'' (map_option (\<lambda>age. format_age (ucast age) @ '' ago'') (w_seen_ms_ago i))
    @ print_indented_value ''Power save'' (map_option (\<lambda>on. if on then ''enabled'' else ''disabled'') (w_power_save i))
    @ (case w_station i of None \<Rightarrow> [] | Some s \<Rightarrow> print_station s)"

definition print_wifi :: "kernel \<Rightarrow> unit printed option" where
  "print_wifi k =
    map_option (\<lambda>reply. case reply of
        Err e \<Rightarrow> ([], Err e)
      | Ok is \<Rightarrow>
          ([''Wi-Fi''] @ (if is = [] then [''  No nl80211 interfaces''] else []) @ concat (map print_wifi_interface is), Ok ()))
      (interfaces k)"

text \<open>The documents; \<open>to_string\<close> of an \<open>f32\<close> is its shortest text.\<close>

definition show_f32 :: "f32 \<Rightarrow> string" where
  "show_f32 x = shortest_text 24 x"

definition json_bitrate :: "bitrate \<Rightarrow> json" where
  "json_bitrate r = json_object
    [(''megabitsPerSecond'', json_number show_f32 (br_mbps r)),
     (''widthMHz'', optional_number show_word (br_width_mhz r)),
     (''mcs'', optional_number show_word (br_mcs r)),
     (''spatialStreams'', optional_number show_word (br_spatial_streams r)),
     (''encoding'', optional_string id (br_encoding r))]"

definition json_wifi_station :: "station \<Rightarrow> json" where
  "json_wifi_station s = json_object
    [(''inactiveMilliseconds'', optional_number show_word (sta_inactive_ms s)),
     (''signalDbm'', optional_number (\<lambda>a. signed_decimal (sint a)) (sta_signal_dbm s)),
     (''averageSignalDbm'', optional_number (\<lambda>a. signed_decimal (sint a)) (sta_average_signal_dbm s)),
     (''receiveBytes'', optional_number show_word (sta_receive_bytes s)),
     (''transmitBytes'', optional_number show_word (sta_transmit_bytes s)),
     (''receivePackets'', optional_number show_word (sta_receive_packets s)),
     (''transmitPackets'', optional_number show_word (sta_transmit_packets s)),
     (''transmitRetries'', optional_number show_word (sta_transmit_retries s)),
     (''transmitFailures'', optional_number show_word (sta_transmit_failures s)),
     (''receiveBitrate'', unwrap_or Null (map_option json_bitrate (sta_receive_bitrate s))),
     (''transmitBitrate'', unwrap_or Null (map_option json_bitrate (sta_transmit_bitrate s)))]"

definition json_wifi :: "wifi_interface \<Rightarrow> json" where
  "json_wifi i = json_object
    [(''interfaceIndex'', json_number show_word (wifi_interface.w_interface_index i)),
     (''interface'', json_string (w_name i)),
     (''type'', json_string (w_interface_type i)),
     (''mac'', optional_string id (w_mac i)),
     (''radioIndex'', optional_number show_word (w_wiphy i)),
     (''radio'', optional_string id (w_wiphy_name i)),
     (''frequencyMHz'', optional_number show_word (w_frequency_mhz i)),
     (''ssid'', optional_string id (w_ssid i)),
     (''bssid'', optional_string id (w_bssid i)),
     (''signalDbm'', optional_number show_f32 (w_signal_dbm i)),
     (''signalUnspecified'', optional_number show_word (w_signal_unspecified i)),
     (''seenMillisecondsAgo'', optional_number show_word (w_seen_ms_ago i)),
     (''powerSave'', optional_json_bool (w_power_save i)),
     (''station'', unwrap_or Null (map_option json_wifi_station (w_station i)))]"

section \<open>Traffic\<close>

definition print_direction_rate :: "string \<Rightarrow> direction_rate \<Rightarrow> string" where
  "print_direction_rate label_text r =
    ''    '' @ label_text @ '': '' @ human_bytes (dr_bytes_per_second r) @ ''/s, '' @ show_word (dr_packets_per_second r)
    @ '' packets/s, '' @ show_word (dr_errors r) @ '' errors, '' @ show_word (dr_dropped r) @ '' dropped''"

definition print_traffic_sample :: "sample \<Rightarrow> string list" where
  "print_traffic_sample s =
    (''Traffic ('' @ fixed_text 1 (as_secs_f32 (s_elapsed s)) @ ''s sample)'')
    # concat (map (\<lambda>i. [''  '' @ ir_interface i, print_direction_rate ''RX'' (ir_received i),
        print_direction_rate ''TX'' (ir_transmitted i)]) (s_interfaces s))"

definition traffic_sample_line_count :: "nat \<Rightarrow> nat" where
  "traffic_sample_line_count interface_count = 1 + interface_count * 3"

text \<open>What is written to the standard output: a line, or the sequence that moves the cursor up by a
  number of lines, to the start of that line, and erases from there on.\<close>

datatype terminal_write = Line string | Erase_up nat

definition escape :: char where
  "escape = char_of (27 :: nat)"

fun write_text :: "terminal_write \<Rightarrow> string" where
  "write_text (Line s) = s @ [newline]"
| "write_text (Erase_up n) = escape # ''['' @ decimal n @ ''A'' @ [carriage_return, escape] @ ''[J''"

text \<open>The state of one interval: the counters before and after, and the time that has passed.\<close>

type_synonym interval = "file_system \<times> file_system \<times> nat"

definition sample_of :: "string option \<Rightarrow> interval \<Rightarrow> sample result" where
  "sample_of selection t = (case t of (before, after, elapsed) \<Rightarrow> sample_traffic before after elapsed selection)"

text \<open>The loop of \<open>print_traffic\<close>: what it has written when it returns, or \<open>None\<close> when it outlives the
  given intervals.\<close>

fun traffic_loop ::
  "bool \<Rightarrow> bool \<Rightarrow> string option \<Rightarrow> interval list \<Rightarrow> nat \<Rightarrow> (terminal_write list \<times> unit result) option" where
  "traffic_loop refresh watch selection [] rendered_lines = None"
| "traffic_loop refresh watch selection (t # ts) rendered_lines =
    (case sample_of selection t of
       Err e \<Rightarrow> Some ([], Err e)
     | Ok s \<Rightarrow>
         let written = (if refresh \<and> rendered_lines \<noteq> 0 then [Erase_up rendered_lines] else [])
               @ map Line (print_traffic_sample s)
         in if \<not> watch then Some (written, Ok ())
            else map_option (\<lambda>(more, r). (written @ more, r))
              (traffic_loop refresh watch selection ts (traffic_sample_line_count (length (s_interfaces s)))))"

definition print_traffic ::
  "bool \<Rightarrow> interval list \<Rightarrow> string list \<Rightarrow> (terminal_write list \<times> unit result) option" where
  "print_traffic is_terminal script arguments =
    (case parse_traffic_arguments arguments of
       Err e \<Rightarrow> Some ([], Err e)
     | Ok a \<Rightarrow> traffic_loop (ta_watch a \<and> is_terminal) (ta_watch a) (ta_selection a) script 0)"

fun traffic_json_loop :: "bool \<Rightarrow> string option \<Rightarrow> interval list \<Rightarrow> unit printed option" where
  "traffic_json_loop watch selection [] = None"
| "traffic_json_loop watch selection (t # ts) =
    (case sample_of selection t of
       Err e \<Rightarrow> Some ([], Err e)
     | Ok s \<Rightarrow>
         let line = render (json_traffic_sample s)
         in if \<not> watch then Some ([line], Ok ())
            else map_option (\<lambda>(more, r). (line # more, r)) (traffic_json_loop watch selection ts))"

definition traffic_json :: "interval list \<Rightarrow> string list \<Rightarrow> unit printed option" where
  "traffic_json script arguments =
    (case parse_traffic_arguments arguments of
       Err e \<Rightarrow> Some ([], Err e)
     | Ok a \<Rightarrow> traffic_json_loop (ta_watch a) (ta_selection a) script)"

end
