(* ===== verification/Cli_Probe_Output.thy ===== *)
theory Cli_Probe_Output
  imports Cli_Net_Tables Cli_Json_Spec Cli_Probe
begin

text \<open>
  \<open>networkrs probe\<close> (\<open>probe\<close> and \<open>probe_json\<close> of \<open>main.rs\<close>): the first address of the host that has a route is
  probed, and the results are printed as a table or as a document.
\<close>

section \<open>The surroundings\<close>

text \<open>What \<open>to_socket_addrs\<close> resolves a host and a port to, the kernel that is asked for the route to an
  address, what a connection with a time limit does, the schedule of the threads, and the time that
  the probes take together.\<close>

record probe_world =
  pw_resolve :: "string \<Rightarrow> u16 \<Rightarrow> socket_addr list result"
  pw_route :: "ip_addr \<Rightarrow> kernel"
  pw_dial :: "u64 \<Rightarrow> dial"
  pw_schedule :: "nat list"
  pw_elapsed :: nat

section \<open>The destination\<close>

fun first_routed ::
  "(ip_addr \<Rightarrow> kernel) \<Rightarrow> socket_addr list \<Rightarrow> io_error option \<Rightarrow> (socket_addr \<times> route) result option" where
  "first_routed k [] last_error =
    Some (Err (unwrap_or (Custom AddrNotAvailable ''no routable IP address found'') last_error))"
| "first_routed k (destination # rest) last_error =
    (case route_to (k (sa_ip destination)) (sa_ip destination) of
       None \<Rightarrow> None
     | Some (Ok route) \<Rightarrow> Some (Ok (destination, route))
     | Some (Err e) \<Rightarrow> first_routed k rest (Some e))"

definition resolve_probe_destination :: "probe_world \<Rightarrow> string \<Rightarrow> u16 \<Rightarrow> (socket_addr \<times> route) result option" where
  "resolve_probe_destination w host port =
    (case pw_resolve w host port of
       Err e \<Rightarrow> Some (Err e)
     | Ok destinations \<Rightarrow>
         if destinations = [] then Some (Err (Custom AddrNotAvailable ''host resolved to no IP addresses''))
         else first_routed (pw_route w) destinations None)"

text \<open>The common part of both commands: the arguments, the destination with its route, and the results.\<close>

definition probe_run ::
  "probe_world \<Rightarrow> string list \<Rightarrow> (probe_arguments \<times> socket_addr \<times> route \<times> tcp_probe_result list option) result option" where
  "probe_run w arguments =
    (case parse_probe_arguments arguments of
       Err e \<Rightarrow> Some (Err e)
     | Ok a \<Rightarrow>
         map_option (\<lambda>reply. case reply of
             Err e \<Rightarrow> Err e
           | Ok (destination, route) \<Rightarrow>
               Ok (a, destination, route,
                 tcp_probe_ports (pw_dial w (pa_timeout_ms a)) (sa_ip destination) (pw_schedule w) (pa_ports a)))
           (resolve_probe_destination w (pa_host a) (hd (pa_ports a))))"

section \<open>The table\<close>

definition probe_heading :: "probe_arguments \<Rightarrow> socket_addr \<Rightarrow> string" where
  "probe_heading a destination =
    (if length (pa_ports a) = 1 \<and> pa_filter a = None
     then ''TCP probe '' @ pa_host a @ '':'' @ show_word (hd (pa_ports a)) @ '' ('' @ show_ip (sa_ip destination) @ '')''
     else ''TCP port scan '' @ pa_host a @ '' ('' @ show_ip (sa_ip destination) @ '')'')"

definition probe_route_line :: "(i32, string) map \<Rightarrow> route \<Rightarrow> string" where
  "probe_route_line names r =
    ''  Route: '' @ unwrap_or ''direct'' (map_option (\<lambda>g. ''via '' @ show_ip g) (r_gateway r))
    @ field_text '' dev '' (interface_label names) (r_interface_index r)
    @ field_text '' metric '' show_word (r_metric r)
    @ '' source '' @ unwrap_or ''unknown'' (map_option show_ip (r_source r))"

definition print_single_result :: "tcp_probe_result \<Rightarrow> string" where
  "print_single_result r =
    (case pr_status r of
       Connected \<Rightarrow> ''  Result: connected in '' @ millis_text 1 (pr_elapsed r) @ ''ms''
     | ConnectionRefused \<Rightarrow>
         ''  Result: host reached in '' @ millis_text 1 (pr_elapsed r) @ ''ms; connection refused''
     | Failed \<Rightarrow>
         ''  Result: failed after '' @ millis_text 1 (pr_elapsed r) @ ''ms: '' @ unwrap_or ''unknown error'' (pr_error r))"

definition print_port_result :: "tcp_probe_result \<Rightarrow> string" where
  "print_port_result r =
    ''  '' @ show_word (pr_port r)
    @ (case pr_status r of
         Connected \<Rightarrow> ''/tcp open in '' @ millis_text 1 (pr_elapsed r) @ ''ms''
       | ConnectionRefused \<Rightarrow> ''/tcp closed in '' @ millis_text 1 (pr_elapsed r) @ ''ms (connection refused)''
       | Failed \<Rightarrow>
           ''/tcp failed after '' @ millis_text 1 (pr_elapsed r) @ ''ms: '' @ unwrap_or ''unknown error'' (pr_error r))"

text \<open>The results that the filter keeps.\<close>

definition matching_results :: "tcp_probe_status option \<Rightarrow> tcp_probe_result list \<Rightarrow> tcp_probe_result list" where
  "matching_results f rs = (case f of None \<Rightarrow> rs | Some status \<Rightarrow> filter (\<lambda>r. pr_status r = status) rs)"

definition with_status :: "tcp_probe_status \<Rightarrow> tcp_probe_result list \<Rightarrow> nat" where
  "with_status status rs = length (filter (\<lambda>r. pr_status r = status) rs)"

definition print_port_scan :: "tcp_probe_status option \<Rightarrow> nat \<Rightarrow> tcp_probe_result list \<Rightarrow> string list" where
  "print_port_scan f elapsed rs =
    (let matching = matching_results f rs;
         opened = with_status Connected rs;
         closed = with_status ConnectionRefused rs;
         failed = length rs - opened - closed
     in map print_port_result matching
        @ (case f of
             None \<Rightarrow>
               [''Port scan complete: '' @ decimal opened @ '' open, '' @ decimal closed @ '' closed, '' @ decimal failed
                  @ '' failed, '' @ millis_text 1 elapsed @ ''ms'']
           | Some status \<Rightarrow>
               (if matching = [] then [''  No '' @ filter_name status @ '' TCP ports''] else [])
               @ [''Port scan complete: '' @ decimal (length matching) @ '' '' @ filter_name status @ '', ''
                    @ decimal (length rs) @ '' scanned, '' @ millis_text 1 elapsed @ ''ms'']))"

definition print_probe_results :: "tcp_probe_status option \<Rightarrow> nat \<Rightarrow> tcp_probe_result list \<Rightarrow> string list" where
  "print_probe_results f elapsed rs =
    (case rs of
       [r] \<Rightarrow> if f = None then [print_single_result r] else print_port_scan f elapsed rs
     | _ \<Rightarrow> print_port_scan f elapsed rs)"

text \<open>\<open>None\<close> also while a thread is still connecting.\<close>

definition probe :: "host \<Rightarrow> probe_world \<Rightarrow> string list \<Rightarrow> bool printed option" where
  "probe h w arguments =
    (case probe_run w arguments of
       None \<Rightarrow> None
     | Some (Err e) \<Rightarrow> Some ([], Err e)
     | Some (Ok (a, destination, route, results)) \<Rightarrow>
         map_option (\<lambda>rs.
             ([probe_heading a destination, probe_route_line (interface_names h) route]
                @ print_probe_results (pa_filter a) (pw_elapsed w) rs,
              Ok (list_ex reachable_port rs))) results)"

section \<open>The document\<close>

definition json_port_result :: "tcp_probe_result \<Rightarrow> json" where
  "json_port_result r = json_object
    [(''port'', json_number show_word (pr_port r)),
     (''status'', json_string (status_name r)),
     (''open'', Bool (pr_status r = Connected)),
     (''reachable'', Bool (reachable_port r)),
     (''error'', optional_string id (pr_error r)),
     (''elapsedMilliseconds'', json_number (millis_text 3) (pr_elapsed r))]"

definition json_single_probe :: "string \<Rightarrow> ip_addr \<Rightarrow> route \<Rightarrow> bool \<Rightarrow> tcp_probe_result \<Rightarrow> json" where
  "json_single_probe host address route reachable r = json_object
    [(''host'', json_string host),
     (''port'', json_number show_word (pr_port r)),
     (''address'', json_string (show_ip address)),
     (''route'', json_route route),
     (''reachable'', Bool reachable),
     (''status'', json_string (status_name r)),
     (''error'', optional_string id (pr_error r)),
     (''elapsedMilliseconds'', json_number (millis_text 3) (pr_elapsed r))]"

definition json_port_scan ::
  "probe_arguments \<Rightarrow> ip_addr \<Rightarrow> route \<Rightarrow> bool \<Rightarrow> nat \<Rightarrow> tcp_probe_result list \<Rightarrow> json" where
  "json_port_scan a address route reachable elapsed rs = json_object
    [(''host'', json_string (pa_host a)),
     (''address'', json_string (show_ip address)),
     (''route'', json_route route),
     (''reachable'', Bool reachable),
     (''filter'', optional_string filter_name (pa_filter a)),
     (''scannedPorts'', json_number decimal (length rs)),
     (''ports'', Array (map json_port_result (matching_results (pa_filter a) rs))),
     (''elapsedMilliseconds'', json_number (millis_text 3) elapsed)]"

definition probe_document :: "probe_arguments \<Rightarrow> ip_addr \<Rightarrow> route \<Rightarrow> nat \<Rightarrow> tcp_probe_result list \<Rightarrow> json \<times> bool" where
  "probe_document a address route elapsed rs =
    (let reachable = list_ex reachable_port rs
     in (case rs of
           [r] \<Rightarrow> if pa_filter a = None then json_single_probe (pa_host a) address route reachable r
                  else json_port_scan a address route reachable elapsed rs
         | _ \<Rightarrow> json_port_scan a address route reachable elapsed rs, reachable))"

definition probe_json :: "probe_world \<Rightarrow> string list \<Rightarrow> (json \<times> bool) result option" where
  "probe_json w arguments =
    (case probe_run w arguments of
       None \<Rightarrow> None
     | Some (Err e) \<Rightarrow> Some (Err e)
     | Some (Ok (a, destination, route, results)) \<Rightarrow>
         map_option (\<lambda>rs. Ok (probe_document a (sa_ip destination) route (pw_elapsed w) rs)) results)"

section \<open>The verdict\<close>

lemma first_routed_found:
  "first_routed k ds e = Some (Ok (destination, route)) \<Longrightarrow>
    find (\<lambda>d. \<exists>r. ip_route (k (sa_ip d)) (sa_ip d) = Some (Ok r)) ds = Some destination
    \<and> ip_route (k (sa_ip destination)) (sa_ip destination) = Some (Ok route)"
proof (induction ds arbitrary: e)
  case (Cons d ds)
  show ?case
  proof (cases "ip_route (k (sa_ip d)) (sa_ip d)")
    case None
    with Cons.prems show ?thesis
      by (simp add: route_to_def)
  next
    case (Some reply)
    with Cons show ?thesis
      by (cases reply) (simp_all add: route_to_def)
  qed
qed simp

lemma reachable_probe: "reachable_port (tcp_probe dial address port) \<longleftrightarrow> fst (dial address port) \<in> {Ok (), Err (Os 111)}"
  by (auto simp: reachable_port_def tcp_probe_def split: prod.split result.split)

lemma probe_run_results:
  assumes "probe_run w arguments = Some (Ok (a, destination, route, results))"
  shows "parse_probe_arguments arguments = Ok a"
    and "\<exists>ds. pw_resolve w (pa_host a) (hd (pa_ports a)) = Ok ds
      \<and> find (\<lambda>d. \<exists>r. ip_route (pw_route w (sa_ip d)) (sa_ip d) = Some (Ok r)) ds = Some destination"
    and "results = Some rs \<Longrightarrow> rs = map (tcp_probe (pw_dial w (pa_timeout_ms a)) (sa_ip destination)) (pa_ports a)"
proof -
  obtain a' where a': "parse_probe_arguments arguments = Ok a'"
    using assms by (cases "parse_probe_arguments arguments") (simp_all add: probe_run_def)
  then obtain reply where reply: "resolve_probe_destination w (pa_host a') (hd (pa_ports a')) = Some reply"
    using assms by (auto simp: probe_run_def)
  then obtain d r where d: "reply = Ok (d, r)"
    using assms a' by (cases reply) (auto simp: probe_run_def)
  have same: "a' = a" "d = destination" "r = route"
    and results: "tcp_probe_ports (pw_dial w (pa_timeout_ms a)) (sa_ip destination) (pw_schedule w) (pa_ports a) = results"
    using assms by (auto simp: probe_run_def a' reply d)
  show parsed: "parse_probe_arguments arguments = Ok a"
    using a' same by simp
  obtain ds where ds: "pw_resolve w (pa_host a) (hd (pa_ports a)) = Ok ds"
    using reply d same by (cases "pw_resolve w (pa_host a) (hd (pa_ports a))") (simp_all add: resolve_probe_destination_def)
  then have "first_routed (pw_route w) ds None = Some (Ok (destination, route))"
    using reply d same by (simp add: resolve_probe_destination_def split: if_splits)
  from first_routed_found [OF this] ds show "\<exists>ds. pw_resolve w (pa_host a) (hd (pa_ports a)) = Ok ds
      \<and> find (\<lambda>d. \<exists>r. ip_route (pw_route w (sa_ip d)) (sa_ip d) = Some (Ok r)) ds = Some destination"
    by simp
  show "rs = map (tcp_probe (pw_dial w (pa_timeout_ms a)) (sa_ip destination)) (pa_ports a)" if "results = Some rs"
    using scheduled_results [of "pa_ports a"] parse_probe_arguments_limits [OF parsed] results that by auto
qed

lemma probe_document_members:
  "\<exists>members. fst (probe_document a address route elapsed rs) = Object members
    \<and> map_of members ''reachable'' = Some (Bool (list_ex reachable_port rs))"
  by (simp add: probe_document_def Let_def json_single_probe_def json_port_scan_def json_object_def split: list.split)

lemma probe_outputs:
  "case probe_json w arguments of
     None \<Rightarrow> probe h w arguments = None
   | Some (Err e) \<Rightarrow> probe h w arguments = Some ([], Err e)
   | Some (Ok (document, healthy)) \<Rightarrow>
       (\<exists>a ds destination written members.
          parse_probe_arguments arguments = Ok a \<and> pw_resolve w (pa_host a) (hd (pa_ports a)) = Ok ds
          \<and> find (\<lambda>d. \<exists>r. ip_route (pw_route w (sa_ip d)) (sa_ip d) = Some (Ok r)) ds = Some destination
          \<and> probe h w arguments = Some (written, Ok healthy)
          \<and> document = Object members \<and> map_of members ''reachable'' = Some (Bool healthy)
          \<and> (healthy \<longleftrightarrow> list_ex (\<lambda>port. fst (pw_dial w (pa_timeout_ms a) (sa_ip destination) port) \<in> {Ok (), Err (Os 111)})
                (pa_ports a)))"
proof (cases "probe_run w arguments")
  case None
  then show ?thesis
    by (simp add: probe_json_def probe_def)
next
  case (Some reply)
  show ?thesis
  proof (cases reply)
    case (Err e)
    with Some show ?thesis
      by (simp add: probe_json_def probe_def)
  next
    case (Ok run)
    then obtain a destination route results where run: "probe_run w arguments = Some (Ok (a, destination, route, results))"
      using Some by (cases run) auto
    show ?thesis
    proof (cases results)
      case None
      with run show ?thesis
        by (simp add: probe_json_def probe_def)
    next
      case (Some rs)
      let ?document = "probe_document a (sa_ip destination) route (pw_elapsed w) rs"
      have json: "probe_json w arguments = Some (Ok ?document)"
        using run Some by (simp add: probe_json_def)
      have healthy: "snd ?document = list_ex reachable_port rs"
        by (simp add: probe_document_def Let_def)
      have "list_ex reachable_port rs \<longleftrightarrow>
          list_ex (\<lambda>port. fst (pw_dial w (pa_timeout_ms a) (sa_ip destination) port) \<in> {Ok (), Err (Os 111)}) (pa_ports a)"
        using probe_run_results(3) [OF run Some] by (simp add: list_ex_iff reachable_probe)
      moreover have "probe h w arguments = Some ([probe_heading a destination, probe_route_line (interface_names h) route]
          @ print_probe_results (pa_filter a) (pw_elapsed w) rs, Ok (list_ex reachable_port rs))"
        using run Some by (simp add: probe_def)
      moreover obtain members where "fst ?document = Object members"
        "map_of members ''reachable'' = Some (Bool (list_ex reachable_port rs))"
        using probe_document_members by blast
      moreover obtain document where document: "?document = (document, list_ex reachable_port rs)"
        using healthy by (cases ?document) simp
      ultimately show ?thesis
        using probe_run_results(1,2) [OF run]
        unfolding json document option.case result.case prod.case fst_conv by blast
    qed
  qed
qed

text \<open>C15: The table and the document of a probe agree: they fail and wait alike, and when they complete, both
  report that the host was reached exactly when, of the ports given, some connection to the first
  resolved address with a route succeeds or is refused; however the threads are scheduled.\<close>

theorem probe_outputs_agree:
  "case probe_json w arguments of
     None \<Rightarrow> probe h w arguments = None
   | Some (Err e) \<Rightarrow> probe h w arguments = Some ([], Err e)
   | Some (Ok (document, healthy)) \<Rightarrow>
       (\<exists>a ds destination written members.
          parse_probe_arguments arguments = Ok a \<and> pw_resolve w (pa_host a) (hd (pa_ports a)) = Ok ds
          \<and> find (\<lambda>d. \<exists>r. ip_route (pw_route w (sa_ip d)) (sa_ip d) = Some (Ok r)) ds = Some destination
          \<and> probe h w arguments = Some (written, Ok healthy)
          \<and> document = Object members \<and> map_of members ''reachable'' = Some (Bool healthy)
          \<and> (healthy \<longleftrightarrow> list_ex (\<lambda>port. fst (pw_dial w (pa_timeout_ms a) (sa_ip destination) port) \<in> {Ok (), Err (Os 111)})
                (pa_ports a)))"
  by (rule probe_outputs)

end
