(* ===== verification/Cli_Check_Text.thy ===== *)
theory Cli_Check_Text
  imports Cli_Check_Spec Cli_Net_Tables
begin

text \<open>
  \<open>networkrs check\<close> without \<open>--json\<close> (\<open>check\<close> of \<open>main.rs\<close>): the same examination of the default route as
  \<open>check_json\<close>, printed line by line with the warnings counted on the way. Both come to the same verdict.
\<close>

section \<open>The lines\<close>

text \<open>A line with the number of warnings that it adds.\<close>

type_synonym checked_line = "string \<times> nat"

definition interface_line :: "default_ipv4_route \<Rightarrow> string \<Rightarrow> string option \<Rightarrow> checked_line" where
  "interface_line d state carrier =
    (if state = ''up'' \<and> carrier = Some ''1''
     then (''  Interface: ok '' @ d_interface d @ '' is up with carrier'', 0)
     else (''  Interface: warning '' @ d_interface d @ '' state '' @ state @ '', carrier ''
       @ unwrap_or ''unknown'' carrier, 1))"

definition gateway_line :: "default_ipv4_route \<Rightarrow> neighbor list \<Rightarrow> checked_line" where
  "gateway_line d ns =
    (if d_gateway d = 0 then (''  Gateway neighbor: not applicable (direct default route)'', 0)
     else case find (\<lambda>n. n_address n = V4 (d_gateway d)) ns of
       Some n \<Rightarrow> (''  Gateway neighbor: ok '' @ show_ipv4 (d_gateway d) @ '' lladdr ''
         @ unwrap_or ''unknown'' (n_link_address n) @ '' '' @ n_state n, 0)
     | None \<Rightarrow> (''  Gateway neighbor: warning '' @ show_ipv4 (d_gateway d) @ '' is not in the resolved ARP cache'', 1))"

definition dns_line_of :: "string list \<Rightarrow> checked_line" where
  "dns_line_of servers =
    (if servers = [] then (''  DNS: warning no nameserver configured in '' @ RESOLV_CONF, 1)
     else (''  DNS: ok nameserver '' @ join '', '' servers, 0))"

definition icmp_lines :: "(io_error \<Rightarrow> string) \<Rightarrow> default_ipv4_route \<Rightarrow> ping_result result \<Rightarrow> checked_line list" where
  "icmp_lines show_error d echoed =
    (if d_gateway d = 0 then []
     else case echoed of
       Ok r \<Rightarrow>
         if 0 < p_received r then
           [(''    Gateway ICMP '' @ show_ipv4 (d_gateway d) @ '': '' @ show_word (p_received r) @ ''/''
               @ show_word (p_transmitted r) @ '' replies, '' @ fixed_text 0 (ping_loss r) @ ''% loss, RTT min/avg/max ''
               @ format_duration (p_minimum r) @ ''/'' @ format_duration (p_average r) @ ''/''
               @ format_duration (p_maximum r), 0)]
         else [(''    Gateway ICMP '' @ show_ipv4 (d_gateway d) @ '': warning 0/'' @ show_word (p_transmitted r) @ '' replies'', 1)]
     | Err e \<Rightarrow>
         if raw_os_error e \<in> {Some 1, Some 13} then [(''    Gateway ICMP: skipped ('' @ show_error e @ '')'', 0)]
         else [(''    Gateway ICMP: warning '' @ show_error e, 1)])"

definition dns_tcp_line :: "dial \<Rightarrow> ip_addr \<Rightarrow> checked_line" where
  "dns_tcp_line dial address =
    (case dial address 53 of
       (Ok _, _, elapsed) \<Rightarrow> (''    DNS TCP '' @ show_ip address @ '': ok '' @ millis_text 1 elapsed @ ''ms'', 0)
     | (Err e, message, elapsed) \<Rightarrow>
         if e = Os 111
         then (''    DNS TCP '' @ show_ip address @ '': host reached in '' @ millis_text 1 elapsed
           @ ''ms; connection refused'', 0)
         else (''    DNS TCP '' @ show_ip address @ '': warning '' @ message, 1))"

definition dns_route_lines ::
  "(io_error \<Rightarrow> string) \<Rightarrow> (i32, string) map \<Rightarrow> check_world \<Rightarrow> string \<Rightarrow> checked_line list option" where
  "dns_route_lines show_error names w server =
    (case parse_ip server of
       None \<Rightarrow> Some [(''    DNS route '' @ server @ '': skipped (not an IP address)'', 0)]
     | Some address \<Rightarrow>
         map_option (\<lambda>reply. case reply of
             Err e \<Rightarrow> [(''    DNS route '' @ show_ip address @ '': warning '' @ show_error e, 1)]
           | Ok route \<Rightarrow>
               [(''    DNS route '' @ show_ip address @ '': ok dev ''
                   @ unwrap_or ''unknown'' (map_option (interface_label names) (r_interface_index route)), 0),
                dns_tcp_line (cw_dial w) address])
           (route_to (cw_route w address) address))"

fun dns_routes_lines ::
  "(io_error \<Rightarrow> string) \<Rightarrow> (i32, string) map \<Rightarrow> check_world \<Rightarrow> string list \<Rightarrow> checked_line list option" where
  "dns_routes_lines show_error names w [] = Some []"
| "dns_routes_lines show_error names w (server # servers) =
    Option.bind (dns_route_lines show_error names w server) (\<lambda>ls.
      map_option (\<lambda>rest. ls @ rest) (dns_routes_lines show_error names w servers))"

definition active_lines ::
  "(io_error \<Rightarrow> string) \<Rightarrow> host \<Rightarrow> check_world \<Rightarrow> default_ipv4_route \<Rightarrow> string list \<Rightarrow> checked_line list option" where
  "active_lines show_error h w d servers =
    map_option (\<lambda>ls. (''  Active checks:'', 0) # icmp_lines show_error d (case_prod echo (cw_echo w)) @ ls)
      (dns_routes_lines show_error (interface_names h) w servers)"

definition result_line :: "nat \<Rightarrow> string" where
  "result_line warnings =
    ''  Result: '' @ (if warnings = 0 then ''ok'' else decimal warnings @ '' warning(s)'')"

definition check_report :: "checked_line list \<Rightarrow> bool printed" where
  "check_report ls =
    (let warnings = sum_list (map snd ls)
     in ([''Network check''] @ map fst ls @ [result_line warnings], Ok (warnings = 0)))"

definition default_route_line :: "default_ipv4_route \<Rightarrow> checked_line" where
  "default_route_line d =
    (''  Default route: ok via '' @ show_ipv4 (d_gateway d) @ '' dev '' @ d_interface d @ '' metric ''
       @ show_word (d_metric d), 0)"

definition check :: "(io_error \<Rightarrow> string) \<Rightarrow> host \<Rightarrow> check_world \<Rightarrow> bool \<Rightarrow> bool printed option" where
  "check show_error h w active =
    (case fs_read_to_string h PROC_NET_ROUTE of
       Err e \<Rightarrow> Some ([], Err e)
     | Ok contents \<Rightarrow>
         (case parse_default_ipv4_route contents of
            None \<Rightarrow> Some ([], Err (Custom NotFound ''no usable default IPv4 route''))
          | Some d \<Rightarrow>
              let path = path_join SYS_CLASS_NET (d_interface d);
                  state = interface_state h path (interface_kind h path);
                  carrier = read_trimmed_at h (path_join path ''carrier'')
              in case (if active \<and> d_gateway d \<noteq> 0 then cw_bind_error w else None) of
                   Some code \<Rightarrow> Some ([], Err (Os code))
                 | None \<Rightarrow>
                     (case neighbors (cw_sysconf w) (cw_neighbors w) AF_INET of
                        None \<Rightarrow> None
                      | Some (Err e) \<Rightarrow> Some ([], Err e)
                      | Some (Ok ns) \<Rightarrow>
                          let servers = nameservers (fs_read_to_string h) RESOLV_CONF;
                              passive = [default_route_line d, interface_line d state carrier,
                                gateway_line d ns, dns_line_of servers]
                          in map_option (\<lambda>more. check_report (passive @ more))
                               (if active then active_lines show_error h w d servers else Some []))))"

section \<open>The same warnings\<close>

lemma passive_line_warnings:
  "snd (default_route_line d) = snd (default_route_check d)"
  "snd (interface_line d state carrier) = snd (interface_check d state carrier)"
  "snd (gateway_line d ns) = snd (gateway_check d ns)"
  "snd (dns_line_of servers) = snd (dns_check servers)"
  by (simp_all add: default_route_line_def default_route_check_def interface_line_def interface_check_def
      gateway_line_def gateway_check_def dns_line_of_def dns_check_def split: option.split)

lemma icmp_line_warnings: "map snd (icmp_lines show_error d echoed) = map snd (icmp_check show_error d echoed)"
  by (simp add: icmp_lines_def icmp_check_def split: result.split)

lemma dns_tcp_line_warnings: "snd (dns_tcp_line dial address) = snd (dns_tcp_check dial address)"
  by (simp add: dns_tcp_line_def dns_tcp_check_def split: prod.split result.split)

lemma dns_route_line_warnings:
  "map_option (map snd) (dns_route_lines show_error names w server) =
    map_option (map snd) (dns_route_check show_error names w server)"
  by (auto simp: dns_route_lines_def dns_route_check_def route_to_def option.map_comp comp_def dns_tcp_line_warnings
      intro!: option.map_cong split: option.split result.split)

lemma dns_routes_line_warnings:
  "map_option (map snd) (dns_routes_lines show_error names w servers) =
    map_option (map snd) (dns_route_checks show_error names w servers)"
proof (induction servers)
  case (Cons server servers)
  show ?case
    using dns_route_line_warnings [of show_error names w server] Cons.IH
    by (cases "dns_route_lines show_error names w server"; cases "dns_route_check show_error names w server";
        cases "dns_routes_lines show_error names w servers"; cases "dns_route_checks show_error names w servers") auto
qed simp

lemma active_line_warnings:
  "map_option (\<lambda>ls. sum_list (map snd ls)) (active_lines show_error h w d servers) =
    map_option (\<lambda>vs. sum_list (map snd vs)) (active_checks show_error h w d servers)"
  using dns_routes_line_warnings [of show_error "interface_names h" w servers]
  by (cases "dns_routes_lines show_error (interface_names h) w servers";
      cases "dns_route_checks show_error (interface_names h) w servers")
    (simp_all add: active_lines_def active_checks_def icmp_line_warnings)

lemma active_verdicts: "active_checks show_error h w d servers = Some vs \<Longrightarrow> list_all verdict_ok vs"
  using dns_routes_verdicts [of show_error "interface_names h" w servers] icmp_verdicts(1) [of show_error d]
  by (auto simp: active_checks_def)

text \<open>The parts of both commands that come after the passive examination.\<close>

lemma more_warnings:
  assumes "(if active then active_checks show_error h w d servers else Some []) = vs"
    and "(if active then active_lines show_error h w d servers else Some []) = ls"
  shows "map_option (\<lambda>ls. sum_list (map snd ls)) ls = map_option (\<lambda>vs. sum_list (map snd vs)) vs"
    and "vs = Some xs \<Longrightarrow> list_all verdict_ok xs"
  using active_line_warnings [of show_error h w d servers] active_verdicts assms by (auto split: if_splits)

lemma check_outputs:
  "case check_json show_error h w active of
     None \<Rightarrow> check show_error h w active = None
   | Some (Err e) \<Rightarrow> check show_error h w active = Some ([], Err e)
   | Some (Ok (document, healthy)) \<Rightarrow>
       (\<exists>written checks. check show_error h w active = Some (written @ [result_line (length (filter marked checks))], Ok healthy)
         \<and> document = Object [(''active'', Bool active), (''healthy'', Bool healthy),
             (''warnings'', Number (decimal (length (filter marked checks)))), (''checks'', Array checks)])"
proof -
  have report: "\<exists>written checks. check_report ls = (written @ [result_line (length (filter marked checks))], Ok healthy)
      \<and> document = Object [(''active'', Bool active), (''healthy'', Bool healthy),
          (''warnings'', Number (decimal (length (filter marked checks)))), (''checks'', Array checks)]"
    if "check_document active vs = (document, healthy)" "list_all verdict_ok vs"
      "sum_list (map snd ls) = sum_list (map snd vs)" for vs ls document healthy
    using that warnings_marked [OF that(2)]
    by (intro exI [of _ "''Network check'' # map fst ls"] exI [of _ "map fst vs"])
      (auto simp: check_report_def check_document_def Let_def json_object_def json_number_def)
  show ?thesis
  proof (cases "Option.bind (result_option (fs_read_to_string h PROC_NET_ROUTE)) parse_default_ipv4_route")
    case None
    then show ?thesis
      by (cases "fs_read_to_string h PROC_NET_ROUTE") (simp_all add: check_json_def check_def)
  next
    case (Some d)
    then obtain contents where read: "fs_read_to_string h PROC_NET_ROUTE = Ok contents"
      and d: "parse_default_ipv4_route contents = Some d"
      by (cases "fs_read_to_string h PROC_NET_ROUTE") auto
    let ?bind = "if active \<and> d_gateway d \<noteq> 0 then cw_bind_error w else None"
    let ?ns = "neighbors (cw_sysconf w) (cw_neighbors w) AF_INET"
    show ?thesis
    proof (cases "?bind = None \<and> (\<exists>ns. ?ns = Some (Ok ns))")
      case False
      then show ?thesis
        by (cases ?bind; cases ?ns; cases "the ?ns") (simp_all add: check_json_def check_def read d Let_def)
    next
      case True
      then obtain ns where ns: "?ns = Some (Ok ns)"
        by blast
      let ?path = "path_join SYS_CLASS_NET (d_interface d)"
      let ?state = "interface_state h ?path (interface_kind h ?path)"
      let ?carrier = "read_trimmed_at h (path_join ?path ''carrier'')"
      let ?servers = "nameservers (fs_read_to_string h) RESOLV_CONF"
      let ?checks = "[default_route_check d, interface_check d ?state ?carrier, gateway_check d ns, dns_check ?servers]"
      let ?lines = "[default_route_line d, interface_line d ?state ?carrier, gateway_line d ns, dns_line_of ?servers]"
      obtain vs ls where vs: "(if active then active_checks show_error h w d ?servers else Some []) = vs"
        and ls: "(if active then active_lines show_error h w d ?servers else Some []) = ls"
        by blast
      note more = more_warnings [OF vs ls]
      have json: "check_json show_error h w active = map_option (\<lambda>xs. Ok (check_document active (?checks @ xs))) vs"
        using conjunct1 [OF True] ns by (simp add: check_json_def read d Let_def vs)
      have table: "check show_error h w active = map_option (\<lambda>xs. check_report (?lines @ xs)) ls"
        using conjunct1 [OF True] ns by (simp add: check_def read d Let_def ls)
      show ?thesis
      proof (cases vs)
        case None
        with more(1) show ?thesis
          by (simp add: json table)
      next
        case (Some xs)
        with more(1) obtain ys where ys: "ls = Some ys" "sum_list (map snd ys) = sum_list (map snd xs)"
          by (cases ls) auto
        obtain document healthy where result: "check_document active (?checks @ xs) = (document, healthy)"
          by (cases "check_document active (?checks @ xs)")
        have "list_all verdict_ok (?checks @ xs)"
          using more(2) [OF Some] by (simp add: passive_verdicts)
        moreover have "sum_list (map snd (?lines @ ys)) = sum_list (map snd (?checks @ xs))"
          using ys(2) by (simp add: passive_line_warnings)
        ultimately obtain written checks where
          "check_report (?lines @ ys) = (written @ [result_line (length (filter marked checks))], Ok healthy)"
          and document: "document = Object [(''active'', Bool active), (''healthy'', Bool healthy),
            (''warnings'', Number (decimal (length (filter marked checks)))), (''checks'', Array checks)]"
          using report [OF result] by blast
        then have "check show_error h w active = Some (written @ [result_line (length (filter marked checks))], Ok healthy)"
          by (simp only: table ys(1) option.map)
        moreover have "check_json show_error h w active = Some (Ok (document, healthy))"
          by (simp only: json Some option.map result)
        ultimately show ?thesis
          using document by auto
      qed
    qed
  qed
qed

text \<open>C14: The table and the document of a check agree: they wait and fail alike, and when they complete, they
  give the same verdict and the last line of the table counts the checks that the document marks as
  warnings.\<close>

theorem check_outputs_agree:
  "case check_json show_error h w active of
     None \<Rightarrow> check show_error h w active = None
   | Some (Err e) \<Rightarrow> check show_error h w active = Some ([], Err e)
   | Some (Ok (document, healthy)) \<Rightarrow>
       (\<exists>written checks. check show_error h w active = Some (written @ [result_line (length (filter marked checks))], Ok healthy)
         \<and> document = Object [(''active'', Bool active), (''healthy'', Bool healthy),
             (''warnings'', Number (decimal (length (filter marked checks)))), (''checks'', Array checks)])"
  by (rule check_outputs)

end
