(* ===== verification/Cli_Commands.thy ===== *)
theory Cli_Commands
  imports Cli_Tools Cli_Probe_Output Cli_Check_Text Cli_Watch
begin

text \<open>
  The program itself (\<open>main\<close>, \<open>run\<close> and \<open>run_json\<close> of \<open>main.rs\<close>): the arguments choose a command, what the
  command writes goes to the standard output, and its result becomes the exit status or the
  message on the standard error.
\<close>

section \<open>The surroundings\<close>

text \<open>Everything outside the program that some command reads: the host, the display form of errors,
  the canonical path of the resolver configuration, the version of the package, whether the
  output is a terminal, and for every command the kernels, files and connections it uses.\<close>

record world =
  x_host :: host
  x_show_error :: "io_error \<Rightarrow> string"
  x_canonical :: "string option"
  x_version :: string
  x_terminal :: bool
  x_naming :: naming
  x_kernels :: kernels
  x_route :: kernel
  x_ethtool :: "kernel \<times> driver_files"
  x_surroundings :: surroundings
  x_event_kernel :: kernel
  x_events :: "recv_outcome list"
  x_check :: check_world
  x_probe :: probe_world
  x_processes :: "proc_entry list option"
  x_diagnostics :: diagnostic_kernels
  x_intervals :: "interval list"
  x_wifi :: kernel

definition usage :: string where
  "usage = join [newline]
    [''Usage: networkrs [--json] [COMMAND]'',
     [],
     ''Commands:'',
     ''  all                    Show current network configuration (default)'',
     ''  interfaces             Show interfaces, addresses, link state, and counters'',
     ''  links                  Show kernel link topology and metadata'',
     ''  hardware [INTERFACE]   Show driver, link modes, features, and statistics'',
     ''  addresses              Show detailed kernel IP address records'',
     ''  routes                 Show all IPv4 and IPv6 routing tables'',
     ''  rules                  Show IPv4 and IPv6 policy-routing rules'',
     ''  route <ADDRESS>        Show the kernel route to an IP address'',
     ''  neighbors [INTERFACE]  Show cached IPv4 and IPv6 neighbors'',
     ''  scan [OPTIONS] [TARGET] Actively discover neighbors on a local IPv4 network'',
     ''  watch [OPTIONS]        Stream kernel network changes'',
     ''  check [--active]       Check IPv4 health; optionally exercise the path'',
     ''  probe HOST [PORTS]     Test one or more TCP ports and report route and timing'',
     ''  sockets [VIEW]         Show IP sockets (all, tcp, udp, listening, connected)'',
     ''  traffic [OPTIONS]      Sample or continuously watch interface traffic rates'',
     ''  wifi                   Show nl80211 Wi-Fi connection details'',
     ''  dns                    Show resolver configuration'',
     ''  help                   Show this help'',
     [],
     ''Global options:'',
     ''  --json                 Emit JSON; streaming commands emit one object per line'']"

section \<open>Steps\<close>

text \<open>What has been written, with a message or a value; \<open>None\<close> while the outside has not answered or the
  command runs on.\<close>

type_synonym 'a step = "(terminal_write list \<times> (string + 'a)) option"

definition and_then :: "'a step \<Rightarrow> ('a \<Rightarrow> 'b step) \<Rightarrow> 'b step" where
  "and_then s f =
    (case s of
       None \<Rightarrow> None
     | Some (written, Inl message) \<Rightarrow> Some (written, Inl message)
     | Some (written, Inr x) \<Rightarrow> map_option (\<lambda>(more, r). (written @ more, r)) (f x))"

definition refused :: "string \<Rightarrow> 'a step" where
  "refused message = Some ([], Inl message)"

definition wrote :: "string list \<Rightarrow> unit step" where
  "wrote ls = Some (map Line ls, Inr ())"

text \<open>\<open>map_err(|error| format!("{what}: {error}"))?\<close>.\<close>

definition attempt_to :: "world \<Rightarrow> string \<Rightarrow> 'a printed option \<Rightarrow> 'a step" where
  "attempt_to x what p =
    map_option (\<lambda>(ls, r). (map Line ls,
      case r of Ok v \<Rightarrow> Inr v | Err e \<Rightarrow> Inl (what @ '': '' @ x_show_error x e))) p"

definition attempt_value :: "world \<Rightarrow> string \<Rightarrow> 'a result option \<Rightarrow> 'a step" where
  "attempt_value x what p = attempt_to x what (map_option (\<lambda>r. ([], r)) p)"

definition exit_with :: "bool \<Rightarrow> nat step" where
  "exit_with healthy = Some ([], Inr (if healthy then 0 else 1))"

text \<open>The arguments of \<open>check\<close> and of \<open>sockets\<close>.\<close>

definition active_argument :: "string list \<Rightarrow> string + bool" where
  "active_argument arguments =
    (case arguments of
       [] \<Rightarrow> Inr False
     | [option] \<Rightarrow> if option = ''--active'' then Inr True else Inl (''unknown check option: '' @ option)
     | _ \<Rightarrow> Inl ''check accepts only --active'')"

definition view_argument :: "string option \<Rightarrow> string + view" where
  "view_argument argument =
    (case argument of
       None \<Rightarrow> Inr ViewAll
     | Some name \<Rightarrow>
         (case view_from_name name of
            None \<Rightarrow> Inl (''unknown socket view: '' @ name @ ''; expected all, tcp, udp, listening, or connected'')
          | Some view \<Rightarrow> Inr view))"

definition decided :: "string + 'a \<Rightarrow> ('a \<Rightarrow> 'b step) \<Rightarrow> 'b step" where
  "decided c f = (case c of Inl message \<Rightarrow> refused message | Inr v \<Rightarrow> f v)"

text \<open>The events that a watch has written when receiving them fails.\<close>

definition watched :: "world \<Rightarrow> (io_error \<times> watch_state) option \<Rightarrow> unit step" where
  "watched x run = attempt_to x ''cannot watch network'' (map_option (\<lambda>(e, (_, written)). (written, Err e)) run)"

section \<open>Tables\<close>

definition run_all :: "world \<Rightarrow> unit step" where
  "run_all x =
    and_then (wrote (print_system (x_host x))) (\<lambda>_.
    and_then (attempt_to x ''cannot read interfaces'' (Some (print_interfaces (x_host x)))) (\<lambda>_.
    and_then (attempt_to x ''cannot read routes'' (print_routes (x_host x) (kk_routes (x_kernels x)))) (\<lambda>_.
    and_then (map_option (\<lambda>(ls, r). (map Line (ls @
          (case r of Ok _ \<Rightarrow> []
           | Err e \<Rightarrow> [''Neighbors'' @ [newline] @ ''  Unavailable: '' @ x_show_error x e @ [newline]])), Inr ()))
        (print_neighbors (x_host x) (x_naming x) (kk_sysconf (x_kernels x)) (kk_neighbors (x_kernels x)) None)) (\<lambda>_.
    wrote (print_dns (x_host x) (x_canonical x))))))"

definition run_route :: "world \<Rightarrow> string option \<Rightarrow> unit step" where
  "run_route x argument =
    (case argument of
       None \<Rightarrow> refused (''route requires an IP address'' @ [newline, newline] @ usage)
     | Some text_address \<Rightarrow>
         (case parse_ip text_address of
            None \<Rightarrow> refused ''route destination must be an IP address''
          | Some destination \<Rightarrow>
              attempt_to x ''cannot look up route'' (print_route_to (x_host x) (x_route x) destination)))"

definition traffic_step :: "world \<Rightarrow> string list \<Rightarrow> unit step" where
  "traffic_step x arguments =
    map_option (\<lambda>(written, r). (written,
        case r of Ok u \<Rightarrow> Inr u | Err e \<Rightarrow> Inl (''cannot sample traffic: '' @ x_show_error x e)))
      (print_traffic (x_terminal x) (x_intervals x) arguments)"

text \<open>The \<open>match\<close> of \<open>run\<close>, arm by arm.\<close>

definition run_command :: "world \<Rightarrow> string \<Rightarrow> string list \<Rightarrow> nat step" where
  "run_command x command arguments =
    (let argument = first_opt arguments;
         h = x_host x;
         k = x_kernels x;
         success = (\<lambda>s :: unit step. and_then s (\<lambda>_. exit_with True))
     in if command = ''all'' then success (run_all x)
        else if command = ''interfaces'' then success (attempt_to x ''cannot read interfaces'' (Some (print_interfaces h)))
        else if command = ''links'' then success (attempt_to x ''cannot read links'' (print_links (kk_links k)))
        else if command = ''hardware'' then
          success (attempt_to x ''cannot read link hardware''
            (print_hardware (kk_links k) (fst (x_ethtool x)) (snd (x_ethtool x)) argument))
        else if command = ''addresses'' then
          success (attempt_to x ''cannot read addresses'' (print_addresses h (kk_addresses k)))
        else if command = ''routes'' then success (attempt_to x ''cannot read routes'' (print_routes h (kk_routes k)))
        else if command = ''rules'' then success (attempt_to x ''cannot read rules'' (print_policy_rules (kk_rules k)))
        else if command = ''route'' then success (run_route x argument)
        else if command = ''neighbors'' then
          success (attempt_to x ''cannot read neighbors''
            (print_neighbors h (x_naming x) (kk_sysconf k) (kk_neighbors k) argument))
        else if command = ''scan'' then
          success (attempt_to x ''cannot scan network'' (print_scan h (x_naming x) (x_surroundings x) arguments))
        else if command = ''watch'' then
          success (and_then (attempt_value x ''cannot watch network'' (Some (parse_watch_arguments arguments))) (\<lambda>f.
            watched x (watch (kk_sysconf k) (x_event_kernel x) h f (x_events x))))
        else if command = ''check'' then
          decided (active_argument arguments) (\<lambda>active.
            and_then (attempt_to x ''cannot check network'' (check (x_show_error x) h (x_check x) active)) exit_with)
        else if command = ''probe'' then
          and_then (attempt_to x ''cannot probe destination'' (probe h (x_probe x) arguments)) exit_with
        else if command = ''sockets'' then
          decided (view_argument argument) (\<lambda>view.
            success (attempt_to x ''cannot read sockets''
              (print_sockets h (x_processes x) (x_show_error x) (x_diagnostics x) view)))
        else if command = ''traffic'' then success (traffic_step x arguments)
        else if command = ''wifi'' then success (attempt_to x ''cannot read Wi-Fi state'' (print_wifi (x_wifi x)))
        else if command = ''dns'' then success (wrote (print_dns h (x_canonical x)))
        else if command \<in> {''-h'', ''--help'', ''help''} then success (wrote [usage])
        else if command \<in> {''-V'', ''--version''} then success (wrote [''networkrs '' @ x_version x])
        else refused (''unknown command: '' @ command @ [newline, newline] @ usage))"

definition unexpected :: "string \<Rightarrow> 'a step" where
  "unexpected argument = refused (''unexpected argument: '' @ argument @ [newline, newline] @ usage)"

text \<open>The commands that take options, and those that take one argument.\<close>

definition option_commands :: "string list" where
  "option_commands = [''scan'', ''probe'', ''traffic'', ''watch'']"

definition argument_commands :: "string list" where
  "argument_commands =
    [''route'', ''scan'', ''probe'', ''check'', ''neighbors'', ''hardware'', ''sockets'', ''traffic'', ''watch'']"

definition run_text :: "world \<Rightarrow> string \<Rightarrow> string list \<Rightarrow> nat step" where
  "run_text x command arguments =
    (if command \<notin> set option_commands \<and> 1 < length arguments then unexpected (arguments ! 1)
     else if command \<notin> set argument_commands \<and> arguments \<noteq> [] then unexpected (arguments ! 0)
     else run_command x command arguments)"

section \<open>Documents\<close>

text \<open>\<open>Value::Array\<close> of the records of a table.\<close>

definition table_step :: "world \<Rightarrow> string \<Rightarrow> ('a \<Rightarrow> json) \<Rightarrow> 'a list result option \<Rightarrow> json step" where
  "table_step x what f reply = attempt_value x what (map_option (\<lambda>r. case r of Err e \<Rightarrow> Err e | Ok xs \<Rightarrow> Ok (Array (map f xs))) reply)"

definition route_document :: "world \<Rightarrow> string list \<Rightarrow> json step" where
  "route_document x arguments =
    (case arguments of
       [text_address] \<Rightarrow>
         (case parse_ip text_address of
            None \<Rightarrow> refused ''route destination must be an IP address''
          | Some destination \<Rightarrow>
              and_then (attempt_value x ''cannot look up route'' (route_to (x_route x) destination))
                (\<lambda>r. Some ([], Inr (json_route r))))
     | _ \<Rightarrow> refused ''route requires one IP address'')"

definition neighbors_document :: "world \<Rightarrow> string list \<Rightarrow> json step" where
  "neighbors_document x arguments =
    (if 1 < length arguments then refused ''neighbors accepts at most one interface''
     else
       let h = x_host x
       in decided (case first_opt arguments of
              None \<Rightarrow> Inr None
            | Some name \<Rightarrow>
                (case interface_index h name of
                   None \<Rightarrow> Inl (''interface '' @ name @ '' does not exist'')
                 | Some index \<Rightarrow> Inr (Some index))) (\<lambda>selected.
            table_step x ''cannot read neighbors'' (json_neighbor (interface_names h))
              (map_option (\<lambda>r. case r of Err e \<Rightarrow> Err e | Ok ns \<Rightarrow> Ok (filter (on_interface selected) ns))
                (case_prod (ip_neighbors (kk_sysconf (x_kernels x))) (kk_neighbors (x_kernels x))))))"

definition hardware_document :: "world \<Rightarrow> string list \<Rightarrow> json step" where
  "hardware_document x arguments =
    (if 1 < length arguments then refused ''hardware accepts at most one interface''
     else
       and_then (attempt_value x ''cannot read link hardware''
           (devices (kk_links (x_kernels x)) (fst (x_ethtool x)) (snd (x_ethtool x)))) (\<lambda>all.
         decided (case first_opt arguments of
              None \<Rightarrow> Inr all
            | Some name \<Rightarrow>
                let chosen = filter (\<lambda>d. d_name d = name) all
                in if chosen = [] then Inl (''no ethtool device named '' @ name) else Inr chosen) (\<lambda>ds.
           Some ([], Inr (Array (map json_hardware ds))))))"

text \<open>The second \<open>match\<close> of \<open>run_json\<close>: the value of a command.\<close>

definition json_value :: "world \<Rightarrow> string \<Rightarrow> string list \<Rightarrow> json step" where
  "json_value x command arguments =
    (let h = x_host x; k = x_kernels x
     in if command = ''all'' then
          map_option (\<lambda>r. ([], r)) (json_all (x_show_error x) h (x_canonical x) k)
        else if command = ''interfaces'' then
          table_step x ''cannot read interfaces'' (json_interface h) (links (kk_links k))
        else if command = ''links'' then table_step x ''cannot read links'' json_link (links (kk_links k))
        else if command = ''addresses'' then
          table_step x ''cannot read addresses'' json_address (case_prod ip_addresses (kk_addresses k))
        else if command = ''routes'' then
          table_step x ''cannot read routes'' json_route (case_prod ip_routes (kk_routes k))
        else if command = ''rules'' then table_step x ''cannot read rules'' json_rule (case_prod ip_rules (kk_rules k))
        else if command = ''route'' then route_document x arguments
        else if command = ''neighbors'' then neighbors_document x arguments
        else if command = ''hardware'' then hardware_document x arguments
        else if command = ''scan'' then
          attempt_value x ''cannot scan network''
            (map_option fst (scan_json h (x_surroundings x) (nm_panics (x_naming x)) (nm_getnameinfo (x_naming x)) arguments))
        else if command = ''sockets'' then
          (if 1 < length arguments then refused ''sockets accepts at most one view''
           else decided (view_argument (first_opt arguments)) (\<lambda>view.
             attempt_value x ''cannot read sockets''
               (sockets_document h (x_processes x) (x_show_error x) (x_diagnostics x) view)))
        else if command = ''wifi'' then
          (if arguments \<noteq> [] then refused ''wifi accepts no arguments''
           else table_step x ''cannot read Wi-Fi state'' json_wifi (interfaces (x_wifi x)))
        else if command = ''dns'' then
          (if arguments \<noteq> [] then refused ''dns accepts no arguments''
           else Some ([], Inr (json_dns h (x_canonical x))))
        else if command \<in> {''-V'', ''--version''} then
          Some ([], Inr (json_object [(''version'', json_string (x_version x))]))
        else if command \<in> {''-h'', ''--help'', ''help''} then
          Some ([], Inr (json_object [(''usage'', json_string usage)]))
        else refused (''unknown command: '' @ command @ [newline, newline] @ usage))"

text \<open>A document with its verdict, printed.\<close>

definition print_verdict :: "json \<times> bool \<Rightarrow> nat step" where
  "print_verdict v = Some ([Line (render (fst v))], Inr (if snd v then 0 else 1))"

definition run_json :: "world \<Rightarrow> string \<Rightarrow> string list \<Rightarrow> nat step" where
  "run_json x command arguments =
    (if command = ''watch'' then
       and_then (attempt_value x ''cannot watch network'' (Some (parse_watch_arguments arguments))) (\<lambda>f.
       and_then (watched x (watch_json (kk_sysconf (x_kernels x)) (x_event_kernel x) (x_host x) f (x_events x)))
         (\<lambda>_. exit_with True))
     else if command = ''traffic'' then
       and_then (attempt_to x ''cannot sample traffic'' (traffic_json (x_intervals x) arguments)) (\<lambda>_. exit_with True)
     else if command = ''probe'' then
       and_then (attempt_value x ''cannot probe destination'' (probe_json (x_probe x) arguments)) print_verdict
     else if command = ''check'' then
       decided (active_argument arguments) (\<lambda>active.
         and_then (attempt_value x ''cannot check network'' (check_json (x_show_error x) (x_host x) (x_check x) active))
           print_verdict)
     else and_then (json_value x command arguments) (\<lambda>v. print_verdict (v, True)))"

section \<open>The program\<close>

definition run :: "world \<Rightarrow> string list \<Rightarrow> nat step" where
  "run x args =
    (let rest = remove1 ''--json'' args;
         command = (case rest of [] \<Rightarrow> ''all'' | c # _ \<Rightarrow> c);
         arguments = drop 1 rest
     in if ''--json'' \<in> set args then run_json x command arguments else run_text x command arguments)"

text \<open>What goes to the standard output and to the standard error, and the exit status.\<close>

definition main :: "world \<Rightarrow> string list \<Rightarrow> (terminal_write list \<times> string option \<times> nat) option" where
  "main x args =
    map_option (\<lambda>(written, r). case r of
        Inr code \<Rightarrow> (written, None, code)
      | Inl message \<Rightarrow> (written, Some (''networkrs: '' @ message), 2)) (run x args)"

end
