(* ===== verification/Cli_Tools_Spec.thy ===== *)
theory Cli_Tools_Spec
  imports Cli_Tools Cli_Json_Spec Wifi_Spec
begin

text \<open>
  What \<open>traffic\<close> leaves on a terminal and on a pipe, and that the numbers of \<open>wifi --json\<close> are those the
  kernel has reported.
\<close>

section \<open>The screen\<close>

text \<open>The lines that a terminal shows, on which no line wraps and which is tall enough not to scroll
  them away: a line is added below, or the last ones are erased.\<close>

fun show_write :: "string list \<Rightarrow> terminal_write \<Rightarrow> string list" where
  "show_write screen (Line s) = screen @ [s]"
| "show_write screen (Erase_up n) = take (length screen - n) screen"

definition screen_after :: "string list \<Rightarrow> terminal_write list \<Rightarrow> string list" where
  "screen_after screen written = foldl show_write screen written"

lemma screen_after_simps [simp]:
  "screen_after screen [] = screen"
  "screen_after screen (xs @ ys) = screen_after (screen_after screen xs) ys"
  "screen_after screen (map Line ls) = screen @ ls"
proof -
  show "screen_after screen (map Line ls) = screen @ ls"
    by (induction ls arbitrary: screen) (simp_all add: screen_after_def)
qed (simp_all add: screen_after_def)

lemma length_traffic_sample: "length (print_traffic_sample s) = traffic_sample_line_count (length (s_interfaces s))"
proof -
  have "length (concat (map (\<lambda>i. [''  '' @ ir_interface i, print_direction_rate ''RX'' (ir_received i),
      print_direction_rate ''TX'' (ir_transmitted i)]) is)) = length is * 3" for "is"
    by (induction "is") simp_all
  then show ?thesis
    by (simp add: print_traffic_sample_def traffic_sample_line_count_def)
qed

text \<open>What the loop writes for a list of samples, the one before them having taken some lines.\<close>

fun sample_writes :: "bool \<Rightarrow> nat \<Rightarrow> sample list \<Rightarrow> terminal_write list" where
  "sample_writes refresh shown [] = []"
| "sample_writes refresh shown (s # ss) =
    (if refresh \<and> shown \<noteq> 0 then [Erase_up shown] else []) @ map Line (print_traffic_sample s)
    @ sample_writes refresh (length (print_traffic_sample s)) ss"

lemma screen_after_samples:
  "screen_after (before @ shown) (sample_writes True (length shown) ss) =
    before @ (if ss = [] then shown else print_traffic_sample (last ss))"
proof (induction ss arbitrary: shown)
  case (Cons s ss)
  have "screen_after (before @ shown) (if shown \<noteq> [] then [Erase_up (length shown)] else []) = before"
    by (simp add: screen_after_def)
  with Cons.IH [of "print_traffic_sample s"] show ?case
    by simp
qed simp

lemma writes_without_refresh: "sample_writes False n ss = map Line (concat (map print_traffic_sample ss))"
  by (induction ss arbitrary: n) simp_all

section \<open>The loop\<close>

text \<open>The samples of the intervals before the first that fails.\<close>

definition samples_of :: "string option \<Rightarrow> interval list \<Rightarrow> sample list" where
  "samples_of selection script =
    map (\<lambda>t. ok_value (sample_of selection t)) (takeWhile (\<lambda>t. is_ok (sample_of selection t)) script)"

definition first_failure :: "string option \<Rightarrow> interval list \<Rightarrow> io_error option" where
  "first_failure selection script =
    find_map (\<lambda>t. case sample_of selection t of Ok _ \<Rightarrow> None | Err e \<Rightarrow> Some e) script"

lemma traffic_loop_watched:
  "traffic_loop refresh True selection script n =
    map_option (\<lambda>e. (sample_writes refresh n (samples_of selection script), Err e)) (first_failure selection script)"
proof (induction script arbitrary: n)
  case (Cons t script)
  show ?case
  proof (cases "sample_of selection t")
    case (Ok s)
    then show ?thesis
      using Cons.IH by (simp add: samples_of_def first_failure_def option.map_comp comp_def length_traffic_sample)
  next
    case (Err e)
    then show ?thesis
      by (simp add: samples_of_def first_failure_def)
  qed
qed (simp add: first_failure_def)

lemma traffic_json_loop_watched:
  "traffic_json_loop True selection script =
    map_option (\<lambda>e. (map (\<lambda>s. render (json_traffic_sample s)) (samples_of selection script), Err e))
      (first_failure selection script)"
proof (induction script)
  case (Cons t script)
  show ?case
  proof (cases "sample_of selection t")
    case (Ok s)
    with Cons.IH show ?thesis
      by (simp add: samples_of_def first_failure_def option.map_comp comp_def)
  next
    case (Err e)
    then show ?thesis
      by (simp add: samples_of_def first_failure_def)
  qed
qed (simp add: first_failure_def)

text \<open>C17: \<open>traffic --watch\<close> samples until a sample fails. Its documents, its lines on a pipe and its lines on a
  terminal are about the same samples and end with the same error; on the terminal each sample
  takes exactly the place of the one before, so that the last one stands there alone, below what
  the screen showed at the start.\<close>

theorem traffic_watch_exact:
  assumes "parse_traffic_arguments arguments = Ok a" and "ta_watch a"
  shows "let samples = samples_of (ta_selection a) script in case first_failure (ta_selection a) script of
      None \<Rightarrow> print_traffic is_terminal script arguments = None \<and> traffic_json script arguments = None
    | Some e \<Rightarrow>
        traffic_json script arguments = Some (map (\<lambda>s. render (json_traffic_sample s)) samples, Err e)
        \<and> print_traffic False script arguments = Some (map Line (concat (map print_traffic_sample samples)), Err e)
        \<and> (\<exists>written. print_traffic True script arguments = Some (written, Err e)
            \<and> screen_after before written = before @ (if samples = [] then [] else print_traffic_sample (last samples)))"
  using assms screen_after_samples [of before "[]" "samples_of (ta_selection a) script"]
  by (simp add: print_traffic_def traffic_json_def traffic_loop_watched traffic_json_loop_watched writes_without_refresh
      Let_def split: option.split)

lemma watched_lo: "parse_traffic_arguments [''--watch'', ''lo''] = Ok \<lparr>ta_selection = Some ''lo'', ta_interval_ms = 1000, ta_watch = True\<rparr>"
  by (simp add: parse_traffic_arguments_def traffic_arguments_from.simps starts_with_def)

text \<open>The directory of \<open>lo\<close> goes away during the second interval.\<close>

definition example_intervals :: "interval list" where
  "example_intervals =
    [(example_sysfs 1, example_sysfs 1, 1000),
     ((example_sysfs 1)\<lparr>fs_is_dir := \<lambda>path. False\<rparr>, example_sysfs 1, 1000)]"

theorem traffic_watch_exact_witness:
  "\<exists>s e. traffic_json example_intervals [''--watch'', ''lo''] = Some ([render (json_traffic_sample s)], Err e)
    \<and> s_interfaces s \<noteq> []"
proof -
  obtain s where s: "sample_traffic (example_sysfs 1) (example_sysfs 1) 1000 (Some ''lo'') = Ok s" "s_interfaces s \<noteq> []"
    using sample_all_or_error_witness by auto
  obtain e where e: "sample_traffic ((example_sysfs 1)\<lparr>fs_is_dir := \<lambda>path. False\<rparr>) (example_sysfs 1) 1000 (Some ''lo'') = Err e"
    by (auto simp: sample_traffic_def interface_paths_def Let_def)
  have "samples_of (Some ''lo'') example_intervals = [s]" "first_failure (Some ''lo'') example_intervals = Some e"
    by (simp_all add: samples_of_def first_failure_def example_intervals_def sample_of_def s(1) e)
  with traffic_watch_exact [OF watched_lo, of example_intervals False "[]"] s(2) show ?thesis
    by auto
qed

section \<open>Wi-Fi\<close>

text \<open>The numbers of a record are numbers of \<open>f32\<close>: they come from quotients of integers.\<close>

definition bitrate_ok :: "bitrate option \<Rightarrow> bool" where
  "bitrate_ok r \<longleftrightarrow> (case r of None \<Rightarrow> True | Some b \<Rightarrow> canonical 24 (br_mbps b))"

definition signal_ok :: "f32 option \<Rightarrow> bool" where
  "signal_ok x \<longleftrightarrow> (case x of None \<Rightarrow> True | Some signal \<Rightarrow> canonical 24 signal)"

definition station_ok :: "station option \<Rightarrow> bool" where
  "station_ok s \<longleftrightarrow>
    (case s of None \<Rightarrow> True | Some s \<Rightarrow> bitrate_ok (sta_receive_bitrate s) \<and> bitrate_ok (sta_transmit_bitrate s))"

definition wifi_numbers_ok :: "wifi_interface \<Rightarrow> bool" where
  "wifi_numbers_ok i \<longleftrightarrow> signal_ok (w_signal_dbm i) \<and> station_ok (w_station i)"

lemma canonical_float_div: "0 < k \<Longrightarrow> 0 < p \<Longrightarrow> canonical p (float_div p x k)"
  by (cases "float_ratio x") (simp add: float_div_def canonical_of_ratio float_ratio_value(1))

lemma canonical_quotient: "0 < k \<Longrightarrow> canonical 24 (f32_div x k)"
  by (simp add: f32_div_def canonical_float_div)

lemma parse_bitrate_ok: "bitrate_ok (Option.bind v parse_bitrate)"
proof (cases "Option.bind v parse_bitrate")
  case (Some b)
  then obtain bs attrs where "v = Some bs" "nested_attributes bs = Some attrs"
    by (cases v) (auto simp: parse_bitrate_def Option.bind_eq_Some_conv)
  with Some have "canonical 24 (br_mbps b)"
    by (cases "nested_u8 attrs RATE_HE_MCS"; cases "nested_u8 attrs RATE_VHT_MCS")
      (auto simp: parse_bitrate_def Option.bind_eq_Some_conv option_or_eq_Some canonical_quotient)
  with Some show ?thesis
    by (simp add: bitrate_ok_def)
qed (simp add: bitrate_ok_def)

lemma parse_station_ok: "station_ok (find_map parse_station messages)"
proof (induction messages)
  case (Cons m messages)
  show ?case
  proof (cases "parse_station m")
    case (Some s)
    then have "station_ok (Some s)"
      by (auto simp: station_ok_def parse_station_def parse_bitrate_ok Option.bind_eq_Some_conv)
    with Some show ?thesis
      by simp
  qed (use Cons in simp)
qed (simp add: station_ok_def)

lemma parse_connected_bss_ok: "find_map parse_connected_bss messages = Some bss \<Longrightarrow> signal_ok (b_signal_dbm bss)"
proof (induction messages)
  case (Cons m messages)
  show ?case
  proof (cases "parse_connected_bss m")
    case (Some b)
    then have "signal_ok (b_signal_dbm b)"
      by (auto simp: parse_connected_bss_def Option.bind_eq_Some_conv signal_ok_def canonical_quotient
          split: if_splits option.split)
    with Some Cons.prems show ?thesis
      by simp
  qed (use Cons in simp)
qed simp

lemma completed_numbers_ok:
  assumes "wifi_numbers_ok i"
  shows "wifi_numbers_ok (with_power_save saving (with_station stations (with_bss scanned i)))"
proof -
  have "wifi_numbers_ok (with_bss scanned i)"
    using assms parse_connected_bss_ok
    by (auto simp: with_bss_def wifi_numbers_ok_def split: result.split option.split)
  then have "wifi_numbers_ok (with_station stations (with_bss scanned i))"
    by (simp add: with_station_def wifi_numbers_ok_def parse_station_ok split: result.split)
  then show ?thesis
    by (simp add: with_power_save_def wifi_numbers_ok_def split: result.split)
qed

lemma interface_loop_numbers_ok:
  "interface_loop k is client = Some (js, client') \<Longrightarrow> list_all wifi_numbers_ok is \<Longrightarrow> list_all wifi_numbers_ok js"
proof (induction "is" arbitrary: client js client')
  case (Cons i "is")
  then show ?case
    by (auto simp: Option.bind_eq_Some_conv completed_numbers_ok split: prod.splits)
qed simp

lemma parse_interface_numbers_ok: "parse_interface message wiphys = Some i \<Longrightarrow> wifi_numbers_ok i"
  by (auto simp: parse_interface_def Let_def Option.bind_eq_Some_conv wifi_numbers_ok_def signal_ok_def station_ok_def)

lemma interfaces_numbers_ok:
  assumes "interfaces k = Some (Ok is)"
  shows "list_all wifi_numbers_ok is"
proof -
  obtain client wiphys client1 messages client2 where
    "connect k ''nl80211'' = Some (Ok client)"
    "request k client CMD_GET_WIPHY 1 True [] = Some (Ok wiphys, client1)"
    "request k client1 CMD_GET_INTERFACE 1 True [] = Some (Ok messages, client2)"
    using assms by (auto simp: interfaces_def split: option.splits result.splits prod.splits)
  with assms obtain js client3 where
    run: "interface_loop k (filter_map (\<lambda>m. parse_interface m (wiphy_names wiphys)) messages) client2 = Some (js, client3)"
    and js: "is = sort_key wifi_interface.w_interface_index js"
    by (auto simp: interfaces_def)
  have "list_all wifi_numbers_ok (filter_map (\<lambda>m. parse_interface m (wiphy_names wiphys)) messages)"
    by (auto simp: list_all_iff set_filter_map dest: parse_interface_numbers_ok)
  from interface_loop_numbers_ok [OF run this] show ?thesis
    by (simp add: js list_all_iff)
qed

section \<open>The documents\<close>

fun json_at :: "string list \<Rightarrow> json \<Rightarrow> json option" where
  "json_at [] v = Some v"
| "json_at (key # keys) v =
    (case v of Object members \<Rightarrow> Option.bind (map_of members key) (json_at keys) | _ \<Rightarrow> None)"

text \<open>The number at a place of a document reads as a number of \<open>f32\<close>.\<close>

definition f32_at :: "string list \<Rightarrow> json \<Rightarrow> f32 option" where
  "f32_at keys v = (case json_at keys v of Some (Number t) \<Rightarrow> parse_float 24 t | _ \<Rightarrow> None)"

lemma parse_show_f32: "canonical 24 x \<Longrightarrow> parse_float 24 (show_f32 x) = Some x"
  by (simp add: show_f32_def shortest_text_reads)

lemma document_f32 [document_simps]:
  "document_ok (json_number show_f32 x)" "document_ok (optional_number show_f32 y)"
  "document_ok (optional_number (\<lambda>a. signed_decimal (sint a)) z)"
proof -
  show "document_ok (json_number show_f32 x)"
    by (simp add: document_ok_def json_number_def show_f32_def number_ok_shortest_text)
  then show "document_ok (optional_number show_f32 y)"
    by (cases y) (simp_all add: document_ok_def optional_number_def json_number_def show_f32_def number_ok_shortest_text)
  show "document_ok (optional_number (\<lambda>a. signed_decimal (sint a)) z)"
    by (cases z) (simp_all add: document_ok_def optional_number_def json_number_def number_ok_signed_decimal)
qed

lemma document_of_wifi: "document_ok (json_wifi i)"
  by (simp add: json_wifi_def json_wifi_station_def json_bitrate_def document_simps)

definition bitrate_of :: "(station \<Rightarrow> bitrate option) \<Rightarrow> wifi_interface \<Rightarrow> f32 option" where
  "bitrate_of which i = Option.bind (w_station i) (\<lambda>s. map_option br_mbps (which s))"

lemma f32_at_bitrate:
  assumes "bitrate_ok r"
  shows "f32_at [''megabitsPerSecond''] (unwrap_or Null (map_option json_bitrate r)) = map_option br_mbps r"
  using assms by (cases r) (simp_all add: f32_at_def json_bitrate_def json_object_def json_number_def bitrate_ok_def parse_show_f32)

text \<open>C18: Whatever the kernel reports, the document of \<open>wifi --json\<close> is well formed, and its signal strengths and
  bit rates, written in their shortest form, read back as exactly the \<open>f32\<close> numbers of the records.\<close>

theorem wifi_documents_exact:
  assumes "interfaces k = Some (Ok is)"
  shows "reads_back (Array (map json_wifi is))
    \<and> list_all (\<lambda>i. f32_at [''signalDbm''] (json_wifi i) = w_signal_dbm i
        \<and> f32_at [''station'', ''receiveBitrate'', ''megabitsPerSecond''] (json_wifi i) = bitrate_of sta_receive_bitrate i
        \<and> f32_at [''station'', ''transmitBitrate'', ''megabitsPerSecond''] (json_wifi i) = bitrate_of sta_transmit_bitrate i) is"
proof
  show "reads_back (Array (map json_wifi is))"
    by (rule document_reads_back) (simp add: document_simps document_of_wifi list_all_iff)
  have signal: "f32_at [''signalDbm''] (json_wifi i) = w_signal_dbm i" if "signal_ok (w_signal_dbm i)" for i
    using that
    by (cases "w_signal_dbm i")
      (simp_all add: f32_at_def json_wifi_def json_object_def optional_number_def json_number_def signal_ok_def parse_show_f32)
  have rates: "f32_at [''station'', ''receiveBitrate'', ''megabitsPerSecond''] (json_wifi i) = bitrate_of sta_receive_bitrate i
      \<and> f32_at [''station'', ''transmitBitrate'', ''megabitsPerSecond''] (json_wifi i) = bitrate_of sta_transmit_bitrate i"
    if "station_ok (w_station i)" for i
  proof (cases "w_station i")
    case None
    then show ?thesis
      by (simp add: f32_at_def json_wifi_def json_object_def bitrate_of_def)
  next
    case (Some s)
    with that have "bitrate_ok (sta_receive_bitrate s)" "bitrate_ok (sta_transmit_bitrate s)"
      by (simp_all add: station_ok_def)
    with f32_at_bitrate Some show ?thesis
      by (simp add: f32_at_def json_wifi_def json_wifi_station_def json_object_def bitrate_of_def)
  qed
  show "list_all (\<lambda>i. f32_at [''signalDbm''] (json_wifi i) = w_signal_dbm i
      \<and> f32_at [''station'', ''receiveBitrate'', ''megabitsPerSecond''] (json_wifi i) = bitrate_of sta_receive_bitrate i
      \<and> f32_at [''station'', ''transmitBitrate'', ''megabitsPerSecond''] (json_wifi i) = bitrate_of sta_transmit_bitrate i) is"
    using interfaces_numbers_ok [OF assms] signal rates by (simp add: list_all_iff wifi_numbers_ok_def)
qed

lemma example_wifi_interfaces: "\<exists>is. interfaces example_wifi = Some (Ok is) \<and> length is = 1"
proof -
  let ?listed = "\<lparr>gm_command = 7, gm_attributes = [attribute_u32 ATTR_IFINDEX 3, (ATTR_IFNAME, text_value ''wlan0''),
         attribute_u32 ATTR_WIPHY 0, attribute_u32 ATTR_IFTYPE 2]\<rparr>"
  obtain radios listed where dumps: "example_dump CMD_GET_WIPHY [] = Inr radios" "example_dump CMD_GET_INTERFACE [] = Inr listed"
    and listed: "listed = [?listed]"
    by (simp add: example_dump_def)
  note complete = interfaces_complete [OF connect_example_wifi _ dump_answers_example_wifi single_answers_example_wifi dumps]
  moreover have "length (filter_map (\<lambda>m. parse_interface m wiphys) (map generic_view [?listed])) = 1" for wiphys
    by code_simp
  ultimately show ?thesis
    by (auto simp: ordinary_type_def listed)
qed

theorem wifi_documents_exact_witness:
  "\<exists>is. interfaces example_wifi = Some (Ok is) \<and> length is = 1 \<and> reads_back (Array (map json_wifi is))"
  using example_wifi_interfaces wifi_documents_exact by blast

end
