(* ===== verification/Cli_Commands_Spec.thy ===== *)
theory Cli_Commands_Spec
  imports Cli_Commands Cli_Check_Spec Cli_Tools_Spec
begin

text \<open>
  What every command keeps: with \<open>--json\<close> each line of the standard output is a document, the exit status
  tells the outcome in the same way for every command and for both forms of its output.
\<close>

section \<open>The documents of checks and probes\<close>

lemma document_f64 [document_simps]:
  "document_ok (json_number (millis_text k) n)" "document_ok (json_number (\<lambda>r. shortest_text p (f r)) r)"
  "document_ok (optional_number (\<lambda>d. shortest_text p (f d)) v)"
  by (simp_all add: document_ok_def json_number_def millis_text_def number_ok_fixed_text number_ok_shortest_text)
    (cases v; simp add: optional_number_def json_number_def number_ok_shortest_text)

lemma document_of_check_item: "document_ok (json_check_item name status detail)"
  by (simp add: json_check_item_def document_simps)

lemma documents_of_passive_checks:
  "document_ok (fst (default_route_check d))" "document_ok (fst (interface_check d state carrier))"
  "document_ok (fst (gateway_check d ns))" "document_ok (fst (dns_check servers))"
  by (simp_all add: default_route_check_def interface_check_def gateway_check_def dns_check_def document_of_check_item
      split: option.split)

lemma documents_of_icmp_check: "list_all document_ok (map fst (icmp_check show_error d echoed))"
  by (auto simp: icmp_check_def document_of_check_item json_duration_def document_simps split: result.split)

lemma document_of_dns_tcp_check: "document_ok (fst (dns_tcp_check dial address))"
  by (simp add: dns_tcp_check_def document_of_check_item split: prod.split result.split)

lemma documents_of_dns_route_check:
  "dns_route_check show_error names w server = Some vs \<Longrightarrow> list_all document_ok (map fst vs)"
  by (auto simp: dns_route_check_def document_of_check_item document_of_dns_tcp_check split: option.splits)
    (auto simp: document_of_check_item document_of_dns_tcp_check split: result.split)

lemma documents_of_dns_route_checks:
  "dns_route_checks show_error names w servers = Some vs \<Longrightarrow> list_all document_ok (map fst vs)"
proof (induction servers arbitrary: vs)
  case (Cons server servers)
  then show ?case
    by (auto simp: Option.bind_eq_Some_conv dest!: documents_of_dns_route_check)
qed simp

lemma documents_of_active_checks:
  "active_checks show_error h w d servers = Some vs \<Longrightarrow> list_all document_ok (map fst vs)"
  using documents_of_icmp_check by (auto simp: active_checks_def dest!: documents_of_dns_route_checks)

lemma document_of_checks:
  "list_all document_ok (map fst vs) \<Longrightarrow> document_ok (fst (check_document active (default_route_check d
    # interface_check d state carrier # gateway_check d ns # dns_check servers # vs)))"
  by (simp add: check_document_def Let_def document_simps documents_of_passive_checks)

lemma document_of_check: "check_json show_error h w active = Some (Ok v) \<Longrightarrow> document_ok (fst v)"
  unfolding check_json_def Let_def
  by (auto intro!: document_of_checks dest: documents_of_active_checks split: result.split_asm option.split_asm if_split_asm)

lemma document_of_probe: "document_ok (fst (probe_document a address route elapsed rs))"
proof -
  have "document_ok (json_port_result r)" "document_ok (json_single_probe host address route reachable r)"
    "document_ok (json_port_scan a address route reachable elapsed rs)" for r host reachable rs
    by (simp_all add: json_port_result_def json_single_probe_def json_port_scan_def documents_with_arrays document_simps)
  then show ?thesis
    by (simp add: probe_document_def Let_def split: list.split)
qed

lemma document_of_probe_json: "probe_json w arguments = Some (Ok v) \<Longrightarrow> document_ok (fst v)"
  by (auto simp: probe_json_def document_of_probe split: option.splits result.splits)

section \<open>Steps that write nothing\<close>

definition quiet :: "('a \<Rightarrow> bool) \<Rightarrow> 'a step \<Rightarrow> bool" where
  "quiet ok s \<longleftrightarrow>
    (case s of None \<Rightarrow> True | Some (written, r) \<Rightarrow> written = [] \<and> (case r of Inl _ \<Rightarrow> True | Inr v \<Rightarrow> ok v))"

named_theorems quiet_intros

lemma quiet_refused [quiet_intros]: "quiet ok (refused message)"
  by (simp add: quiet_def refused_def)

lemma quiet_given [quiet_intros]: "ok v \<Longrightarrow> quiet ok (Some ([], Inr v))"
  by (simp add: quiet_def)

lemma quiet_attempt [quiet_intros]: "(\<And>v. p = Some (Ok v) \<Longrightarrow> ok v) \<Longrightarrow> quiet ok (attempt_value x what p)"
  by (auto simp: quiet_def attempt_value_def attempt_to_def split: option.split result.split)

lemma quiet_and_then: "quiet ok s \<Longrightarrow> (\<And>v. ok v \<Longrightarrow> quiet ok' (f v)) \<Longrightarrow> quiet ok' (and_then s f)"
  by (fastforce simp: quiet_def and_then_def split: option.splits sum.splits)

lemma quiet_decided [quiet_intros]: "(\<And>v. quiet ok (f v)) \<Longrightarrow> quiet ok (decided c f)"
  by (simp add: decided_def quiet_refused split: sum.split)

lemma map_result_Ok: "(case r of Err e \<Rightarrow> Err e | Ok a \<Rightarrow> Ok (f a)) = Ok v \<longleftrightarrow> (\<exists>a. r = Ok a \<and> v = f a)"
  by (auto split: result.split)

lemma quiet_table [quiet_intros]: "(\<And>a. document_ok (f a)) \<Longrightarrow> quiet document_ok (table_step x what f reply)"
  unfolding table_step_def
  by (rule quiet_attempt) (auto simp: document_simps list_all_iff map_result_Ok)

lemma quiet_route: "quiet document_ok (route_document x arguments)"
  unfolding route_document_def
  by (auto split: list.split option.split intro!: quiet_intros quiet_and_then [of "\<lambda>_. True"] documents_with_arrays)

lemma quiet_neighbors: "quiet document_ok (neighbors_document x arguments)"
  by (auto simp: neighbors_document_def Let_def documents_of_neighbors intro!: quiet_intros)

lemma quiet_hardware: "quiet document_ok (hardware_document x arguments)"
  by (auto simp: hardware_document_def document_simps list_all_iff documents_with_arrays
      intro!: quiet_intros quiet_and_then [of "\<lambda>_. True"])

lemma quiet_all: "quiet document_ok (map_option (\<lambda>r. ([], r)) (json_all show_error h path k))"
  by (auto simp: quiet_def dest: document_of_all split: option.split sum.split)

lemma quiet_scan:
  "quiet document_ok (attempt_value x what (map_option fst (scan_json h e panics getnameinfo arguments)))"
  by (rule quiet_attempt) (auto simp: scan_json_def document_of_scan map_result_Ok)

lemma quiet_sockets:
  "quiet document_ok (attempt_value x what (sockets_document h proc_dir show_error k view))"
  by (rule quiet_attempt) (auto simp: sockets_document_def dest: document_of_sockets split: option.splits result.splits)

lemma quiet_value: "quiet document_ok (json_value x command arguments)"
  by (simp add: json_value_def Let_def quiet_all quiet_route quiet_neighbors quiet_hardware quiet_scan quiet_sockets
      quiet_table quiet_refused quiet_given quiet_decided documents_of_records documents_with_arrays document_of_interface
      document_of_wifi document_simps)

section \<open>The lines of \<open>--json\<close>\<close>

definition document_line :: "terminal_write \<Rightarrow> bool" where
  "document_line w \<longleftrightarrow>
    (case w of
       Erase_up _ \<Rightarrow> False
     | Line s \<Rightarrow> (case read_json s of None \<Rightarrow> False | Some v \<Rightarrow> s = render v \<and> reads_back v))"

lemma document_line_render: "reads_back v \<Longrightarrow> document_line (Line (render v))"
  by (simp add: document_line_def reads_back_def)

text \<open>The member of the one document that was written.\<close>

definition verdict_of :: "string \<Rightarrow> terminal_write list \<Rightarrow> json option" where
  "verdict_of key written =
    (case written of
       [Line s] \<Rightarrow> (case read_json s of Some (Object members) \<Rightarrow> map_of members key | _ \<Rightarrow> None)
     | _ \<Rightarrow> None)"

lemma verdict_of_render:
  "document_ok (Object members) \<Longrightarrow> verdict_of key [Line (render (Object members))] = map_of members key"
  using document_reads_back [of "Object members"] by (simp add: verdict_of_def reads_back_def)

text \<open>A command that prints its document last.\<close>

lemma printed_quiet:
  assumes "quiet ok s" and "and_then s (\<lambda>a. print_verdict (g a)) = Some (written, r)"
  obtains (failed) message where "written = []" "r = Inl message"
  | (printed) a where "s = Some ([], Inr a)" "ok a" "written = [Line (render (fst (g a)))]" "r = Inr (if snd (g a) then 0 else 1)"
  using assms by (fastforce simp: quiet_def and_then_def print_verdict_def split: option.splits sum.splits)

definition documents_only :: "'a step \<Rightarrow> bool" where
  "documents_only s \<longleftrightarrow> (case s of None \<Rightarrow> True | Some (written, _) \<Rightarrow> list_all document_line written)"

lemma documents_refused: "documents_only (refused message)" "documents_only (exit_with healthy)"
  by (simp_all add: documents_only_def refused_def exit_with_def)

lemma documents_verdict: "document_ok (fst v) \<Longrightarrow> documents_only (print_verdict v)"
  by (simp add: documents_only_def print_verdict_def document_line_render document_reads_back)

lemma documents_and_then:
  "documents_only s \<Longrightarrow> (\<And>v. documents_only (f v)) \<Longrightarrow> documents_only (and_then s f)"
  by (fastforce simp: documents_only_def and_then_def split: option.splits sum.splits)

lemma documents_and_then_quiet:
  "quiet ok s \<Longrightarrow> (\<And>v. ok v \<Longrightarrow> documents_only (f v)) \<Longrightarrow> documents_only (and_then s f)"
  by (fastforce simp: quiet_def documents_only_def and_then_def split: option.splits sum.splits)

lemma traffic_json_lines: "traffic_json_loop go selection script = Some (ls, r) \<Longrightarrow> list_all document_line (map Line ls)"
proof (induction go selection script arbitrary: ls rule: traffic_json_loop.induct)
  case (2 go selection t ts)
  show ?case
  proof (cases "sample_of selection t")
    case (Ok s)
    have "document_line (Line (render (json_traffic_sample s)))"
      by (intro document_line_render document_reads_back documents_with_arrays)
    with 2 Ok show ?thesis
      by (auto simp: Let_def split: if_splits)
  next
    case (Err e)
    with "2.prems" show ?thesis
      by simp
  qed
qed simp

lemma documents_traffic: "documents_only (attempt_to x what (traffic_json script arguments))"
  by (auto simp: documents_only_def attempt_to_def traffic_json_def dest: traffic_json_lines split: option.split result.split)

lemma watch_json_lines:
  assumes "watch_json sysconf k h f script = Some (e, names, ls)"
  shows "list_all document_line (map Line ls)"
proof -
  obtain events where "(names, ls) = fold (watch_json_handler f) events (interface_names h, [])"
    using assms unfolding watch_json_def by (blast dest: watch_events_folds)
  then have "ls = map render (shown_events json_event f events (interface_names h))"
    by (simp add: json_watch.run shown_events_map)
  with shown_documents [of f events "interface_names h"] show ?thesis
    by (auto simp: list_all_iff intro: document_line_render)
qed

lemma documents_watch: "documents_only (watched x (watch_json sysconf k h f script))"
  by (auto simp: documents_only_def watched_def attempt_to_def dest: watch_json_lines split: option.split)

lemma documents_json: "documents_only (run_json x command arguments)"
proof -
  have silent: "documents_only (and_then (attempt_value x what p) f)"
    if "\<And>v. p = Some (Ok v) \<Longrightarrow> documents_only (f v)" for what p f
    by (rule documents_and_then_quiet [OF quiet_attempt [of p "\<lambda>v. p = Some (Ok v)"] that])
  have decided: "documents_only (decided c f)" if "\<And>v. documents_only (f v)" for c f
    using that by (simp add: decided_def documents_refused split: sum.split)
  show ?thesis
    unfolding run_json_def
    by (auto intro!: silent decided documents_and_then documents_watch documents_traffic documents_refused
        documents_verdict documents_and_then_quiet [OF quiet_value] dest: document_of_probe_json document_of_check)
qed

text \<open>The command of a call.\<close>

definition command_of :: "string list \<Rightarrow> string" where
  "command_of args = (case remove1 ''--json'' args of [] \<Rightarrow> ''all'' | c # _ \<Rightarrow> c)"

definition streaming :: "string list" where
  "streaming = [''watch'', ''traffic'']"

lemma quiet_verdicts:
  "quiet (\<lambda>v. document_ok (fst v)) (attempt_value x what (probe_json w arguments))"
  "quiet (\<lambda>v. document_ok (fst v)) (attempt_value x what (check_json show_error h e active))"
  by (auto intro: quiet_attempt document_of_probe_json document_of_check)

lemma one_document:
  assumes "run_json x command arguments = Some (written, r)" and "command \<notin> set streaming"
  shows "length written = (case r of Inl _ \<Rightarrow> 0 | Inr _ \<Rightarrow> 1)"
proof -
  have printed: "length written = (case r of Inl _ \<Rightarrow> 0 | Inr _ \<Rightarrow> 1)"
    if "quiet ok s" "and_then s (\<lambda>a. print_verdict (g a)) = Some (written, r)" for ok g and s :: "'b step"
    using that by (rule printed_quiet) simp_all
  consider "command = ''probe''" | "command = ''check''" | "command \<notin> {''probe'', ''check''}"
    by blast
  then show ?thesis
  proof cases
    case 1
    with assms(1) printed [OF quiet_verdicts(1), where g = "\<lambda>a. a"] show ?thesis
      by (simp add: run_json_def)
  next
    case 2
    with assms(1) printed [OF quiet_verdicts(2), where g = "\<lambda>a. a"] show ?thesis
      by (auto simp: run_json_def decided_def refused_def split: sum.splits)
  next
    case 3
    with assms printed [OF quiet_value, where g = "\<lambda>v. (v, True)"] show ?thesis
      by (simp add: run_json_def streaming_def)
  qed
qed

lemma main_ends:
  assumes "main x args = Some (written, message, code)"
  obtains (failed) text_of where "run x args = Some (written, Inl text_of)" "message = Some (''networkrs: '' @ text_of)" "code = 2"
  | (ended) "run x args = Some (written, Inr code)" "message = None"
proof -
  obtain before r where ran: "run x args = Some (before, r)"
    using assms by (cases "run x args") (auto simp: main_def)
  then have run: "run x args = Some (written, r)"
    using assms by (cases r) (simp_all add: main_def)
  show ?thesis
  proof (cases r)
    case (Inl text_of)
    with run assms show ?thesis
      by (intro failed) (auto simp: main_def)
  next
    case (Inr c)
    with run assms show ?thesis
      by (intro ended) (auto simp: main_def)
  qed
qed

lemma run_as_json:
  "''--json'' \<in> set args \<Longrightarrow> run x args = run_json x (command_of args) (drop 1 (remove1 ''--json'' args))"
  by (simp add: run_def command_of_def Let_def)

text \<open>C7: With \<open>--json\<close>, whatever the arguments and the state of the system: every line on the standard output is one
  well-formed document without duplicate members that is read back as the value it was printed from,
  no terminal control is written, and a command that does not stream prints exactly one document when
  it succeeds or gives a verdict, and none when it fails.\<close>

theorem json_output:
  assumes "''--json'' \<in> set args" and "main x args = Some (written, message, code)"
  shows "list_all document_line written
    \<and> (command_of args \<notin> set streaming \<longrightarrow> length written = (if message = None then 1 else 0))"
proof -
  have "list_all document_line written \<and>
      (command_of args \<notin> set streaming \<longrightarrow> length written = (case r of Inl _ \<Rightarrow> 0 | Inr _ \<Rightarrow> 1))"
    if "run x args = Some (written, r)" for r
    using that documents_json [of x "command_of args" "drop 1 (remove1 ''--json'' args)"]
      one_document [of x "command_of args" _ written r]
    by (simp add: run_as_json [OF assms(1)] documents_only_def)
  with assms(2) show ?thesis
    by (cases rule: main_ends) force+
qed

text \<open>A system with a point-to-point default route and one Wi-Fi interface, whose other kernels do not answer.\<close>

definition example_world :: world where
  "example_world =
    (let k = example_kernel []
     in \<lparr>x_host = ppp_host, x_show_error = \<lambda>_. ''error'', x_canonical = None, x_version = ''1.0'', x_terminal = True,
         x_naming = \<lparr>nm_panics = \<lambda>_. False, nm_getnameinfo = \<lambda>_. None\<rparr>,
         x_kernels = \<lparr>kk_sysconf = 100, kk_links = k, kk_addresses = (k, k), kk_routes = (k, k), kk_rules = (k, k),
           kk_neighbors = (k, k)\<rparr>,
         x_route = k, x_ethtool = (k, \<lparr>df_read_link = \<lambda>_. Err (Os 2), df_read_to_string = \<lambda>_. Err (Os 2)\<rparr>),
         x_surroundings = \<lparr>e_sysconf = 100, e_addresses = k, e_route = k, e_before = k, e_after = k,
           e_bind_error = None, e_elapsed = 0\<rparr>,
         x_event_kernel = k, x_events = [], x_check = ppp_world,
         x_probe = \<lparr>pw_resolve = \<lambda>_ _. Err (Os 2), pw_route = \<lambda>_. k, pw_dial = \<lambda>_ _ _. (Ok (), [], 0),
           pw_schedule = [], pw_elapsed = 0\<rparr>,
         x_processes = None, x_diagnostics = (k, k, k, k), x_intervals = example_intervals, x_wifi = example_wifi\<rparr>)"

lemma example_world_simps [simp]:
  "x_host example_world = ppp_host" "x_show_error example_world = (\<lambda>_. ''error'')" "x_check example_world = ppp_world"
  "x_wifi example_world = example_wifi" "x_intervals example_world = example_intervals"
  by (simp_all add: example_world_def Let_def)

theorem json_output_witness:
  "\<exists>written. main example_world [''--json'', ''wifi''] = Some (written, None, 0)
    \<and> list_all document_line written \<and> length written = 1"
proof -
  obtain "is" where "interfaces example_wifi = Some (Ok is)"
    using example_wifi_interfaces by blast
  then have run: "main example_world [''--json'', ''wifi''] = Some ([Line (render (Array (map json_wifi is)))], None, 0)"
    by (simp add: main_def run_def run_json_def json_value_def table_step_def attempt_value_def attempt_to_def
        and_then_def print_verdict_def del: render.simps)
  from json_output [OF _ run] run show ?thesis
    by (simp add: command_of_def streaming_def del: render.simps)
qed

section \<open>The exit status\<close>

definition exits :: "(nat \<Rightarrow> bool) \<Rightarrow> nat step \<Rightarrow> bool" where
  "exits P s \<longleftrightarrow> (case s of Some (_, Inr code) \<Rightarrow> P code | _ \<Rightarrow> True)"

lemma exits_simps:
  "exits P (refused message)" "P 0 \<Longrightarrow> exits P (exit_with True)" "P 0 \<Longrightarrow> P 1 \<Longrightarrow> exits P (exit_with healthy)"
  "P 0 \<Longrightarrow> snd v \<Longrightarrow> exits P (print_verdict v)" "P 0 \<Longrightarrow> P 1 \<Longrightarrow> exits P (print_verdict v)"
  by (simp_all add: exits_def refused_def exit_with_def print_verdict_def)

lemma exits_and_then: "(\<And>v. exits P (f v)) \<Longrightarrow> exits P (and_then s f)"
  by (fastforce simp: exits_def and_then_def split: option.splits sum.splits)

lemma exits_decided: "(\<And>v. exits P (f v)) \<Longrightarrow> exits P (decided c f)"
  by (simp add: decided_def exits_simps split: sum.split)

definition verdict_commands :: "string list" where
  "verdict_commands = [''check'', ''probe'']"

definition command_exits :: "string \<Rightarrow> nat \<Rightarrow> bool" where
  "command_exits command code \<longleftrightarrow> code = 0 \<or> code = 1 \<and> command \<in> set verdict_commands"

lemma exits_run_text: "exits (command_exits command) (run_text x command arguments)"
  by (simp add: run_text_def unexpected_def run_command_def Let_def exits_simps exits_and_then exits_decided
      command_exits_def verdict_commands_def)

lemma exits_run_json: "exits (command_exits command) (run_json x command arguments)"
  by (simp add: run_json_def exits_simps exits_and_then exits_decided command_exits_def verdict_commands_def)

lemma verdict_printed:
  assumes "quiet (\<lambda>v. document_ok (fst v)) s" and "and_then s print_verdict = Some (written, Inr code)"
  obtains v where "s = Some ([], Inr v)" "document_ok (fst v)" "written = [Line (render (fst v))]" "code = (if snd v then 0 else 1)"
  using assms by (cases rule: printed_quiet [where g = "\<lambda>v. v"]) (use that in simp_all)

lemma attempt_value_Inr: "attempt_value x what p = Some (written, Inr v) \<longleftrightarrow> written = [] \<and> p = Some (Ok v)"
proof (cases p)
  case (Some r)
  then show ?thesis
    by (cases r) (auto simp: attempt_value_def attempt_to_def)
qed (simp add: attempt_value_def attempt_to_def)

lemma check_verdict_printed:
  assumes "run_json x ''check'' arguments = Some (written, Inr code)"
  shows "verdict_of ''healthy'' written = Some (Bool (code = 0))"
proof -
  obtain active where "and_then (attempt_value x ''cannot check network'' (check_json (x_show_error x) (x_host x) (x_check x) active))
      print_verdict = Some (written, Inr code)"
    using assms by (auto simp: run_json_def decided_def refused_def split: sum.splits)
  then obtain v where v: "attempt_value x ''cannot check network'' (check_json (x_show_error x) (x_host x) (x_check x) active) = Some ([], Inr v)"
    "document_ok (fst v)" "written = [Line (render (fst v))]" "code = (if snd v then 0 else 1)"
    by (rule verdict_printed [OF quiet_verdicts(2)])
  then have "check_json (x_show_error x) (x_host x) (x_check x) active = Some (Ok v)"
    by (simp add: attempt_value_Inr)
  with check_outputs [of "x_show_error x" "x_host x" "x_check x" active] obtain members where
    "fst v = Object members" "map_of members ''healthy'' = Some (Bool (snd v))"
    by (cases v) auto
  with v show ?thesis
    by (simp add: verdict_of_render del: render.simps)
qed

lemma probe_verdict_printed:
  assumes "run_json x ''probe'' arguments = Some (written, Inr code)"
  shows "verdict_of ''reachable'' written = Some (Bool (code = 0))"
proof -
  have "and_then (attempt_value x ''cannot probe destination'' (probe_json (x_probe x) arguments))
      print_verdict = Some (written, Inr code)"
    using assms by (simp add: run_json_def)
  then obtain v where v: "attempt_value x ''cannot probe destination'' (probe_json (x_probe x) arguments) = Some ([], Inr v)"
    "document_ok (fst v)" "written = [Line (render (fst v))]" "code = (if snd v then 0 else 1)"
    by (rule verdict_printed [OF quiet_verdicts(1)])
  then have "probe_json (x_probe x) arguments = Some (Ok v)"
    by (simp add: attempt_value_Inr)
  with probe_outputs [where w = "x_probe x" and arguments = arguments and h = "x_host x"] obtain members where
    "fst v = Object members" "map_of members ''reachable'' = Some (Bool (snd v))"
    by (cases v) auto
  with v show ?thesis
    by (simp add: verdict_of_render del: render.simps)
qed

text \<open>C9: Whatever the arguments: the program ends with status 0, 1 or 2; with 2 exactly when it writes a message to
  the standard error; with 1 only for \<open>check\<close> and \<open>probe\<close>, and their documents give the status: it is 0 if the
  network is healthy or the host reachable, and 1 if not.\<close>

theorem exit_status:
  assumes "main x args = Some (written, message, code)"
  shows "code \<in> {0, 1, 2} \<and> (code = 2 \<longleftrightarrow> message \<noteq> None)
    \<and> (code = 1 \<longrightarrow> command_of args \<in> {''check'', ''probe''})
    \<and> (''--json'' \<in> set args \<and> message = None \<longrightarrow>
        (command_of args = ''check'' \<longrightarrow> verdict_of ''healthy'' written = Some (Bool (code = 0)))
        \<and> (command_of args = ''probe'' \<longrightarrow> verdict_of ''reachable'' written = Some (Bool (code = 0))))"
  using assms
proof (cases rule: main_ends)
  case failed
  then show ?thesis
    by simp
next
  case ended
  have "exits (command_exits (command_of args)) (run x args)"
    by (simp add: run_def Let_def exits_run_text exits_run_json flip: command_of_def)
  with ended have "command_exits (command_of args) code"
    by (simp add: exits_def)
  moreover have "run_json x (command_of args) (drop 1 (remove1 ''--json'' args)) = Some (written, Inr code)"
    if "''--json'' \<in> set args"
    using ended(1) run_as_json [OF that] by simp
  ultimately show ?thesis
    using check_verdict_printed [of x] probe_verdict_printed [of x] ended(2)
    by (auto simp: command_exits_def verdict_commands_def)
qed

lemma checked_example:
  "\<exists>written code. main example_world [''--json'', ''check''] = Some (written, None, code)"
proof -
  obtain v healthy where "check_json (\<lambda>_. ''error'') ppp_host ppp_world False = Some (Ok (v, healthy))"
    using ppp_checked by blast
  then show ?thesis
    by (simp add: main_def run_def run_json_def active_argument_def decided_def attempt_value_def attempt_to_def
        and_then_def print_verdict_def del: render.simps)
qed

theorem exit_status_witness:
  "\<exists>written code. main example_world [''--json'', ''check''] = Some (written, None, code) \<and> code \<in> {0, 1}
    \<and> verdict_of ''healthy'' written = Some (Bool (code = 0))"
proof -
  obtain written code where run: "main example_world [''--json'', ''check''] = Some (written, None, code)"
    using checked_example by blast
  from exit_status [OF run] run show ?thesis
    by (auto simp: command_of_def)
qed

section \<open>The same status for both outputs\<close>

definition status :: "nat step \<Rightarrow> nat option" where
  "status s = map_option (\<lambda>(_, r). case r of Inl _ \<Rightarrow> 2 | Inr code \<Rightarrow> code) s"

definition ended :: "'a result \<Rightarrow> nat" where
  "ended r = (case r of Ok _ \<Rightarrow> 0 | Err _ \<Rightarrow> 2)"

definition judged :: "bool result \<Rightarrow> nat" where
  "judged r = (case r of Ok healthy \<Rightarrow> (if healthy then 0 else 1) | Err _ \<Rightarrow> 2)"

lemma ended_simps [simp]: "ended (Ok v) = 0" "ended (Err e) = 2"
    "judged (Ok healthy) = (if healthy then 0 else 1)" "judged (Err e) = 2"
  by (simp_all add: ended_def judged_def)

lemma status_of_main: "map_option (\<lambda>(_, _, code). code) (main x args) = status (run x args)"
  by (auto simp: status_def main_def option.map_comp comp_def intro!: option.map_cong split: sum.split)

lemma status_refused: "status (refused message) = Some 2" "status (exit_with healthy) = Some (if healthy then 0 else 1)"
    "status (Some (written, Inl message)) = Some 2"
  by (simp_all add: status_def refused_def exit_with_def)

lemma status_and_then:
  "status (and_then s f) = (case s of None \<Rightarrow> None | Some (_, Inl _) \<Rightarrow> Some 2 | Some (_, Inr v) \<Rightarrow> status (f v))"
  by (auto simp: status_def and_then_def option.map_comp comp_def intro!: option.map_cong split: option.split sum.split)

lemma status_wrote: "status (and_then (wrote ls) f) = status (f ())" "status (and_then (Some ([], Inr v)) g) = status (g v)"
  by (simp_all add: status_and_then wrote_def)

lemma status_attempt:
  "status (and_then (attempt_to x what p) (\<lambda>_. exit_with True)) = map_option (\<lambda>(_, r). ended r) p"
  "status (and_then (attempt_to x what q) exit_with) = map_option (\<lambda>(_, r). judged r) q"
proof -
  show "status (and_then (attempt_to x what p) (\<lambda>_. exit_with True)) = map_option (\<lambda>(_, r). ended r) p"
  proof (cases p)
    case (Some w)
    then show ?thesis
      by (cases w; cases "snd w") (simp_all add: status_and_then attempt_to_def status_refused ended_def)
  qed (simp add: status_and_then attempt_to_def)
  show "status (and_then (attempt_to x what q) exit_with) = map_option (\<lambda>(_, r). judged r) q"
  proof (cases q)
    case (Some w)
    then show ?thesis
      by (cases w; cases "snd w") (simp_all add: status_and_then attempt_to_def status_refused judged_def)
  qed (simp add: status_and_then attempt_to_def)
qed

lemma status_value:
  "status (and_then (attempt_value x what p) f) =
    (case p of None \<Rightarrow> None | Some (Err _) \<Rightarrow> Some 2 | Some (Ok v) \<Rightarrow> status (f v))"
proof (cases p)
  case (Some r)
  then show ?thesis
    by (cases r) (simp_all add: status_and_then attempt_value_def attempt_to_def)
qed (simp add: status_and_then attempt_value_def attempt_to_def)

lemma status_print_verdict: "status (print_verdict v) = Some (if snd v then 0 else 1)"
  by (simp add: status_def print_verdict_def)

text \<open>A table fails when its records cannot be read.\<close>

lemma ended_table:
  "map_option (\<lambda>(_, r). ended r) (map_option (\<lambda>reply. case reply of Err e \<Rightarrow> (before e, Err e) | Ok a \<Rightarrow> (f a, Ok ())) p) =
    map_option ended p"
  by (auto simp: option.map_comp comp_def ended_def intro!: option.map_cong split: result.split)

lemma ended_cases:
  "(case (case r of Ok a \<Rightarrow> (f a, Ok ()) | Err e \<Rightarrow> (before e, Err e)) of (_, q) \<Rightarrow> ended q) = ended r"
  "ended (case r of Ok a \<Rightarrow> Ok (g a) | Err e \<Rightarrow> Err e) = ended r"
  by (simp_all split: result.split)

lemma ended_tables:
  "map_option (\<lambda>(_, r). ended r) (print_links k) = map_option ended (links k)"
  "map_option (\<lambda>(_, r). ended r) (print_addresses h k2) = map_option ended (case_prod ip_addresses k2)"
  "map_option (\<lambda>(_, r). ended r) (print_routes h k2) = map_option ended (case_prod ip_routes k2)"
  "map_option (\<lambda>(_, r). ended r) (print_policy_rules k2) = map_option ended (case_prod ip_rules k2)"
  "map_option (\<lambda>(_, r). ended r) (print_route_to h k destination) = map_option ended (route_to k destination)"
  "map_option (\<lambda>(_, r). ended r) (print_wifi k) = map_option ended (interfaces k)"
  unfolding print_links_def print_addresses_def print_routes_def print_policy_rules_def print_route_to_def print_wifi_def
    ended_table by (rule refl)+

lemma ended_scan:
  "map_option (\<lambda>(_, r). ended r) (print_scan h nm e arguments) =
    map_option ended (map_option fst (scan_json h e panics getnameinfo arguments))"
  by (auto simp: print_scan_def scan_json_def scan_command_def option.map_comp comp_def ended_def Let_def
      intro!: option.map_cong split: option.split result.split)

lemma ended_sockets:
  "map_option (\<lambda>(_, r). ended r) (print_sockets h proc_dir show_error k view) =
    map_option ended (sockets_document h proc_dir show_error k view)"
  by (auto simp: print_sockets_def sockets_document_def sockets_json_def option.map_comp comp_def ended_def Let_def
      intro!: option.map_cong split: option.split result.split)

lemma ended_traffic_loop:
  "map_option (\<lambda>(_, r). ended r) (traffic_loop refresh go selection script n) =
    map_option (\<lambda>(_, r). ended r) (traffic_json_loop go selection script)"
proof (induction refresh go selection script n rule: traffic_loop.induct)
  case (2 refresh go selection t ts n)
  then show ?case
    by (cases "sample_of selection t") (auto simp: Let_def ended_def option.map_comp comp_def case_prod_unfold)
qed simp

lemma ended_traffic:
  "map_option (\<lambda>(_, r). ended r) (print_traffic is_terminal script arguments) =
    map_option (\<lambda>(_, r). ended r) (traffic_json script arguments)"
  by (simp add: print_traffic_def traffic_json_def ended_traffic_loop split: result.split)

lemma status_watched: "status (and_then (watched x p) (\<lambda>_. exit_with True)) = map_option (\<lambda>_. 2) (map_option fst p)"
  by (simp add: watched_def status_attempt(1) option.map_comp comp_def ended_def case_prod_unfold)

lemma status_documents:
  "status (and_then (table_step x what f reply) (\<lambda>v. print_verdict (v, True))) = map_option ended reply"
  "status (and_then (attempt_value x what document) (\<lambda>v. print_verdict (v, True))) = map_option ended document"
  by (auto simp: table_step_def status_value status_print_verdict ended_def split: option.split result.split)

lemma status_unexpected: "status (unexpected a) = Some 2" "status (and_then (refused message) f) = Some 2"
  by (simp_all add: unexpected_def status_refused status_and_then refused_def)

text \<open>The commands that ignore further arguments with \<open>--json\<close>.\<close>

definition plain_commands :: "string list" where
  "plain_commands = [''all'', ''interfaces'', ''links'', ''addresses'', ''routes'', ''rules'',
    ''-h'', ''--help'', ''help'', ''-V'', ''--version'']"

text \<open>Steps compose as in any error monad.\<close>

lemma and_then_assoc: "and_then (and_then s f) g = and_then s (\<lambda>v. and_then (f v) g)"
  by (auto simp: and_then_def option.map_comp comp_def case_prod_unfold split: option.split sum.split)

lemma and_then_refused: "and_then (refused message) f = refused message"
  by (simp add: and_then_def refused_def)

lemma and_then_decided: "and_then (decided c f) g = decided c (\<lambda>v. and_then (f v) g)"
  by (simp add: decided_def and_then_refused split: sum.split)

lemma status_decided: "status (decided c f) = (case c of Inl _ \<Rightarrow> Some 2 | Inr v \<Rightarrow> status (f v))"
  by (simp add: decided_def status_refused split: sum.split)

named_theorems dispatch

lemmas dispatch_defs [dispatch] =
  run_text_def run_command_def run_json_def json_value_def option_commands_def argument_commands_def Let_def
  status_attempt status_documents status_unexpected ended_tables
  status_wrote status_refused status_print_verdict and_then_assoc and_then_refused and_then_decided status_decided

lemma same_status_plain:
  "status (run_text x ''links'' []) = status (run_json x ''links'' [])"
  "status (run_text x ''addresses'' []) = status (run_json x ''addresses'' [])"
  "status (run_text x ''routes'' []) = status (run_json x ''routes'' [])"
  "status (run_text x ''rules'' []) = status (run_json x ''rules'' [])"
  "status (run_text x ''-h'' []) = status (run_json x ''-h'' [])"
  "status (run_text x ''--help'' []) = status (run_json x ''--help'' [])"
  "status (run_text x ''help'' []) = status (run_json x ''help'' [])"
  "status (run_text x ''-V'' []) = status (run_json x ''-V'' [])"
  "status (run_text x ''--version'' []) = status (run_json x ''--version'' [])"
  by (simp_all add: dispatch)

lemma same_status_unknown:
  "command \<notin> set (option_commands @ argument_commands @ plain_commands) \<Longrightarrow> command \<notin> {''wifi'', ''dns''} \<Longrightarrow>
    status (run_text x command arguments) = status (run_json x command arguments)"
  by (simp add: dispatch plain_commands_def status_refused)

lemma same_status_single:
  "status (run_text x ''wifi'' arguments) = status (run_json x ''wifi'' arguments)"
  "status (run_text x ''dns'' arguments) = status (run_json x ''dns'' arguments)"
  by (simp_all add: dispatch)

lemma judged_probe:
  "map_option (\<lambda>(_, r). judged r) (probe h w arguments) =
    map_option (\<lambda>r. case r of Ok v \<Rightarrow> if snd v then 0 else 1 | Err _ \<Rightarrow> 2) (probe_json w arguments)"
  using probe_outputs [where w = w and arguments = arguments and h = h]
  by (cases "probe_json w arguments"; cases "the (probe_json w arguments)"; cases "ok_value (the (probe_json w arguments))") auto

lemma judged_check:
  "map_option (\<lambda>(_, r). judged r) (check show_error h w active) =
    map_option (\<lambda>r. case r of Ok v \<Rightarrow> if snd v then 0 else 1 | Err _ \<Rightarrow> 2) (check_json show_error h w active)"
  using check_outputs [of show_error h w active]
  by (cases "check_json show_error h w active"; cases "the (check_json show_error h w active)";
      cases "ok_value (the (check_json show_error h w active))") auto

lemma status_verdict:
  "status (and_then (attempt_value x what p) print_verdict) =
    map_option (\<lambda>r. case r of Ok v \<Rightarrow> if snd v then 0 else 1 | Err _ \<Rightarrow> 2) p"
  by (auto simp: status_value status_print_verdict split: option.split result.split)

lemma status_traffic:
  "status (and_then (traffic_step x arguments) (\<lambda>_. exit_with True)) =
    map_option (\<lambda>(_, r). ended r) (print_traffic (x_terminal x) (x_intervals x) arguments)"
proof (cases "print_traffic (x_terminal x) (x_intervals x) arguments")
  case (Some w)
  then show ?thesis
    by (cases w; cases "snd w") (simp_all add: traffic_step_def status_and_then status_refused)
qed (simp add: traffic_step_def status_and_then)

lemma same_status_tools:
  "status (run_text x ''watch'' arguments) = status (run_json x ''watch'' arguments)"
  "status (run_text x ''traffic'' arguments) = status (run_json x ''traffic'' arguments)"
  "status (run_text x ''scan'' arguments) = status (run_json x ''scan'' arguments)"
  "status (run_text x ''probe'' arguments) = status (run_json x ''probe'' arguments)"
  "status (run_text x ''check'' arguments) = status (run_json x ''check'' arguments)"
proof -
  show "status (run_text x ''scan'' arguments) = status (run_json x ''scan'' arguments)"
    by (simp add: dispatch ended_scan)
  have "map_option fst (watch sysconf k h f script) = map_option fst (watch_json sysconf k h f script)" for sysconf k h f script
    unfolding watch_def watch_json_def by (rule watch_events_ends)
  then show "status (run_text x ''watch'' arguments) = status (run_json x ''watch'' arguments)"
    by (simp add: dispatch status_value status_watched split: result.split del: option.map_comp)
  show "status (run_text x ''traffic'' arguments) = status (run_json x ''traffic'' arguments)"
    by (simp add: dispatch status_traffic ended_traffic)
  show "status (run_text x ''probe'' arguments) = status (run_json x ''probe'' arguments)"
    by (simp add: dispatch judged_probe status_verdict)
  show "status (run_text x ''check'' arguments) = status (run_json x ''check'' arguments)"
    by (auto simp: dispatch judged_check status_verdict active_argument_def split: list.split sum.split)
qed

lemma same_status_selected:
  "status (run_text x ''route'' arguments) = status (run_json x ''route'' arguments)"
  "status (run_text x ''neighbors'' arguments) = status (run_json x ''neighbors'' arguments)"
  "status (run_text x ''hardware'' arguments) = status (run_json x ''hardware'' arguments)"
  "status (run_text x ''sockets'' arguments) = status (run_json x ''sockets'' arguments)"
proof -
  show "status (run_text x ''route'' arguments) = status (run_json x ''route'' arguments)"
    by (auto simp: dispatch run_route_def route_document_def ended_tables status_value
        split: list.split option.split result.split)
  show "status (run_text x ''sockets'' arguments) = status (run_json x ''sockets'' arguments)"
    by (auto simp: dispatch ended_sockets split: sum.split)
  show "status (run_text x ''neighbors'' arguments) = status (run_json x ''neighbors'' arguments)"
    by (auto simp: dispatch neighbors_document_def print_neighbors_def selected_index_def ended_cases option.map_comp comp_def
        split: list.split option.split result.split)
  show "status (run_text x ''hardware'' arguments) = status (run_json x ''hardware'' arguments)"
    by (auto simp: dispatch hardware_document_def print_hardware_def select_devices_def status_value
        split: list.split option.split result.split)
qed

definition commands :: "string list" where
  "commands = option_commands @ argument_commands @ plain_commands @ [''wifi'', ''dns'']"

lemma same_status:
  assumes "command \<notin> {''all'', ''interfaces''}" and "arguments = [] \<or> command \<notin> set plain_commands"
  shows "status (run_text x command arguments) = status (run_json x command arguments)"
proof (cases "command \<in> set commands")
  case False
  then show ?thesis
    by (intro same_status_unknown) (simp_all add: commands_def)
next
  case True
  show ?thesis
  proof (cases "command \<in> set plain_commands")
    case True
    with assms have "arguments = []" "command \<in> set plain_commands" "command \<notin> {''all'', ''interfaces''}"
      by simp_all
    then show ?thesis
      unfolding plain_commands_def list.set by (elim insertE emptyE) (simp_all add: same_status_plain)
  next
    case False
    with True have "command \<in> set (option_commands @ argument_commands @ [''wifi'', ''dns''])"
      by (simp add: commands_def)
    then show ?thesis
      unfolding option_commands_def argument_commands_def append.simps list.set
      by (elim insertE emptyE) (simp_all add: same_status_tools same_status_selected same_status_single)
  qed
qed

text \<open>C8: With and without \<open>--json\<close> a command ends with the same exit status, or both run on, whatever the system
  answers: for every command but \<open>all\<close> and \<open>interfaces\<close>, which read other sources for their tables, and for any
  arguments where both forms examine them.\<close>

theorem exit_status_agrees:
  assumes "''--json'' \<notin> set (command # arguments)" and "command \<notin> {''all'', ''interfaces''}"
    and "arguments = [] \<or> command \<notin> set plain_commands"
  shows "map_option (\<lambda>(_, _, code). code) (main x (''--json'' # command # arguments)) =
    map_option (\<lambda>(_, _, code). code) (main x (command # arguments))"
  using assms(1) same_status [OF assms(2,3), of x] by (simp add: status_of_main run_def remove1_idem Let_def)

theorem exit_status_agrees_witness:
  "map_option (\<lambda>(_, _, code). code) (main example_world [''--json'', ''traffic'', ''--watch'', ''lo'']) =
    map_option (\<lambda>(_, _, code). code) (main example_world [''traffic'', ''--watch'', ''lo''])"
  by (rule exit_status_agrees) (simp_all add: plain_commands_def)

text \<open>C30: The commands without arguments refuse further ones, naming the second if there are two, in their
  table form; with \<open>--json\<close> they ignore them.\<close>

theorem extra_arguments:
  assumes "command \<in> set plain_commands" and "extra \<noteq> []" and "''--json'' \<notin> set (command # extra)"
  shows "main x (command # extra) =
      Some ([], Some (''networkrs: unexpected argument: '' @ (if 1 < length extra then extra ! 1 else extra ! 0)
        @ [newline, newline] @ usage), 2)
    \<and> main x (''--json'' # command # extra) = main x [''--json'', command]"
proof -
  have "run_text x command extra = unexpected (if 1 < length extra then extra ! 1 else extra ! 0)"
    using assms(1,2) unfolding plain_commands_def list.set
    by (elim insertE emptyE) (simp_all add: run_text_def option_commands_def argument_commands_def)
  moreover have "run_json x command extra = run_json x command []"
    using assms(1) unfolding plain_commands_def list.set
    by (elim insertE emptyE) (simp_all add: run_json_def json_value_def)
  ultimately show ?thesis
    using assms(3) by (simp add: main_def run_def remove1_idem unexpected_def refused_def)
qed

theorem extra_arguments_witness:
  "main example_world [''links'', ''eth0''] =
      Some ([], Some (''networkrs: unexpected argument: eth0'' @ [newline, newline] @ usage), 2)
    \<and> main example_world [''--json'', ''links'', ''eth0''] = main example_world [''--json'', ''links'']"
  using extra_arguments [of "''links''" "[''eth0'']" example_world] by (simp add: plain_commands_def)

end
