(* ===== verification/Spec2Isabelle.thy ===== *)
theory Spec2Isabelle
  imports Netlink_Events Generic_Netlink Sock_Diag Scanner Traffic Ping Resolver Oui Json Ethtool_Spec Wifi_Spec
    Cli_Arguments_Spec Cli_Probe Cli_Networks_Spec Cli_Json_Spec Cli_Watch Cli_Check_Spec Cli_Commands_Spec
begin

text \<open>
  A development for \<open>networkrs\<close>, a Rust library with a command line program that reads the
  network state of a Linux host over netlink, procfs and sysfs, without dependencies. Everything
  below models the code under \<open>src/src\<close>; the names are those of the code.

  \<^bold>\<open>Parts and how they interact.\<close>
  \<open>netlink.rs\<close> speaks rtnetlink: it builds requests, collects the datagrams of a dump, parses
  links, addresses, routes, rules and neighbors, and watches notifications.
  \<open>generic_netlink.rs\<close> is the client of the generic families, with a sequence number and a queue;
  \<open>ethtool.rs\<close> and \<open>wifi.rs\<close> are its users. \<open>sock_diag.rs\<close> dumps socket diagnostics, \<open>sockets.rs\<close>
  reads the procfs tables and attributes sockets to processes. \<open>scanner.rs\<close> probes the addresses
  of connected networks between two neighbor snapshots of \<open>netlink.rs\<close>; \<open>traffic.rs\<close> samples
  counters, \<open>ping.rs\<close> measures echo replies, \<open>resolver.rs\<close> resolves names in worker threads, \<open>oui.rs\<close>
  looks up vendors, \<open>json.rs\<close> renders documents, and \<open>main.rs\<close> is the command line over all of them.

  \<^bold>\<open>What is outside.\<close> The kernel is a parameter: a record \<open>kernel\<close> of answers to the calls on a
  socket (\<open>socket\<close>, \<open>bind\<close>, \<open>sendto\<close>) and, for each request, of the list of outcomes of \<open>recv\<close>, in
  order. Files, \<open>ioctl\<close>, \<open>connect\<close>, \<open>to_socket_addrs\<close>, \<open>getnameinfo\<close>, the time a call takes and the
  display form of errors are parameters too; the record \<open>world\<close> of \<open>Cli_Commands\<close> collects them for the
  whole program. A function whose loop ends only when
  the kernel ends it returns an option: \<open>None\<close> says that the outcomes given so far do not end it.
  No fuel is used; the loops over bytes and lists terminate by measures, which are proved with
  their definitions. The model is that of a little-endian 64-bit host. Lengths of buffers are
  unbounded naturals: sums of \<open>usize\<close> values that fit memory do not wrap.

  \<^bold>\<open>Prelude.\<close> \<open>Prelude\<close> (integers, \<open>io::Error\<close> as the value \<open>io_error\<close>, results, slices and the
  iterator methods the code uses, saturating arithmetic, alignment), \<open>Bytes\<close> (native and network
  order), \<open>Text\<close>, \<open>Text_Ops\<close>, \<open>Text_Layout\<close> (strings as UTF-8 bytes, parsing and printing of
  numbers, lines and columns), \<open>Net_Types\<close> and \<open>Ip_Text\<close> (addresses, their order and text), \<open>Paths\<close>,
  \<open>Floats\<close> (the arithmetic of \<open>f32\<close> and \<open>f64\<close> with correct rounding), \<open>Float_Text\<close> (their texts with a fixed
  number of places and in the shortest form, which is proved to read back as the same number). \<open>Interfaces\<close> declares the locales that
  several components instantiate: a stream of aligned records (messages in a datagram,
  attributes in a message, next hops in an attribute) and the union of two address families.

  \<^bold>\<open>rtnetlink\<close> (\<open>netlink.rs\<close>). \<open>Netlink_Const\<close> has the constants; \<open>Netlink_Wire\<close> headers and
  attributes; \<open>Message_Loop\<close> the nested loops of receivers, with the refinement of the loops to a
  fold over the flat list of messages (\<open>transcript\<close>, \<open>run_steps\<close>); \<open>Netlink_Labels\<close> the texts of flags
  and enumerations, with a locale for flag tables; \<open>Netlink_Records\<close> the parsers of all five
  records; \<open>Netlink_Dump\<close> requests, steps, snapshots of a family, unions and route lookups.
  \<open>Netlink_Roundtrip\<close> shows that a message which the kernel lays out from a record is parsed to that
  record; \<open>Netlink_Dump_Spec\<close> that a snapshot is exactly what the kernel sent, sorted and without
  the entries that are not of the family, that an interrupted or failed dump is an error, and that
  missing IPv6 support does not fail a union. \<open>Netlink_Events\<close> does the same for the event stream.

  \<^bold>\<open>Generic netlink.\<close> \<open>Generic_Netlink\<close> has the client as a state (family, sequence, queue of the
  socket) with each of its operations; its theorem shows that a request returns exactly the
  messages of its own sequence number, also when replies of earlier requests are still queued.
  \<open>Generic_Replies\<close> packages this for single replies and dumps; \<open>Ethtool\<close>, \<open>Ethtool_Spec\<close>, \<open>Wifi\<close> and
  \<open>Wifi_Spec\<close> model the two users and show that the devices and interfaces they return are those the
  kernel reports, every optional part degrading to nothing on its own; bitsets in their verbose and
  compact forms, statistics, information elements and scan results are inverted from what the
  kernel encodes.

  \<^bold>\<open>Sockets.\<close> \<open>Sockets\<close> (procfs tables, attribution to processes, views) and \<open>Sock_Diag\<close> (requests,
  dumps, \<open>tcp_info\<close> of any length). The theorems invert the kernel's rows and messages, and show
  that the processes of an inode are exactly those that hold it.

  \<^bold>\<open>Tools.\<close> \<open>Scanner\<close> (the arithmetic of prefixes at 32 bits, at most 4096 targets, the trace of the
  probes), \<open>Traffic\<close> (rates that saturate instead of wrapping), \<open>Ping\<close> (the checksum and the loop of
  attempts over the queue of the socket), \<open>Resolver\<close> (at most 8 workers, none of whose failures
  affects the others), \<open>Oui\<close>, and \<open>Json\<close> (a renderer, with a reader of RFC 8259 that inverts it).

  \<^bold>\<open>Command line\<close> (\<open>main.rs\<close>). \<open>Cli_Arguments\<close> has the argument parsers; \<open>Cli_Arguments_Spec\<close> shows what
  they accept and that every accepted value is within its limits. \<open>Cli_Probe\<close> models the pool of up
  to 64 threads that share a counter and a list as a step relation over their atomic actions:
  an invariant over the reachable states gives that the outcome does not depend on the schedule,
  and a cost that every step decreases by one gives termination without deadlock. \<open>Cli_Networks\<close>
  and \<open>Cli_Networks_Spec\<close> have the choice of the networks to scan and the scan command, which never
  sends more than 10 times 4096 probes. \<open>Cli_Json\<close> and \<open>Cli_Json_Spec\<close> have the documents, all
  well formed; \<open>Cli_Watch\<close> the handlers of the event stream as instances of one contract
  (\<open>name_tracking\<close>); \<open>Cli_Check\<close> and \<open>Cli_Check_Spec\<close> the health check and the meaning of its verdict,
  \<open>Cli_Check_Text\<close> its table, which counts the same warnings. \<open>Cli_Numbers\<close> has the texts of sizes, ages and
  durations, with the exact value of a printed size; \<open>Cli_Tables\<close> and \<open>Cli_Net_Tables\<close> the tables of all
  records, line by line; \<open>Cli_Probe_Output\<close> the choice of the destination of a probe and its results as a
  table and as a document; \<open>Cli_Tools\<close> and \<open>Cli_Tools_Spec\<close> the output of \<open>sockets\<close>, \<open>wifi\<close> and \<open>traffic\<close>, with
  the screen that the control sequences of \<open>traffic --watch\<close> leave.

  \<^bold>\<open>The program.\<close> \<open>Cli_Commands\<close> composes everything: \<open>main\<close>, \<open>run\<close> and \<open>run_json\<close> with every command as a
  step that writes lines and ends with a value or a message (\<open>and_then\<close> is the \<open>?\<close> operator). Its theorems in
  \<open>Cli_Commands_Spec\<close> are about whole calls: with \<open>--json\<close> the standard output is a sequence of documents that
  read back, the exit status tells success, verdict and failure apart, it does not depend on \<open>--json\<close> where
  both forms read the same sources, and how further arguments are treated.

  \<^bold>\<open>Not modelled.\<close> The foreign function declarations, the layout of \<open>ifreq\<close>, the closing of descriptors, the
  threads and sleeps of the scanner and the tests have no counterpart. Writing to the standard output is
  assumed not to fail. Helpers that several files define alike (\<open>attributes\<close>, \<open>nul_terminated_string\<close>,
  \<open>read_unaligned\<close>, \<open>socket_state\<close>, \<open>receive\<close>) are modelled once.
\<close>

end
